(* ===== verification/Prelude.thy ===== *)
theory Prelude
  imports Main "HOL-Library.Word" "HOL-Library.AList"
begin

text \<open>
  Shared vocabulary of the development: the machine integer types of the Rust code, its
  \<open>Result\<close> type, the string and integer routines of the Rust standard library that the
  proxy calls (\<open>trim_start_matches\<close>, \<open>split\<close>, \<open>split_once\<close>, \<open>to_string\<close>, \<open>parse\<close>,
  \<open>to_le_bytes\<close>, \<open>from_le_bytes\<close>), fallible computations over a world state, and
  reachability with the invariant rule for step relations.
\<close>

named_theorems result_simps \<open>case rules for results\<close>
named_theorems str_simps \<open>evaluation of the string routines\<close>

section \<open>Machine types\<close>

type_synonym u8 = "8 word"
type_synonym u16 = "16 word"
type_synonym u32 = "32 word"
type_synonym u64 = "64 word"
type_synonym usize = "64 word"
type_synonym bytes = "8 word list"

text \<open>A size with the lower bound \<open>max(1)\<close>.\<close>

lemma unat_max_1: "1 \<le> unat (max (l :: usize) 1)"
  by (auto simp: max_def word_le_nat_alt not_le)

section \<open>Results\<close>

datatype ('a, 'e) result = Ok 'a | Err 'e

fun is_ok :: "('a, 'e) result \<Rightarrow> bool" where
  "is_ok (Ok _) = True"
| "is_ok (Err _) = False"

fun map_err :: "('e \<Rightarrow> 'f) \<Rightarrow> ('a, 'e) result \<Rightarrow> ('a, 'f) result" where
  "map_err f (Ok a) = Ok a"
| "map_err f (Err e) = Err (f e)"

fun and_then :: "('a, 'e) result \<Rightarrow> ('a \<Rightarrow> ('b, 'e) result) \<Rightarrow> ('b, 'e) result" where
  "and_then (Ok a) f = f a"
| "and_then (Err e) f = Err e"

definition ok_or :: "'e \<Rightarrow> 'a option \<Rightarrow> ('a, 'e) result" where
  "ok_or e x = (case x of None \<Rightarrow> Err e | Some a \<Rightarrow> Ok a)"

lemma map_err_Ok_iff [simp]: "map_err f r = Ok a \<longleftrightarrow> r = Ok a"
  by (cases r) auto

lemma map_err_Err_iff: "map_err f r = Err e \<longleftrightarrow> (\<exists>d. r = Err d \<and> e = f d)"
  by (cases r) auto

lemma and_then_Ok_iff: "and_then r f = Ok b \<longleftrightarrow> (\<exists>a. r = Ok a \<and> f a = Ok b)"
  by (cases r) auto

lemma and_then_Err_iff: "and_then r f = Err e \<longleftrightarrow> r = Err e \<or> (\<exists>a. r = Ok a \<and> f a = Err e)"
  by (cases r) auto

lemma ok_or_Ok_iff [simp]: "ok_or e x = Ok a \<longleftrightarrow> x = Some a"
  by (cases x) (auto simp: ok_or_def)

lemma ok_or_Err_iff [simp]: "ok_or e x = Err d \<longleftrightarrow> x = None \<and> d = e"
  by (cases x) (auto simp: ok_or_def)

lemma is_ok_iff: "is_ok r \<longleftrightarrow> (\<exists>a. r = Ok a)"
  by (cases r) auto

lemmas [result_simps] = and_then_Ok_iff and_then_Err_iff map_err_Err_iff is_ok_iff

text \<open>
  A fallible computation over a world: Rust's \<open>?\<close> after an awaited call. The rest is skipped
  on an error, and the world reached so far is kept.
\<close>

type_synonym ('w, 'a, 'e) action = "'w \<Rightarrow> ('a, 'e) result \<times> 'w"

definition bind_io :: "('w, 'a, 'e) action \<Rightarrow> ('a \<Rightarrow> ('w, 'b, 'e) action) \<Rightarrow> ('w, 'b, 'e) action" where
  "bind_io m f w = (case m w of (Ok a, w') \<Rightarrow> f a w' | (Err e, w') \<Rightarrow> (Err e, w'))"

lemma bind_io_Ok: "m w = (Ok a, w') \<Longrightarrow> bind_io m f w = f a w'"
  by (simp add: bind_io_def)

lemma bind_io_Err: "m w = (Err e, w') \<Longrightarrow> bind_io m f w = (Err e, w')"
  by (simp add: bind_io_def)

lemma bind_io_eq_Ok:
  "bind_io m f w = (Ok b, w'') \<longleftrightarrow> (\<exists>a w'. m w = (Ok a, w') \<and> f a w' = (Ok b, w''))"
  by (auto simp: bind_io_def split: prod.splits result.splits)

section \<open>Strings\<close>

definition trim_start_matches :: "char \<Rightarrow> string \<Rightarrow> string" where
  "trim_start_matches c s = dropWhile (\<lambda>x. x = c) s"

fun split_chr :: "char \<Rightarrow> string \<Rightarrow> string list" where
  "split_chr c [] = [[]]"
| "split_chr c (x # xs) =
     (if x = c then [] # split_chr c xs
      else (case split_chr c xs of [] \<Rightarrow> [[x]] | y # ys \<Rightarrow> (x # y) # ys))"

lemma split_chr_not_Nil [simp]: "split_chr c s \<noteq> []"
  by (cases s) (auto split: list.splits)

lemma split_chr_no_sep: "c \<notin> set s \<Longrightarrow> split_chr c s = [s]"
  by (induction s) auto

lemma split_chr_append_sep: "c \<notin> set a \<Longrightarrow> split_chr c (a @ c # b) = a # split_chr c b"
  by (induction a) auto

lemma split_chr_no_sep_in_parts: "p \<in> set (split_chr c s) \<Longrightarrow> c \<notin> set p"
proof (induction s arbitrary: p)
  case Nil
  then show ?case by simp
next
  case (Cons x xs)
  then show ?case
    by (cases "split_chr c xs") (auto split: if_splits)
qed

lemma trim_start_matches_idem: "(\<forall>x xs. s = x # xs \<longrightarrow> x \<noteq> c) \<Longrightarrow> trim_start_matches c s = s"
  by (cases s) (auto simp: trim_start_matches_def)

fun split_once :: "string \<Rightarrow> string \<Rightarrow> (string \<times> string) option" where
  "split_once p [] = (if p = [] then Some ([], []) else None)"
| "split_once p (x # xs) =
     (if take (length p) (x # xs) = p then Some ([], drop (length p) (x # xs))
      else map_option (\<lambda>(a, b). (x # a, b)) (split_once p xs))"

lemma split_once_Some: "split_once p s = Some (a, b) \<Longrightarrow> s = a @ p @ b"
proof (induction s arbitrary: a b)
  case Nil
  then show ?case by (auto split: if_splits)
next
  case (Cons x xs)
  show ?case
  proof (cases "take (length p) (x # xs) = p")
    case True
    with Cons.prems show ?thesis
      by (auto) (metis append_take_drop_id)
  next
    case False
    with Cons show ?thesis by auto
  qed
qed

subsection \<open>Decimal numbers\<close>

definition digit_char :: "nat \<Rightarrow> char" where
  "digit_char d = char_of (48 + d)"

fun dec_string :: "nat \<Rightarrow> string" where
  "dec_string n = (if n < 10 then [digit_char n] else dec_string (n div 10) @ [digit_char (n mod 10)])"

declare dec_string.simps [simp del]

definition digit_val :: "char \<Rightarrow> nat option" where
  "digit_val c = (let k = (of_char c :: nat) in if 48 \<le> k \<and> k \<le> 57 then Some (k - 48) else None)"

text \<open>\<open>parse\<close> of an unsigned type: the digits with an overflow check at every step.\<close>

fun parse_digits :: "nat \<Rightarrow> nat \<Rightarrow> string \<Rightarrow> nat option" where
  "parse_digits bound acc [] = Some acc"
| "parse_digits bound acc (c # cs) =
     (case digit_val c of
        None \<Rightarrow> None
      | Some d \<Rightarrow> if acc * 10 + d < bound then parse_digits bound (acc * 10 + d) cs else None)"

definition parse_unsigned :: "nat \<Rightarrow> string \<Rightarrow> nat option" where
  "parse_unsigned bound s =
     (let ds = (case s of c # cs \<Rightarrow> if c = CHR ''+'' then cs else s | [] \<Rightarrow> [])
      in if ds = [] then None else parse_digits bound 0 ds)"

lemma digit_val_digit_char [simp]: "d < 10 \<Longrightarrow> digit_val (digit_char d) = Some d"
  by (simp add: digit_val_def digit_char_def of_char_of)

lemma parse_digits_append:
  "parse_digits bound acc (xs @ ys) = Option.bind (parse_digits bound acc xs) (\<lambda>a. parse_digits bound a ys)"
  by (induction xs arbitrary: acc) (auto split: option.splits)

lemma parse_digits_bound: "parse_digits bound acc s = Some n \<Longrightarrow> acc < bound \<Longrightarrow> n < bound"
  by (induction bound acc s rule: parse_digits.induct) (auto split: option.splits if_splits)

lemma parse_digits_dec_string: "n < bound \<Longrightarrow> parse_digits bound 0 (dec_string n) = Some n"
proof (induction n rule: dec_string.induct)
  case (1 n)
  show ?case
  proof (cases "n < 10")
    case True
    with 1 show ?thesis by (simp add: dec_string.simps)
  next
    case False
    with 1 have "parse_digits bound 0 (dec_string (n div 10)) = Some (n div 10)" by simp
    with False 1 show ?thesis
      by (subst dec_string.simps) (simp add: parse_digits_append)
  qed
qed

lemma dec_string_Cons: "\<exists>c cs. dec_string n = c # cs \<and> (\<exists>d < 10. c = digit_char d)"
proof (induction n rule: dec_string.induct)
  case (1 n)
  then show ?case by (cases "n < 10") (auto simp: dec_string.simps [of n])
qed

lemma digit_char_not_plus: "d < 10 \<Longrightarrow> digit_char d \<noteq> CHR ''+''"
proof
  assume "d < 10" and "digit_char d = CHR ''+''"
  then have "digit_val CHR ''+'' = Some d" using digit_val_digit_char by metis
  then show False by (simp add: digit_val_def)
qed

lemma parse_unsigned_dec_string: "n < bound \<Longrightarrow> parse_unsigned bound (dec_string n) = Some n"
  using dec_string_Cons [of n] parse_digits_dec_string [of n bound] digit_char_not_plus
  by (auto simp: parse_unsigned_def Let_def)

lemma parse_unsigned_bound: "parse_unsigned bound s = Some n \<Longrightarrow> 0 < bound \<Longrightarrow> n < bound"
  by (auto simp: parse_unsigned_def Let_def simp del: parse_digits.simps
      split: if_splits list.splits dest: parse_digits_bound)

lemma dec_string_inject: "dec_string m = dec_string n \<longleftrightarrow> m = n"
proof
  assume eq: "dec_string m = dec_string n"
  have "parse_unsigned (Suc (max m n)) (dec_string m) = Some m"
    by (rule parse_unsigned_dec_string) simp
  moreover have "parse_unsigned (Suc (max m n)) (dec_string n) = Some n"
    by (rule parse_unsigned_dec_string) simp
  ultimately show "m = n" using eq by (metis option.inject)
qed simp

section \<open>Little-endian framing integers\<close>

definition to_le_bytes :: "u32 \<Rightarrow> bytes" where
  "to_le_bytes x = [ucast x, ucast (drop_bit 8 x), ucast (drop_bit 16 x), ucast (drop_bit 24 x)]"

definition from_le_bytes :: "bytes \<Rightarrow> u32" where
  "from_le_bytes bs = foldr (\<lambda>b acc. ucast b + acc * 256) bs 0"

lemma length_to_le_bytes [simp]: "length (to_le_bytes x) = 4"
  by (simp add: to_le_bytes_def)

lemma base256_digits:
  assumes "(n :: nat) < 2 ^ 32"
  shows "n mod 256 + ((n div 256) mod 256 + ((n div 65536) mod 256 + (n div 16777216) mod 256 * 256) * 256) * 256 = n"
proof -
  have q2: "n div 65536 = n div 256 div 256" and q3: "n div 16777216 = n div 256 div 256 div 256"
    by (simp_all flip: div_mult2_eq)
  have "n div 16777216 < 256" using assms by (simp add: less_mult_imp_div_less)
  then have "(n div 16777216) mod 256 = n div 16777216" by simp
  then show ?thesis unfolding q2 q3 by (metis mod_div_mult_eq)
qed

lemma ucast_byte: "(ucast (ucast (x :: u32) :: u8) :: u32) = word_of_nat (unat x mod 256)"
  by (rule unsigned_word_eqI [where 'a = nat])
     (simp add: unsigned_ucast_eq take_bit_eq_mod unsigned_of_nat unat_mod_distrib)

lemma unat_drop_bytes:
  fixes x :: u32
  shows "unat (drop_bit 8 x) = unat x div 256"
    and "unat (drop_bit 16 x) = unat x div 65536"
    and "unat (drop_bit 24 x) = unat x div 16777216"
  by (simp_all add: drop_bit_eq_div unat_div_distrib)

lemma from_to_le_bytes: "from_le_bytes (to_le_bytes x) = x"
proof -
  have lt: "unat x < 2 ^ 32" using unsigned_less [of x] by simp
  have "from_le_bytes (to_le_bytes x) = word_of_nat (unat x mod 256 + ((unat x div 256) mod 256
      + ((unat x div 65536) mod 256 + (unat x div 16777216) mod 256 * 256) * 256) * 256)"
    unfolding from_le_bytes_def to_le_bytes_def list.map foldr.simps comp_def id_def ucast_byte unat_drop_bytes
    by simp
  also have "\<dots> = x" unfolding base256_digits [OF lt] by simp
  finally show ?thesis .
qed

lemma base256_parts:
  fixes a b c d :: nat
  assumes "a < 256" "b < 256" "c < 256" "d < 256"
    and n: "n = a + (b + (c + d * 256) * 256) * 256"
  shows "n mod 256 = a" "n div 256 mod 256 = b" "n div 65536 mod 256 = c" "n div 16777216 mod 256 = d"
proof -
  have q2: "n div 65536 = n div 256 div 256" and q3: "n div 16777216 = n div 256 div 256 div 256"
    by (simp_all flip: div_mult2_eq)
  have step: "(x + y * 256) mod 256 = x" "(x + y * 256) div 256 = y" if "x < 256" for x y :: nat
    using that by simp_all
  show "n mod 256 = a" "n div 256 mod 256 = b" "n div 65536 mod 256 = c" "n div 16777216 mod 256 = d"
    unfolding q2 q3 unfolding n using assms(1-4) by (simp_all only: step) simp
qed

lemma to_from_le_bytes:
  assumes "length bs = 4"
  shows "to_le_bytes (from_le_bytes bs) = bs"
proof -
  obtain a b c d where bs: "bs = [a, b, c, d]"
    using assms by (auto simp: numeral_eq_Suc length_Suc_conv)
  have byte: "unat x < 256" for x :: u8 using unsigned_less [of x] by simp
  let ?n = "unat a + (unat b + (unat c + unat d * 256) * 256) * 256"
  have n: "unat (from_le_bytes bs) = ?n"
  proof -
    have "from_le_bytes bs = word_of_nat ?n"
      by (simp add: bs from_le_bytes_def)
    then have "unat (from_le_bytes bs) = take_bit 32 ?n" by (simp only: unsigned_of_nat) simp
    moreover have "?n < 2 ^ 32" using byte [of a] byte [of b] byte [of c] byte [of d] by simp
    ultimately show ?thesis by (simp only: take_bit_eq_mod mod_less)
  qed
  have byteI: "(ucast (y :: u32) :: u8) = x" if "unat y mod 256 = unat x" for x y
    by (rule unsigned_word_eqI [where 'a = nat]) (simp add: unsigned_ucast_eq take_bit_eq_mod that)
  show ?thesis
    unfolding to_le_bytes_def bs list.inject
    using base256_parts [OF byte byte byte byte n]
    by (intro conjI byteI) (simp_all only: unat_drop_bytes bs refl)
qed

section \<open>Reachability\<close>

inductive reach :: "('s \<Rightarrow> bool) \<Rightarrow> ('s \<Rightarrow> 's \<Rightarrow> bool) \<Rightarrow> 's \<Rightarrow> bool"
  for init step where
  reach_init: "init s \<Longrightarrow> reach init step s"
| reach_step: "reach init step s \<Longrightarrow> step s t \<Longrightarrow> reach init step t"

inductive steps :: "('s \<Rightarrow> 's \<Rightarrow> bool) \<Rightarrow> 's \<Rightarrow> 's \<Rightarrow> bool" for step where
  steps_refl: "steps step s s"
| steps_step: "step s t \<Longrightarrow> steps step t u \<Longrightarrow> steps step s u"

lemma steps_trans: "steps step s t \<Longrightarrow> steps step t u \<Longrightarrow> steps step s u"
  by (induction rule: steps.induct) (auto intro: steps_step)

lemma reach_steps: "steps step s t \<Longrightarrow> reach init step s \<Longrightarrow> reach init step t"
  by (induction rule: steps.induct) (auto intro: reach_step)

text \<open>The contract of an invariant, and what every reachable state gets from it.\<close>

locale invariant_system =
  fixes init :: "'s \<Rightarrow> bool"
    and step :: "'s \<Rightarrow> 's \<Rightarrow> bool"
    and inv :: "'s \<Rightarrow> bool"
  assumes inv_init: "init s \<Longrightarrow> inv s"
    and inv_step: "inv s \<Longrightarrow> step s t \<Longrightarrow> inv t"
begin

lemma inv_reach: "reach init step s \<Longrightarrow> inv s"
  by (induction rule: reach.induct) (auto intro: inv_init inv_step)

lemma inv_steps: "steps step s t \<Longrightarrow> inv s \<Longrightarrow> inv t"
  by (induction rule: steps.induct) (auto intro: inv_step)

end

end
