(* ===== verification/Http_Types.thy ===== *)
theory Http_Types
  imports Prelude
begin

text \<open>
  The values that travel through the HTTP side of the proxy: JSON values as the source builds and
  matches them (\<open>serde_json::Value\<close>), requests and responses, and the \<open>AppError\<close> of
  \<open>src/handlers.rs\<close> with its constructors and its conversion into a response.
  Text encodings of JSON are third-party code: a response body is either raw bytes or the
  serialisation of a JSON value (\<open>JsonBody\<close>), and parsing is a parameter where it is used.
\<close>

section \<open>JSON values\<close>

datatype number = IntNum int | FloatNum string

text \<open>
  An object is its list of fields. A field is read with \<^const>\<open>map_of\<close> and written with
  \<^const>\<open>AList.update\<close>, which agree with the map the source uses whatever order that map keeps.
\<close>

datatype json =
    JNull
  | JBool bool
  | JNumber number
  | JString string
  | JArray "json list"
  | JObject "(string \<times> json) list"

definition obj_get :: "string \<Rightarrow> (string \<times> json) list \<Rightarrow> json option" where
  "obj_get k fields = map_of fields k"

definition obj_insert :: "string \<Rightarrow> json \<Rightarrow> (string \<times> json) list \<Rightarrow> (string \<times> json) list" where
  "obj_insert k v fields = AList.update k v fields"

fun as_str :: "json \<Rightarrow> string option" where
  "as_str (JString s) = Some s"
| "as_str _ = None"

lemma obj_get_insert [simp]: "obj_get k (obj_insert k' v fs) = (if k = k' then Some v else obj_get k fs)"
  by (simp add: obj_get_def obj_insert_def update_conv')

lemma as_str_Some_iff [simp]: "as_str v = Some s \<longleftrightarrow> v = JString s"
  by (cases v) auto

definition JInt :: "int \<Rightarrow> json" where
  "JInt n = JNumber (IntNum n)"

section \<open>Requests and responses\<close>

record http_request =
  req_method :: string
  req_path :: string
  req_body :: bytes

datatype body = RawBody bytes | JsonBody json | EmptyBody

record http_response =
  resp_status :: u16
  resp_headers :: "(string \<times> string) list"
  resp_body :: body

text \<open>What is sent of a response: the one to a HEAD request has no body.\<close>

definition without_body :: "string \<Rightarrow> http_response \<Rightarrow> http_response" where
  "without_body meth response = (if meth = ''HEAD'' then response\<lparr>resp_body := EmptyBody\<rparr> else response)"

lemma without_body_simps [simp]:
  "resp_status (without_body meth r) = resp_status r" "resp_headers (without_body meth r) = resp_headers r"
  "meth \<noteq> ''HEAD'' \<Longrightarrow> without_body meth r = r"
  by (simp_all add: without_body_def)

text \<open>\<open>StatusCode::is_success\<close>: 200 to 299.\<close>

definition is_success_status :: "u16 \<Rightarrow> bool" where
  "is_success_status st \<longleftrightarrow> 200 \<le> st \<and> st < 300"

section \<open>Application errors\<close>

record AppError =
  err_status :: u16
  err_message :: string

definition AppError_new :: "u16 \<Rightarrow> string \<Rightarrow> AppError" where
  "AppError_new status message = \<lparr>err_status = status, err_message = message\<rparr>"

definition not_found :: "string \<Rightarrow> AppError" where
  "not_found message = AppError_new 404 message"

definition bad_request :: "string \<Rightarrow> AppError" where
  "bad_request message = AppError_new 400 message"

definition bad_gateway :: "string \<Rightarrow> AppError" where
  "bad_gateway message = AppError_new 502 message"

text \<open>\<open>(status, Json(payload)).into_response()\<close>.\<close>

definition into_response :: "AppError \<Rightarrow> http_response" where
  "into_response e =
     \<lparr>resp_status = err_status e,
      resp_headers = [(''content-type'', ''application/json'')],
      resp_body = JsonBody (JObject [(''error'', JString (err_message e))])\<rparr>"

text \<open>A handler's \<open>Result<Response, AppError>\<close> as the response the client gets.\<close>

fun respond :: "(http_response, AppError) result \<Rightarrow> http_response" where
  "respond (Ok r) = r"
| "respond (Err e) = into_response e"

lemma AppError_fields [simp]:
  "err_status (AppError_new s m) = s" "err_message (AppError_new s m) = m"
  "err_status (not_found m) = 404" "err_message (not_found m) = m"
  "err_status (bad_request m) = 400" "err_message (bad_request m) = m"
  "err_status (bad_gateway m) = 502" "err_message (bad_gateway m) = m"
  by (simp_all add: AppError_new_def not_found_def bad_request_def bad_gateway_def)

lemma into_response_status [simp]: "resp_status (into_response e) = err_status e"
  by (simp add: into_response_def)

end
