(* ===== verification/Metrics.thy ===== *)
theory Metrics
  imports Http_Types
begin

text \<open>
  The Prometheus metrics of \<open>src/metrics.rs\<close>. A metric vector is one field of the \<open>AppMetrics\<close>
  struct (\<open>metric_id\<close>). The Prometheus client is third-party code, so the effect of a method of
  \<open>AppMetrics\<close> is the sequence of calls it makes on the vectors, appended to a log; the value of a
  counter or gauge is read off the log. The guards of connections and in-flight requests, the path
  classification of the HTTP layer, the middleware \<open>track_http\<close> and the registration of all
  vectors in \<open>AppMetrics::new\<close> are modelled call by call.
\<close>

named_theorems metric_defs \<open>the methods of AppMetrics as log extensions\<close>
named_theorems metric_ok \<open>the methods of AppMetrics only make well-formed calls\<close>

section \<open>The metric vectors and their registration\<close>

datatype metric_id =
    http_requests_total
  | http_requests_by_ip_total
  | http_request_duration_seconds
  | http_429_total
  | jsonrpc_method_total
  | rpc_upstream_duration_seconds
  | rpc_upstream_errors_total
  | rpc_upstream_non_success_total
  | sse_ingest_total
  | sse_backlog_size
  | sse_backlog_dropped_total
  | sse_reconnect_total
  | sse_time_to_first_api_version_seconds
  | sse_connections
  | binary_requests_total
  | binary_responses_total
  | binary_connections
  | binary_inflight_requests
  | binary_queue_wait_seconds
  | db_pool_connections
  | db_migrations_total
  | db_pool_wait_seconds

datatype metric_kind = IntCounterVec | IntGaugeVec | HistogramVec

record metric_vec =
  vec_kind :: metric_kind
  vec_name :: string
  vec_help :: string
  vec_labels :: "string list"

type_synonym registry = "metric_vec list"

text \<open>
  What the Prometheus client decides: whether a vector can be built from a name, a help text and
  label names, and whether a registry takes it. Both are unwrapped with \<open>expect\<close>, so a refusal is
  a panic, which carries the message of the \<open>expect\<close>.
\<close>

record prometheus =
  vec_new_ok :: "metric_vec \<Rightarrow> bool"
  register_ok :: "registry \<Rightarrow> metric_vec \<Rightarrow> bool"

definition register_vec ::
  "prometheus \<Rightarrow> string \<Rightarrow> string \<Rightarrow> registry \<Rightarrow> metric_vec \<Rightarrow> (metric_vec \<times> registry, string) result" where
  "register_vec P config_msg register_msg reg v =
     (if \<not> vec_new_ok P v then Err config_msg
      else if \<not> register_ok P reg v then Err register_msg
      else Ok (v, reg @ [v]))"

definition register_counter_vec ::
  "prometheus \<Rightarrow> registry \<Rightarrow> string \<Rightarrow> string \<Rightarrow> string list \<Rightarrow> (metric_vec \<times> registry, string) result" where
  "register_counter_vec P reg name descr labels =
     register_vec P ''counter config'' ''register counter'' reg
       \<lparr>vec_kind = IntCounterVec, vec_name = name, vec_help = descr, vec_labels = labels\<rparr>"

definition register_gauge_vec ::
  "prometheus \<Rightarrow> registry \<Rightarrow> string \<Rightarrow> string \<Rightarrow> string list \<Rightarrow> (metric_vec \<times> registry, string) result" where
  "register_gauge_vec P reg name descr labels =
     register_vec P ''gauge config'' ''register gauge'' reg
       \<lparr>vec_kind = IntGaugeVec, vec_name = name, vec_help = descr, vec_labels = labels\<rparr>"

definition register_histogram_vec ::
  "prometheus \<Rightarrow> registry \<Rightarrow> string \<Rightarrow> string \<Rightarrow> string list \<Rightarrow> (metric_vec \<times> registry, string) result" where
  "register_histogram_vec P reg name descr labels =
     register_vec P ''histogram config'' ''register histogram'' reg
       \<lparr>vec_kind = HistogramVec, vec_name = name, vec_help = descr, vec_labels = labels\<rparr>"

text \<open>The arguments of the registrations of \<open>AppMetrics::new\<close>, in program order.\<close>

definition metric_specs :: "(metric_id \<times> metric_kind \<times> string \<times> string \<times> string list) list" where
  "metric_specs =
    [(http_requests_total, IntCounterVec, ''http_requests_total'', ''HTTP responses by status'',
        [''network'', ''method'', ''endpoint'', ''status'']),
     (http_requests_by_ip_total, IntCounterVec, ''http_requests_by_ip_total'',
        ''HTTP requests by client IP'', [''network'', ''ip'']),
     (http_request_duration_seconds, HistogramVec, ''http_request_duration_seconds'',
        ''HTTP request duration in seconds'', [''network'', ''method'', ''endpoint'']),
     (http_429_total, IntCounterVec, ''http_429_total'', ''HTTP 429 responses'',
        [''network'', ''endpoint'']),
     (jsonrpc_method_total, IntCounterVec, ''jsonrpc_method_total'', ''JSON-RPC method call count'',
        [''network'', ''method'']),
     (rpc_upstream_duration_seconds, HistogramVec, ''rpc_upstream_duration_seconds'',
        ''Upstream JSON-RPC request duration in seconds'', [''network'']),
     (rpc_upstream_errors_total, IntCounterVec, ''rpc_upstream_errors_total'',
        ''Upstream JSON-RPC transport errors'', [''network'']),
     (rpc_upstream_non_success_total, IntCounterVec, ''rpc_upstream_non_success_total'',
        ''Upstream JSON-RPC non-success HTTP responses'', [''network'', ''status'']),
     (sse_ingest_total, IntCounterVec, ''sse_ingest_total'', ''SSE events ingested from upstream'',
        [''network'']),
     (sse_backlog_size, IntGaugeVec, ''sse_backlog_size'', ''Current SSE backlog size'',
        [''network'']),
     (sse_backlog_dropped_total, IntCounterVec, ''sse_backlog_dropped_total'',
        ''SSE backlog events dropped due to limits'', [''network'']),
     (sse_reconnect_total, IntCounterVec, ''sse_reconnect_total'', ''SSE listener reconnects'',
        [''network'']),
     (sse_time_to_first_api_version_seconds, HistogramVec,
        ''sse_time_to_first_api_version_seconds'',
        ''Time to first ApiVersion event after connecting'', [''network'']),
     (sse_connections, IntGaugeVec, ''sse_connections'', ''Active SSE/WS event stream connections'',
        [''network'']),
     (binary_requests_total, IntCounterVec, ''binary_requests_total'',
        ''Binary port requests received'', [''network'']),
     (binary_responses_total, IntCounterVec, ''binary_responses_total'',
        ''Binary port responses returned'', [''network'', ''outcome'']),
     (binary_connections, IntGaugeVec, ''binary_connections'',
        ''Active binary websocket connections'', [''network'']),
     (binary_inflight_requests, IntGaugeVec, ''binary_inflight_requests'',
        ''Binary port requests in flight'', [''network'']),
     (binary_queue_wait_seconds, HistogramVec, ''binary_queue_wait_seconds'',
        ''Time waiting for a binary pool connection'', [''network'']),
     (db_pool_connections, IntGaugeVec, ''db_pool_connections'',
        ''Database pool connection counts'', [''network'', ''state'']),
     (db_migrations_total, IntCounterVec, ''db_migrations_total'', ''Database migrations outcomes'',
        [''network'', ''outcome'']),
     (db_pool_wait_seconds, HistogramVec, ''db_pool_wait_seconds'',
        ''Database connection checkout wait time in seconds'', [''network'', ''operation''])]"

record AppMetrics =
  registry_of :: registry
  vectors_of :: "(metric_id \<times> metric_vec) list"

fun register_one ::
  "prometheus \<Rightarrow> metric_kind \<Rightarrow> registry \<Rightarrow> string \<Rightarrow> string \<Rightarrow> string list
     \<Rightarrow> (metric_vec \<times> registry, string) result" where
  "register_one P IntCounterVec reg name descr labels = register_counter_vec P reg name descr labels"
| "register_one P IntGaugeVec reg name descr labels = register_gauge_vec P reg name descr labels"
| "register_one P HistogramVec reg name descr labels = register_histogram_vec P reg name descr labels"

fun register_specs ::
  "prometheus \<Rightarrow> (metric_id \<times> metric_kind \<times> string \<times> string \<times> string list) list
     \<Rightarrow> AppMetrics \<Rightarrow> (AppMetrics, string) result" where
  "register_specs P [] m = Ok m"
| "register_specs P ((i, k, name, descr, labels) # specs) m =
     (case register_one P k (registry_of m) name descr labels of
        Err e \<Rightarrow> Err e
      | Ok (v, reg) \<Rightarrow>
          register_specs P specs \<lparr>registry_of = reg, vectors_of = vectors_of m @ [(i, v)]\<rparr>)"

definition AppMetrics_new :: "prometheus \<Rightarrow> (AppMetrics, string) result" where
  "AppMetrics_new P = register_specs P metric_specs \<lparr>registry_of = [], vectors_of = []\<rparr>"

section \<open>Calls on the vectors\<close>

datatype metric_op =
    Inc metric_id "string list"
  | Dec metric_id "string list"
  | Set metric_id "string list" int
  | Observe metric_id "string list" nat

type_synonym mlog = "metric_op list"

definition emit :: "metric_op \<Rightarrow> mlog \<Rightarrow> mlog" where
  "emit op log = log @ [op]"

definition GLOBAL_NETWORK :: string where
  "GLOBAL_NETWORK = ''global''"

text \<open>Durations are nanoseconds.\<close>

definition http_observe ::
  "string \<Rightarrow> string \<Rightarrow> string \<Rightarrow> u16 \<Rightarrow> nat \<Rightarrow> string option \<Rightarrow> mlog \<Rightarrow> mlog" where
  "http_observe network meth endpoint status duration client_ip log =
     (let status_str = dec_string (unat status);
          log = emit (Inc http_requests_total [network, meth, endpoint, status_str]) log;
          log = emit (Observe http_request_duration_seconds [network, meth, endpoint] duration) log;
          log = (if status = 429 then emit (Inc http_429_total [network, endpoint]) log else log)
      in case client_ip of
           Some ip \<Rightarrow> emit (Inc http_requests_by_ip_total [network, ip]) log
         | None \<Rightarrow> log)"

definition increment_jsonrpc_method :: "string \<Rightarrow> string \<Rightarrow> mlog \<Rightarrow> mlog" where
  "increment_jsonrpc_method network meth = emit (Inc jsonrpc_method_total [network, meth])"

definition observe_rpc_upstream_duration :: "string \<Rightarrow> nat \<Rightarrow> mlog \<Rightarrow> mlog" where
  "observe_rpc_upstream_duration network d = emit (Observe rpc_upstream_duration_seconds [network] d)"

definition increment_rpc_upstream_error :: "string \<Rightarrow> mlog \<Rightarrow> mlog" where
  "increment_rpc_upstream_error network = emit (Inc rpc_upstream_errors_total [network])"

definition increment_rpc_upstream_non_success :: "string \<Rightarrow> u16 \<Rightarrow> mlog \<Rightarrow> mlog" where
  "increment_rpc_upstream_non_success network status =
     emit (Inc rpc_upstream_non_success_total [network, dec_string (unat status)])"

definition increment_sse_ingest :: "string \<Rightarrow> mlog \<Rightarrow> mlog" where
  "increment_sse_ingest network = emit (Inc sse_ingest_total [network])"

definition set_sse_backlog_size :: "string \<Rightarrow> usize \<Rightarrow> mlog \<Rightarrow> mlog" where
  "set_sse_backlog_size network n = emit (Set sse_backlog_size [network] (sint n))"

definition increment_sse_backlog_dropped :: "string \<Rightarrow> mlog \<Rightarrow> mlog" where
  "increment_sse_backlog_dropped network = emit (Inc sse_backlog_dropped_total [network])"

definition increment_sse_reconnect :: "string \<Rightarrow> mlog \<Rightarrow> mlog" where
  "increment_sse_reconnect network = emit (Inc sse_reconnect_total [network])"

definition observe_sse_time_to_first_api_version :: "string \<Rightarrow> nat \<Rightarrow> mlog \<Rightarrow> mlog" where
  "observe_sse_time_to_first_api_version network d =
     emit (Observe sse_time_to_first_api_version_seconds [network] d)"

definition increment_binary_requests :: "string \<Rightarrow> mlog \<Rightarrow> mlog" where
  "increment_binary_requests network = emit (Inc binary_requests_total [network])"

definition increment_binary_response :: "string \<Rightarrow> string \<Rightarrow> mlog \<Rightarrow> mlog" where
  "increment_binary_response network outcome = emit (Inc binary_responses_total [network, outcome])"

definition observe_binary_queue_wait :: "string \<Rightarrow> nat \<Rightarrow> mlog \<Rightarrow> mlog" where
  "observe_binary_queue_wait network d = emit (Observe binary_queue_wait_seconds [network] d)"

definition saturating_sub :: "u32 \<Rightarrow> u32 \<Rightarrow> u32" where
  "saturating_sub a b = (if a < b then 0 else a - b)"

definition set_db_pool_stats :: "u32 \<Rightarrow> u32 \<Rightarrow> mlog \<Rightarrow> mlog" where
  "set_db_pool_stats tot idle log =
     (let in_use = saturating_sub tot idle;
          log = emit (Set db_pool_connections [GLOBAL_NETWORK, ''total''] (uint tot)) log;
          log = emit (Set db_pool_connections [GLOBAL_NETWORK, ''idle''] (uint idle)) log
      in emit (Set db_pool_connections [GLOBAL_NETWORK, ''in_use''] (uint in_use)) log)"

definition increment_db_migration :: "string \<Rightarrow> mlog \<Rightarrow> mlog" where
  "increment_db_migration outcome = emit (Inc db_migrations_total [GLOBAL_NETWORK, outcome])"

definition observe_db_pool_wait :: "string \<Rightarrow> nat \<Rightarrow> mlog \<Rightarrow> mlog" where
  "observe_db_pool_wait operation d = emit (Observe db_pool_wait_seconds [GLOBAL_NETWORK, operation] d)"

section \<open>Guards\<close>

datatype GaugeKind = EventsConnections | BinaryConnections | BinaryInflight

record GaugeGuard =
  guard_network :: string
  guard_kind :: GaugeKind

definition events_connection_guard :: "string \<Rightarrow> mlog \<Rightarrow> GaugeGuard \<times> mlog" where
  "events_connection_guard network log =
     (\<lparr>guard_network = network, guard_kind = EventsConnections\<rparr>,
      emit (Inc sse_connections [network]) log)"

definition binary_connection_guard :: "string \<Rightarrow> mlog \<Rightarrow> GaugeGuard \<times> mlog" where
  "binary_connection_guard network log =
     (\<lparr>guard_network = network, guard_kind = BinaryConnections\<rparr>,
      emit (Inc binary_connections [network]) log)"

definition binary_inflight_guard :: "string \<Rightarrow> mlog \<Rightarrow> GaugeGuard \<times> mlog" where
  "binary_inflight_guard network log =
     (\<lparr>guard_network = network, guard_kind = BinaryInflight\<rparr>,
      emit (Inc binary_inflight_requests [network]) log)"

definition dec_events_connections :: "string \<Rightarrow> mlog \<Rightarrow> mlog" where
  "dec_events_connections network = emit (Dec sse_connections [network])"

definition dec_binary_connections :: "string \<Rightarrow> mlog \<Rightarrow> mlog" where
  "dec_binary_connections network = emit (Dec binary_connections [network])"

definition dec_binary_inflight :: "string \<Rightarrow> mlog \<Rightarrow> mlog" where
  "dec_binary_inflight network = emit (Dec binary_inflight_requests [network])"

definition drop_guard :: "GaugeGuard \<Rightarrow> mlog \<Rightarrow> mlog" where
  "drop_guard g =
     (case guard_kind g of
        EventsConnections \<Rightarrow> dec_events_connections (guard_network g)
      | BinaryConnections \<Rightarrow> dec_binary_connections (guard_network g)
      | BinaryInflight \<Rightarrow> dec_binary_inflight (guard_network g))"

lemmas [metric_defs] =
  http_observe_def increment_jsonrpc_method_def observe_rpc_upstream_duration_def
  increment_rpc_upstream_error_def increment_rpc_upstream_non_success_def increment_sse_ingest_def
  set_sse_backlog_size_def increment_sse_backlog_dropped_def increment_sse_reconnect_def
  observe_sse_time_to_first_api_version_def increment_binary_requests_def
  increment_binary_response_def observe_binary_queue_wait_def set_db_pool_stats_def
  increment_db_migration_def observe_db_pool_wait_def events_connection_guard_def
  binary_connection_guard_def binary_inflight_guard_def dec_events_connections_def
  dec_binary_connections_def dec_binary_inflight_def drop_guard_def

section \<open>Path classification and the HTTP middleware\<close>

definition network_from_path :: "string \<Rightarrow> string" where
  "network_from_path path =
     (let segments = split_chr CHR ''/'' (trim_start_matches CHR ''/'' path);
          candidate = (case segments of [] \<Rightarrow> [] | s # _ \<Rightarrow> s)
      in if candidate = [] then GLOBAL_NETWORK else candidate)"

definition endpoint_from_path :: "string \<Rightarrow> string" where
  "endpoint_from_path path =
     (let segments = split_chr CHR ''/'' (trim_start_matches CHR ''/'' path)
      in case segments of
           _ # s # _ \<Rightarrow>
             if s = [] then ''root''
             else if s = ''rpc'' then ''rpc''
             else if s = ''events'' then ''events''
             else if s = ''binary'' then ''binary''
             else ''other''
         | _ \<Rightarrow> ''root'')"

text \<open>
  The inner service (\<open>next.run\<close>), the client address (\<open>SmartIpKeyExtractor\<close>) and the clock are
  parameters; the inner service may itself write to the metrics. Its response is \<open>None\<close> when it panics,
  which unwinds through the middleware.
\<close>

definition track_http ::
  "(http_request \<Rightarrow> string option) \<Rightarrow> ('w \<Rightarrow> nat)
     \<Rightarrow> (http_request \<Rightarrow> mlog \<Rightarrow> 'w \<Rightarrow> http_response option \<times> mlog \<times> 'w)
     \<Rightarrow> http_request \<Rightarrow> mlog \<Rightarrow> 'w \<Rightarrow> http_response option \<times> mlog \<times> 'w" where
  "track_http extract_ip clock run_next req log w =
     (let meth = req_method req;
          path = req_path req;
          network = network_from_path path;
          endpoint = endpoint_from_path path;
          client_ip = extract_ip req;
          start = clock w
      in case run_next req log w of
           (None, log, w) \<Rightarrow> (None, log, w)
         | (Some response, log, w) \<Rightarrow>
             (let status = resp_status response;
                  log = http_observe network meth endpoint status (clock w - start) client_ip log
              in (Some response, log, w)))"

section \<open>Reading the log\<close>

text \<open>The value of a counter, and the level of a gauge that is only moved by guards.\<close>

definition counter :: "metric_id \<Rightarrow> string list \<Rightarrow> mlog \<Rightarrow> nat" where
  "counter i ls log = count_list log (Inc i ls)"

definition level :: "metric_id \<Rightarrow> string list \<Rightarrow> mlog \<Rightarrow> int" where
  "level i ls log = int (count_list log (Inc i ls)) - int (count_list log (Dec i ls))"

lemma counter_Nil [simp]: "counter i ls [] = 0"
  and counter_append [simp]: "counter i ls (a @ b) = counter i ls a + counter i ls b"
  and counter_emit [simp]: "counter i ls (emit op log) = counter i ls log + (if op = Inc i ls then 1 else 0)"
  by (simp_all add: counter_def emit_def)

lemma level_Nil [simp]: "level i ls [] = 0"
  and level_append [simp]: "level i ls (a @ b) = level i ls a + level i ls b"
  and level_emit [simp]:
    "level i ls (emit op log) =
       level i ls log + (if op = Inc i ls then 1 else if op = Dec i ls then - 1 else 0)"
  by (simp_all add: level_def emit_def)

text \<open>
  A call is well formed when the vector was registered with a kind that has the operation and with
  as many label names as the call gives label values: \<open>with_label_values\<close> panics otherwise.
\<close>

definition declared :: "metric_id \<Rightarrow> (metric_kind \<times> nat) option" where
  "declared i = map_of (map (\<lambda>(i, k, name, descr, labels). (i, k, length labels)) metric_specs) i"

fun op_ok :: "metric_op \<Rightarrow> bool" where
  "op_ok (Inc i ls) = (case declared i of None \<Rightarrow> False | Some (k, n) \<Rightarrow> k \<noteq> HistogramVec \<and> length ls = n)"
| "op_ok (Dec i ls) = (case declared i of None \<Rightarrow> False | Some (k, n) \<Rightarrow> k = IntGaugeVec \<and> length ls = n)"
| "op_ok (Set i ls v) = (case declared i of None \<Rightarrow> False | Some (k, n) \<Rightarrow> k = IntGaugeVec \<and> length ls = n)"
| "op_ok (Observe i ls d) = (case declared i of None \<Rightarrow> False | Some (k, n) \<Rightarrow> k = HistogramVec \<and> length ls = n)"

definition log_ok :: "mlog \<Rightarrow> bool" where
  "log_ok log = list_all op_ok log"

lemma log_ok_Nil [simp]: "log_ok []"
  and log_ok_append [simp]: "log_ok (a @ b) \<longleftrightarrow> log_ok a \<and> log_ok b"
  and log_ok_emit: "log_ok (emit op log) \<longleftrightarrow> log_ok log \<and> op_ok op"
  by (auto simp: log_ok_def emit_def)

lemma declared_simps [simp]:
  "declared http_requests_total = Some (IntCounterVec, 4)"
  "declared http_requests_by_ip_total = Some (IntCounterVec, 2)"
  "declared http_request_duration_seconds = Some (HistogramVec, 3)"
  "declared http_429_total = Some (IntCounterVec, 2)"
  "declared jsonrpc_method_total = Some (IntCounterVec, 2)"
  "declared rpc_upstream_duration_seconds = Some (HistogramVec, 1)"
  "declared rpc_upstream_errors_total = Some (IntCounterVec, 1)"
  "declared rpc_upstream_non_success_total = Some (IntCounterVec, 2)"
  "declared sse_ingest_total = Some (IntCounterVec, 1)"
  "declared sse_backlog_size = Some (IntGaugeVec, 1)"
  "declared sse_backlog_dropped_total = Some (IntCounterVec, 1)"
  "declared sse_reconnect_total = Some (IntCounterVec, 1)"
  "declared sse_time_to_first_api_version_seconds = Some (HistogramVec, 1)"
  "declared sse_connections = Some (IntGaugeVec, 1)"
  "declared binary_requests_total = Some (IntCounterVec, 1)"
  "declared binary_responses_total = Some (IntCounterVec, 2)"
  "declared binary_connections = Some (IntGaugeVec, 1)"
  "declared binary_inflight_requests = Some (IntGaugeVec, 1)"
  "declared binary_queue_wait_seconds = Some (HistogramVec, 1)"
  "declared db_pool_connections = Some (IntGaugeVec, 2)"
  "declared db_migrations_total = Some (IntCounterVec, 2)"
  "declared db_pool_wait_seconds = Some (HistogramVec, 2)"
  by (simp_all add: declared_def metric_specs_def)

lemma log_ok_methods [simp, metric_ok]:
  "log_ok (http_observe network meth endpoint status d ip log) \<longleftrightarrow> log_ok log"
  "log_ok (increment_jsonrpc_method network meth log) \<longleftrightarrow> log_ok log"
  "log_ok (observe_rpc_upstream_duration network d log) \<longleftrightarrow> log_ok log"
  "log_ok (increment_rpc_upstream_error network log) \<longleftrightarrow> log_ok log"
  "log_ok (increment_rpc_upstream_non_success network status log) \<longleftrightarrow> log_ok log"
  "log_ok (increment_sse_ingest network log) \<longleftrightarrow> log_ok log"
  "log_ok (set_sse_backlog_size network n log) \<longleftrightarrow> log_ok log"
  "log_ok (increment_sse_backlog_dropped network log) \<longleftrightarrow> log_ok log"
  "log_ok (increment_sse_reconnect network log) \<longleftrightarrow> log_ok log"
  "log_ok (observe_sse_time_to_first_api_version network d log) \<longleftrightarrow> log_ok log"
  "log_ok (increment_binary_requests network log) \<longleftrightarrow> log_ok log"
  "log_ok (increment_binary_response network outcome log) \<longleftrightarrow> log_ok log"
  "log_ok (observe_binary_queue_wait network d log) \<longleftrightarrow> log_ok log"
  "log_ok (set_db_pool_stats tot idle log) \<longleftrightarrow> log_ok log"
  "log_ok (increment_db_migration outcome log) \<longleftrightarrow> log_ok log"
  "log_ok (observe_db_pool_wait operation d log) \<longleftrightarrow> log_ok log"
  "log_ok (snd (events_connection_guard network log)) \<longleftrightarrow> log_ok log"
  "log_ok (snd (binary_connection_guard network log)) \<longleftrightarrow> log_ok log"
  "log_ok (snd (binary_inflight_guard network log)) \<longleftrightarrow> log_ok log"
  "log_ok (drop_guard g log) \<longleftrightarrow> log_ok log"
  by (auto simp: metric_defs Let_def log_ok_emit split: option.splits GaugeKind.splits)

section \<open>Guards balance\<close>

text \<open>
  The contract of a guard: acquiring it moves one gauge up for its network, and dropping that guard
  moves the same gauge down, whatever was logged in between.
\<close>

locale gauge_scope =
  fixes acquire :: "string \<Rightarrow> mlog \<Rightarrow> GaugeGuard \<times> mlog"
    and release :: "GaugeGuard \<Rightarrow> mlog \<Rightarrow> mlog"
    and gauge :: metric_id
  assumes acquire_log: "snd (acquire network log) = log @ [Inc gauge [network]]"
    and release_log: "release (fst (acquire network log)) log' = log' @ [Dec gauge [network]]"
begin

lemma level_held:
  "level gauge ls (snd (acquire network log) @ ops) =
     level gauge ls (log @ ops) + (if ls = [network] then 1 else 0)"
  by (simp add: acquire_log level_def)

lemma scope_neutral:
  "level i ls (release (fst (acquire network log)) (snd (acquire network log) @ ops)) =
     level i ls (log @ ops)"
  by (simp add: acquire_log release_log level_def)

lemma scope_counters:
  "i \<noteq> gauge \<Longrightarrow>
     counter i ls (release (fst (acquire network log)) (snd (acquire network log) @ ops)) =
     counter i ls (log @ ops)"
  by (simp add: acquire_log release_log counter_def)

end

interpretation events_gauge: gauge_scope events_connection_guard drop_guard sse_connections
  by unfold_locales (simp_all add: metric_defs emit_def)

interpretation binary_gauge: gauge_scope binary_connection_guard drop_guard binary_connections
  by unfold_locales (simp_all add: metric_defs emit_def)

interpretation inflight_gauge: gauge_scope binary_inflight_guard drop_guard binary_inflight_requests
  by unfold_locales (simp_all add: metric_defs emit_def)

section \<open>Registration\<close>

text \<open>
  The documented rules of the Prometheus client: metric names are
  \<open>[a-zA-Z_:][a-zA-Z0-9_:]*\<close>, label names \<open>[a-zA-Z_][a-zA-Z0-9_]*\<close>, the help text is not empty,
  labels are distinct, a histogram has no label \<open>le\<close>, and a registry takes a collector whose name it
  does not hold yet.
\<close>

definition is_alpha :: "char \<Rightarrow> bool" where
  "is_alpha c = (let k = (of_char c :: nat) in (65 \<le> k \<and> k \<le> 90) \<or> (97 \<le> k \<and> k \<le> 122) \<or> k = 95)"

definition is_digit :: "char \<Rightarrow> bool" where
  "is_digit c = (let k = (of_char c :: nat) in 48 \<le> k \<and> k \<le> 57)"

definition valid_label :: "string \<Rightarrow> bool" where
  "valid_label s = (case s of [] \<Rightarrow> False | c # cs \<Rightarrow> is_alpha c \<and> list_all (\<lambda>x. is_alpha x \<or> is_digit x) cs)"

definition valid_metric_name :: "string \<Rightarrow> bool" where
  "valid_metric_name s =
     (case s of [] \<Rightarrow> False
      | c # cs \<Rightarrow> (is_alpha c \<or> c = CHR '':'')
          \<and> list_all (\<lambda>x. is_alpha x \<or> is_digit x \<or> x = CHR '':'') cs)"

definition valid_vec :: "metric_vec \<Rightarrow> bool" where
  "valid_vec v \<longleftrightarrow>
     valid_metric_name (vec_name v) \<and> vec_help v \<noteq> [] \<and> list_all valid_label (vec_labels v)
     \<and> distinct (vec_labels v) \<and> (vec_kind v = HistogramVec \<longrightarrow> ''le'' \<notin> set (vec_labels v))"

definition prometheus_accepts :: "prometheus \<Rightarrow> bool" where
  "prometheus_accepts P \<longleftrightarrow>
     (\<forall>v. valid_vec v \<longrightarrow> vec_new_ok P v)
     \<and> (\<forall>reg v. vec_name v \<notin> vec_name ` set reg \<longrightarrow> register_ok P reg v)"

definition vec_of_spec :: "metric_id \<times> metric_kind \<times> string \<times> string \<times> string list \<Rightarrow> metric_vec" where
  "vec_of_spec s =
     (case s of (i, k, name, descr, labels) \<Rightarrow>
        \<lparr>vec_kind = k, vec_name = name, vec_help = descr, vec_labels = labels\<rparr>)"

lemma register_one_accepted:
  assumes "prometheus_accepts P" and "valid_vec (vec_of_spec (i, k, name, descr, labels))"
    and "name \<notin> vec_name ` set reg"
  shows "register_one P k reg name descr labels =
    Ok (vec_of_spec (i, k, name, descr, labels), reg @ [vec_of_spec (i, k, name, descr, labels)])"
  using assms
  by (cases k) (auto simp: register_counter_vec_def register_gauge_vec_def register_histogram_vec_def
      register_vec_def prometheus_accepts_def vec_of_spec_def)

lemma register_specs_accepted:
  assumes "prometheus_accepts P"
    and "\<forall>s \<in> set specs. valid_vec (vec_of_spec s)"
    and "distinct (map vec_name (registry_of m) @ map (vec_name \<circ> vec_of_spec) specs)"
  shows "register_specs P specs m =
    Ok \<lparr>registry_of = registry_of m @ map vec_of_spec specs,
        vectors_of = vectors_of m @ map (\<lambda>s. (fst s, vec_of_spec s)) specs\<rparr>"
  using assms(2,3)
proof (induction specs arbitrary: m)
  case Nil
  then show ?case by simp
next
  case (Cons s specs)
  obtain i k name descr labels where s: "s = (i, k, name, descr, labels)" by (cases s) auto
  let ?v = "vec_of_spec s"
  let ?m = "\<lparr>registry_of = registry_of m @ [?v], vectors_of = vectors_of m @ [(i, ?v)]\<rparr>"
  have nm: "vec_name ?v = name" by (simp add: s vec_of_spec_def)
  have "name \<notin> vec_name ` set (registry_of m)" using Cons.prems(2) by (auto simp: nm)
  then have one: "register_one P k (registry_of m) name descr labels = Ok (?v, registry_of m @ [?v])"
    using register_one_accepted [OF assms(1), of i k name descr labels "registry_of m"] Cons.prems(1) s
    by simp
  have "register_specs P specs ?m =
      Ok \<lparr>registry_of = registry_of ?m @ map vec_of_spec specs,
          vectors_of = vectors_of ?m @ map (\<lambda>s. (fst s, vec_of_spec s)) specs\<rparr>"
    using Cons.prems by (intro Cons.IH) auto
  with one show ?case by (simp add: s)
qed

lemma metric_specs_valid: "\<forall>s \<in> set metric_specs. valid_vec (vec_of_spec s)"
  by (simp add: metric_specs_def vec_of_spec_def valid_vec_def valid_metric_name_def valid_label_def
      is_alpha_def is_digit_def Let_def)

lemma metric_specs_distinct: "distinct (map (vec_name \<circ> vec_of_spec) metric_specs)"
  by (simp add: metric_specs_def vec_of_spec_def)

section \<open>Properties\<close>

text \<open>C35: building the metrics never panics. Under the documented rules of the Prometheus client,
  \<open>AppMetrics::new\<close> gets through all its \<open>expect\<close>s, the registered names are pairwise distinct,
  and every field of the struct holds a vector that is in the registry.\<close>

theorem AppMetrics_new_total:
  assumes "prometheus_accepts P"
  shows "\<exists>m. AppMetrics_new P = Ok m \<and> distinct (map vec_name (registry_of m))
    \<and> (\<forall>i. \<exists>v. map_of (vectors_of m) i = Some v \<and> v \<in> set (registry_of m))"
proof -
  let ?vs = "map (\<lambda>s. (fst s, vec_of_spec s)) metric_specs"
  have new: "AppMetrics_new P = Ok \<lparr>registry_of = map vec_of_spec metric_specs, vectors_of = ?vs\<rparr>"
    using register_specs_accepted [OF assms metric_specs_valid] metric_specs_distinct
    by (simp add: AppMetrics_new_def)
  have "\<exists>v. map_of ?vs i = Some v \<and> v \<in> vec_of_spec ` set metric_specs" for i
  proof -
    have "i \<in> fst ` set metric_specs" by (cases i) (simp_all add: metric_specs_def)
    then have "map_of ?vs i \<noteq> None" unfolding map_of_eq_None_iff by (simp add: image_image)
    then obtain v where v: "map_of ?vs i = Some v" by blast
    from map_of_SomeD [OF v] have "v \<in> vec_of_spec ` set metric_specs" by auto
    with v show ?thesis by blast
  qed
  with new metric_specs_distinct show ?thesis by (simp add: comp_def)
qed

definition doc_prometheus :: prometheus where
  "doc_prometheus =
     \<lparr>vec_new_ok = valid_vec, register_ok = (\<lambda>reg v. vec_name v \<notin> vec_name ` set reg)\<rparr>"

theorem AppMetrics_new_total_witness:
  "prometheus_accepts doc_prometheus \<and> (\<exists>m. AppMetrics_new doc_prometheus = Ok m)"
proof -
  have h: "prometheus_accepts doc_prometheus"
    by (simp add: prometheus_accepts_def doc_prometheus_def)
  from AppMetrics_new_total [OF h] h show ?thesis by blast
qed

text \<open>The HTTP middleware returns the inner response unchanged and accounts for it exactly once:
  one request under its network, method, endpoint and status, one 429 when the status is 429, one
  request of the client address when there is one, and nothing on the guards' gauges.\<close>

theorem track_http_accounts:
  assumes "run_next req log w = (Some resp, log1, w1)"
  shows "\<exists>log2. track_http extract_ip clock run_next req log w = (Some resp, log2, w1)
    \<and> (\<forall>ls. counter http_requests_total ls log2 = counter http_requests_total ls log1
         + (if ls = [network_from_path (req_path req), req_method req,
              endpoint_from_path (req_path req), dec_string (unat (resp_status resp))] then 1 else 0))
    \<and> (\<forall>ls. counter http_429_total ls log2 = counter http_429_total ls log1
         + (if resp_status resp = 429
              \<and> ls = [network_from_path (req_path req), endpoint_from_path (req_path req)] then 1 else 0))
    \<and> (\<forall>ls. counter http_requests_by_ip_total ls log2 = counter http_requests_by_ip_total ls log1
         + (case extract_ip req of None \<Rightarrow> 0
            | Some ip \<Rightarrow> if ls = [network_from_path (req_path req), ip] then 1 else 0))
    \<and> (\<forall>i ls. i \<in> {sse_connections, binary_connections, binary_inflight_requests} \<longrightarrow>
         level i ls log2 = level i ls log1)"
  using assms
  by (auto simp: track_http_def Let_def http_observe_def split: option.splits)

theorem track_http_accounts_witness:
  "\<exists>log2. track_http (\<lambda>_. Some ''10.0.0.7'') (\<lambda>w. w)
       (\<lambda>req log w. (Some (into_response (not_found ''unknown network: x'')), log, w + 5))
       \<lparr>req_method = ''GET'', req_path = ''/x/rpc'', req_body = []\<rparr> [] (3 :: nat)
       = (Some (into_response (not_found ''unknown network: x'')), log2, 8)
     \<and> counter http_requests_total [''x'', ''GET'', ''rpc'', ''404''] log2 = 1
     \<and> counter http_requests_by_ip_total [''x'', ''10.0.0.7''] log2 = 1"
proof -
  have n: "network_from_path ''/x/rpc'' = ''x''" and e: "endpoint_from_path ''/x/rpc'' = ''rpc''"
    by (simp_all add: network_from_path_def endpoint_from_path_def trim_start_matches_def)
  have d: "dec_string 404 = ''404''" by code_simp
  show ?thesis
    using track_http_accounts [where extract_ip = "\<lambda>_. Some ''10.0.0.7''" and clock = "\<lambda>w. w"
      and run_next = "\<lambda>req log w. (Some (into_response (not_found ''unknown network: x'')), log, w + 5)"
      and req = "\<lparr>req_method = ''GET'', req_path = ''/x/rpc'', req_body = []\<rparr>"
      and log = "[]" and w = "3 :: nat"
      and resp = "into_response (not_found ''unknown network: x'')" and ?log1.0 = "[]" and ?w1.0 = 8]
    by (force simp: n e d)
qed

end
