(* ===== verification/Event_Bus.thy ===== *)
theory Event_Bus
  imports Metrics
begin

text \<open>
  \<open>EventBus\<close> of \<open>src/state.rs\<close>: proxy-assigned event ids, the bounded backlog, the broadcast sender and
  the write-once ApiVersion cell. The broadcast channel is represented by the sequence of everything
  sent on it (\<open>bus_sent\<close>); what a receiver gets of it is third-party behaviour and enters the
  theorems on streams as a hypothesis. Ids are 64-bit words: \<open>fetch_add\<close> wraps.
\<close>

record EventEnvelope =
  ev_id :: u64
  ev_data :: json

record EventBus =
  bus_sent :: "EventEnvelope list"
  bus_capacity :: usize
  bus_backlog :: "EventEnvelope list"
  next_id :: u64
  backlog_limit :: usize
  api_version_cell :: "json option"
  bus_network :: string
  bus_metrics :: bool

text \<open>The bus that \<open>new\<close> returns.\<close>

definition fresh_bus :: "string \<Rightarrow> usize \<Rightarrow> usize \<Rightarrow> bool \<Rightarrow> EventBus" where
  "fresh_bus network limit capacity metrics =
     \<lparr>bus_sent = [],
      bus_capacity = max capacity 1,
      bus_backlog = [],
      next_id = 0,
      backlog_limit = max limit 1,
      api_version_cell = None,
      bus_network = network,
      bus_metrics = metrics\<rparr>"

text \<open>\<open>broadcast::channel\<close> is documented to panic for a capacity of zero or above \<open>usize::MAX / 2\<close>.\<close>

definition channel_panics :: "usize \<Rightarrow> bool" where
  "channel_panics capacity \<longleftrightarrow> capacity = 0 \<or> (- 1) div 2 < capacity"

definition EventBus_new :: "string \<Rightarrow> usize \<Rightarrow> usize \<Rightarrow> bool \<Rightarrow> mlog \<Rightarrow> (EventBus, string) result \<times> mlog" where
  "EventBus_new network limit capacity metrics log =
     (if channel_panics (max capacity 1) then (Err ''broadcast channel capacity'', log)
      else (let log = (if metrics then set_sse_backlog_size network 0 log else log)
            in (Ok (fresh_bus network limit capacity metrics), log)))"

definition push :: "json \<Rightarrow> EventBus \<Rightarrow> mlog \<Rightarrow> EventEnvelope \<times> EventBus \<times> mlog" where
  "push data bus log =
     (let i = next_id bus + 1;
          envelope = \<lparr>ev_id = i, ev_data = data\<rparr>;
          backlog = bus_backlog bus @ [envelope];
          over = unat (backlog_limit bus) < length backlog;
          backlog = (if over then tl backlog else backlog);
          log = (if over \<and> bus_metrics bus then increment_sse_backlog_dropped (bus_network bus) log else log);
          log = (if bus_metrics bus
                 then set_sse_backlog_size (bus_network bus) (word_of_nat (length backlog)) log else log)
      in (envelope,
          bus\<lparr>next_id := i, bus_backlog := backlog, bus_sent := bus_sent bus @ [envelope]\<rparr>,
          log))"

definition remember_api_version :: "json \<Rightarrow> EventBus \<Rightarrow> bool \<times> EventBus" where
  "remember_api_version data bus =
     (case api_version_cell bus of
        None \<Rightarrow> (True, bus\<lparr>api_version_cell := Some data\<rparr>)
      | Some _ \<Rightarrow> (False, bus))"

definition api_version :: "EventBus \<Rightarrow> json option" where
  "api_version bus = api_version_cell bus"

definition snapshot_from :: "EventBus \<Rightarrow> u64 \<Rightarrow> EventEnvelope list" where
  "snapshot_from bus start_from = filter (\<lambda>e. start_from \<le> ev_id e) (bus_backlog bus)"

text \<open>
  \<open>subscribe\<close>: a receiver starts at the current end of the channel; it is the number of values
  already sent.
\<close>

definition subscribe :: "EventBus \<Rightarrow> nat" where
  "subscribe bus = length (bus_sent bus)"

section \<open>The invariant\<close>

definition ev_nat :: "EventEnvelope \<Rightarrow> nat" where
  "ev_nat e = unat (ev_id e)"

text \<open>
  Every event sent carries its position as id, the counter is the number of events sent, and the
  backlog holds exactly the most recent \<open>backlog_limit\<close> of them.
\<close>

definition numbered :: "EventEnvelope list \<Rightarrow> bool" where
  "numbered es \<longleftrightarrow> (\<forall>i < length es. ev_nat (es ! i) = Suc i)"

definition bus_inv :: "EventBus \<Rightarrow> bool" where
  "bus_inv bus \<longleftrightarrow>
     numbered (bus_sent bus)
     \<and> length (bus_sent bus) = unat (next_id bus)
     \<and> bus_backlog bus = drop (length (bus_sent bus) - unat (backlog_limit bus)) (bus_sent bus)
     \<and> 1 \<le> unat (backlog_limit bus)"

lemma numbered_Nil [simp]: "numbered []"
  by (simp add: numbered_def)

lemma numbered_snoc [simp]: "numbered (es @ [e]) \<longleftrightarrow> numbered es \<and> ev_nat e = Suc (length es)"
  by (auto simp: numbered_def nth_append less_Suc_eq)

lemma numbered_map: "numbered es \<Longrightarrow> map ev_nat es = [1..<Suc (length es)]"
  by (rule nth_equalityI) (auto simp: numbered_def simp del: upt_Suc)

lemma bus_inv_backlog_length:
  "bus_inv bus \<Longrightarrow> length (bus_backlog bus) = min (unat (next_id bus)) (unat (backlog_limit bus))"
  by (auto simp: bus_inv_def)

lemma fresh_bus_inv: "bus_inv (fresh_bus network limit capacity metrics)"
  using unat_max_1 [of limit] by (simp add: fresh_bus_def bus_inv_def Let_def)

lemma unat_Suc_u64: "unat x + 1 < 2 ^ 64 \<Longrightarrow> unat (x + 1) = Suc (unat x)" for x :: u64
  by (simp add: unat_word_ariths)

lemma push_fields [simp]:
  "ev_id (fst (push data bus log)) = next_id bus + 1"
  "ev_data (fst (push data bus log)) = data"
  "next_id (fst (snd (push data bus log))) = next_id bus + 1"
  "bus_sent (fst (snd (push data bus log))) = bus_sent bus @ [\<lparr>ev_id = next_id bus + 1, ev_data = data\<rparr>]"
  "backlog_limit (fst (snd (push data bus log))) = backlog_limit bus"
  "bus_capacity (fst (snd (push data bus log))) = bus_capacity bus"
  "api_version_cell (fst (snd (push data bus log))) = api_version_cell bus"
  "bus_network (fst (snd (push data bus log))) = bus_network bus"
  "bus_metrics (fst (snd (push data bus log))) = bus_metrics bus"
  by (simp_all add: push_def Let_def)

lemma push_backlog:
  "bus_backlog (fst (snd (push data bus log))) =
     (let b = bus_backlog bus @ [\<lparr>ev_id = next_id bus + 1, ev_data = data\<rparr>]
      in if unat (backlog_limit bus) < length b then tl b else b)"
  by (simp add: push_def Let_def)

lemma drop_snoc_window:
  assumes "1 \<le> L"
  shows "(let b = drop (length xs - L) xs @ [x] in if L < length b then tl b else b) =
    drop (length (xs @ [x]) - L) (xs @ [x])"
proof (cases "L \<le> length xs")
  case True
  with assms obtain y ys where y: "drop (length xs - L) xs = y # ys"
    by (cases "drop (length xs - L) xs") auto
  then have "ys = drop (Suc (length xs - L)) xs" by (metis drop_Suc tl_drop list.sel(3))
  with True y assms show ?thesis by (simp add: Suc_diff_le)
next
  case False
  then show ?thesis by simp
qed

lemma push_inv:
  assumes "bus_inv bus" and "unat (next_id bus) + 1 < 2 ^ 64"
  shows "bus_inv (fst (snd (push data bus log)))"
  using assms drop_snoc_window [of "unat (backlog_limit bus)" "bus_sent bus"]
  by (simp add: bus_inv_def push_backlog ev_nat_def unat_Suc_u64)

lemma remember_api_version_inv: "bus_inv bus \<Longrightarrow> bus_inv (snd (remember_api_version data bus))"
  by (simp add: remember_api_version_def bus_inv_def split: option.splits)

lemma log_ok_push [simp]: "log_ok (snd (snd (push data bus log))) \<longleftrightarrow> log_ok log"
  by (simp add: push_def Let_def)

lemma log_ok_EventBus_new [simp]: "log_ok (snd (EventBus_new network l c m log)) \<longleftrightarrow> log_ok log"
  by (simp add: EventBus_new_def Let_def)

lemma EventBus_new_Ok:
  "fst (EventBus_new network l c m log) = Ok bus \<longleftrightarrow> \<not> channel_panics (max c 1) \<and> bus = fresh_bus network l c m"
  by (auto simp: EventBus_new_def Let_def)

text \<open>Every capacity between one and \<open>2 ^ 63 - 1\<close> has a channel.\<close>

lemma channel_panics_iff: "channel_panics (max c 1) \<longleftrightarrow> 2 ^ 63 \<le> unat c"
proof -
  have "unat ((- 1) div 2 :: usize) = 2 ^ 63 - 1"
    by (simp add: unat_div_distrib unsigned_minus_1_eq_mask mask_eq_exp_minus_1)
  then show ?thesis by (auto simp: channel_panics_def max_def word_less_nat_alt word_le_nat_alt)
qed

section \<open>The interface the streams rely on\<close>

text \<open>
  An event store numbers its history from 1 without gaps and can replay a suffix of it. The facts a
  stream needs follow from these laws alone.
\<close>

locale event_store =
  fixes ok :: "'b \<Rightarrow> bool"
    and hist :: "'b \<Rightarrow> EventEnvelope list"
    and kept :: "'b \<Rightarrow> EventEnvelope list"
    and snap :: "'b \<Rightarrow> u64 \<Rightarrow> EventEnvelope list"
  assumes hist_numbered: "ok b \<Longrightarrow> numbered (hist b)"
    and kept_suffix: "ok b \<Longrightarrow> \<exists>n. kept b = drop n (hist b)"
    and snap_kept: "snap b s = filter (\<lambda>e. s \<le> ev_id e) (kept b)"
begin

lemma kept_ids:
  assumes "ok b"
  shows "map ev_nat (kept b) = [Suc (length (hist b) - length (kept b))..<Suc (length (hist b))]"
proof -
  obtain n where n: "kept b = drop n (hist b)" using kept_suffix [OF assms] by blast
  have "map ev_nat (kept b) = drop n [1..<Suc (length (hist b))]"
    unfolding n drop_map [symmetric] numbered_map [OF hist_numbered [OF assms]] ..
  also have "\<dots> = [Suc (length (hist b) - length (kept b))..<Suc (length (hist b))]"
    by (cases "n \<le> length (hist b)") (auto simp: n simp del: upt_Suc)
  finally show ?thesis .
qed

lemma filter_ge_upt: "filter (\<lambda>i. s \<le> i) [m..<n] = [max s m..<n]"
  by (induction n) auto

lemma snap_ids:
  assumes "ok b"
  shows "map ev_nat (snap b s) =
    [max (unat s) (Suc (length (hist b) - length (kept b)))..<Suc (length (hist b))]"
proof -
  have "map ev_nat (snap b s) = filter (\<lambda>i. unat s \<le> i) (map ev_nat (kept b))"
    by (simp add: snap_kept filter_map comp_def ev_nat_def word_le_nat_alt)
  then show ?thesis by (simp only: kept_ids [OF assms] filter_ge_upt)
qed

lemma snap_last:
  assumes "ok b" and "snap b s \<noteq> []"
  shows "ev_nat (last (snap b s)) = length (hist b)"
proof -
  let ?lo = "max (unat s) (Suc (length (hist b) - length (kept b)))"
  have "last (map ev_nat (snap b s)) = last [?lo..<Suc (length (hist b))]"
    by (simp only: snap_ids [OF assms(1)])
  then have "ev_nat (last (snap b s)) = last [?lo..<Suc (length (hist b))]"
    using assms(2) by (simp add: last_map del: upt_Suc)
  moreover have "[?lo..<Suc (length (hist b))] \<noteq> []"
    using assms by (metis map_is_Nil_conv snap_ids)
  ultimately show ?thesis by (simp split: if_splits)
qed

end

interpretation bus: event_store bus_inv bus_sent bus_backlog snapshot_from
  by unfold_locales (auto simp: snapshot_from_def bus_inv_def)

section \<open>The bus as a numbered history\<close>

fun push_all :: "json list \<Rightarrow> EventBus \<Rightarrow> mlog \<Rightarrow> EventBus \<times> mlog" where
  "push_all [] bus log = (bus, log)"
| "push_all (d # ds) bus log = (case push d bus log of (e, bus', log') \<Rightarrow> push_all ds bus' log')"

text \<open>The abstract view: the events \<open>ds\<close> numbered from \<open>n + 1\<close>.\<close>

fun envelopes :: "nat \<Rightarrow> json list \<Rightarrow> EventEnvelope list" where
  "envelopes n [] = []"
| "envelopes n (d # ds) = \<lparr>ev_id = word_of_nat (Suc n), ev_data = d\<rparr> # envelopes (Suc n) ds"

lemma length_envelopes [simp]: "length (envelopes n ds) = length ds"
  by (induction ds arbitrary: n) auto

lemma map_ev_data_envelopes [simp]: "map ev_data (envelopes n ds) = ds"
  by (induction ds arbitrary: n) auto

lemma push_all_spec:
  assumes "bus_inv bus" and "unat (next_id bus) + length ds < 2 ^ 64"
  shows "bus_inv (fst (push_all ds bus log))
    \<and> bus_sent (fst (push_all ds bus log)) = bus_sent bus @ envelopes (unat (next_id bus)) ds
    \<and> unat (next_id (fst (push_all ds bus log))) = unat (next_id bus) + length ds
    \<and> backlog_limit (fst (push_all ds bus log)) = backlog_limit bus
    \<and> bus_network (fst (push_all ds bus log)) = bus_network bus
    \<and> bus_metrics (fst (push_all ds bus log)) = bus_metrics bus
    \<and> api_version_cell (fst (push_all ds bus log)) = api_version_cell bus"
  using assms
proof (induction ds arbitrary: bus log)
  case Nil
  then show ?case by simp
next
  case (Cons d ds)
  let ?b = "fst (snd (push d bus log))" and ?l = "snd (snd (push d bus log))"
  have n: "unat (next_id bus + 1) = Suc (unat (next_id bus))"
    using Cons.prems(2) by (intro unat_Suc_u64) simp
  have inv: "bus_inv ?b" using Cons.prems by (intro push_inv) auto
  have eq: "push_all (d # ds) bus log = push_all ds ?b ?l"
    by (simp add: case_prod_unfold)
  show ?case
    using Cons.IH [OF inv, of ?l] Cons.prems(2) unfolding eq by (simp add: n add.commute [of 1 "next_id bus"])
qed

lemma bus_backlog_window:
  "bus_inv bus \<Longrightarrow> bus_backlog bus = drop (length (bus_sent bus) - unat (backlog_limit bus)) (bus_sent bus)"
  by (simp add: bus_inv_def)

lemma push_dropped:
  assumes "bus_inv bus" and "bus_metrics bus"
  shows "counter sse_backlog_dropped_total [bus_network bus] (snd (snd (push d bus log))) =
    counter sse_backlog_dropped_total [bus_network bus] log
    + (if unat (backlog_limit bus) \<le> unat (next_id bus) then 1 else 0)"
  using assms bus_inv_backlog_length [OF assms(1)]
  by (simp add: push_def Let_def increment_sse_backlog_dropped_def set_sse_backlog_size_def)

lemma push_all_dropped:
  assumes "bus_inv bus" and "bus_metrics bus" and "unat (next_id bus) + length ds < 2 ^ 64"
  shows "counter sse_backlog_dropped_total [bus_network bus] (snd (push_all ds bus log))
      + (unat (next_id bus) - unat (backlog_limit bus)) =
    counter sse_backlog_dropped_total [bus_network bus] log
      + (unat (next_id bus) + length ds - unat (backlog_limit bus))"
  using assms
proof (induction ds arbitrary: bus log)
  case Nil
  then show ?case by simp
next
  case (Cons d ds)
  let ?b = "fst (snd (push d bus log))" and ?l = "snd (snd (push d bus log))"
  have n: "unat (next_id bus + 1) = Suc (unat (next_id bus))"
    using Cons.prems(3) by (intro unat_Suc_u64) simp
  have inv: "bus_inv ?b" using Cons.prems by (intro push_inv) auto
  have eq: "push_all (d # ds) bus log = push_all ds ?b ?l"
    by (simp add: case_prod_unfold)
  show ?case
    using Cons.IH [OF inv, of ?l] Cons.prems push_dropped [OF Cons.prems(1,2), of d log]
    unfolding eq by (simp add: n split: if_splits)
qed

section \<open>Properties\<close>

text \<open>C5: the event bus is a numbered history with a bounded window. Pushing the events \<open>ds\<close> into a new
  bus assigns them the ids 1, 2, 3 and so on in order, sends them in that order, and keeps exactly
  the last \<open>max limit 1\<close> of them; a snapshot from \<open>s\<close> returns those of the kept events whose id is at
  least \<open>s\<close> (inclusive).\<close>

theorem event_bus_refines_history:
  assumes "EventBus_new network limit capacity metrics log = (Ok new, log0)" and "length ds < 2 ^ 64"
  shows "let bus = fst (push_all ds new log')
    in bus_sent bus = envelopes 0 ds
       \<and> bus_backlog bus = drop (length ds - unat (max limit 1)) (envelopes 0 ds)
       \<and> snapshot_from bus s =
           filter (\<lambda>e. s \<le> ev_id e) (drop (length ds - unat (max limit 1)) (envelopes 0 ds))"
proof -
  have b: "new = fresh_bus network limit capacity metrics"
    using assms(1) EventBus_new_Ok [of network limit capacity metrics log new] by simp
  then have new: "bus_sent new = []" "next_id new = 0" "backlog_limit new = max limit 1" and inv: "bus_inv new"
    using fresh_bus_inv by (simp_all add: fresh_bus_def)
  show ?thesis
    using push_all_spec [OF inv, of ds log'] assms(2) bus_backlog_window [of "fst (push_all ds new log')"]
    by (simp add: new snapshot_from_def Let_def)
qed

text \<open>A new bus of a small capacity.\<close>

lemma small_bus:
  assumes "unat capacity < 2 ^ 63"
  obtains log0 where "EventBus_new network limit capacity metrics log = (Ok (fresh_bus network limit capacity metrics), log0)"
proof -
  have "\<not> channel_panics (max capacity 1)" using assms by (simp add: channel_panics_iff)
  then show thesis by (intro that) (simp add: EventBus_new_def Let_def)
qed

theorem event_bus_refines_history_witness:
  "let bus = fst (push_all [JInt 0, JInt 1, JInt 2, JInt 3, JInt 4] (fresh_bus ''test'' 3 16 False) [])
   in map ev_id (snapshot_from bus 1) = [3, 4, 5] \<and> map ev_data (snapshot_from bus 5) = [JInt 4]"
proof -
  obtain log0 where b: "EventBus_new ''test'' 3 16 False [] = (Ok (fresh_bus ''test'' 3 16 False), log0)"
    by (rule small_bus [of 16]) simp
  note history = event_bus_refines_history [OF b, where ds = "[JInt 0, JInt 1, JInt 2, JInt 3, JInt 4]" and log' = "[]"]
  from history [where s = 1] history [where s = 5] show ?thesis by (simp add: Let_def max_def word_le_nat_alt)
qed

text \<open>Every push keeps the bus invariant (positions as ids, counter equal to the number of events
  sent, backlog equal to the last \<open>backlog_limit\<close> events) as long as the 64-bit counter does not wrap,
  so the backlog never exceeds its limit; storing the ApiVersion keeps it too.\<close>

theorem event_bus_invariant:
  assumes "bus_inv bus" and "unat (next_id bus) + 1 < 2 ^ 64"
  shows "bus_inv (fst (snd (push data bus log)))
    \<and> bus_inv (snd (remember_api_version data bus))
    \<and> length (bus_backlog (fst (snd (push data bus log)))) \<le> unat (backlog_limit bus)
    \<and> ev_nat (fst (push data bus log)) = Suc (length (bus_sent bus))"
proof -
  note inv = push_inv [OF assms, of data log]
  have "length (bus_backlog (fst (snd (push data bus log)))) \<le> unat (backlog_limit bus)"
    using bus_inv_backlog_length [OF inv] by simp
  moreover have "ev_nat (fst (push data bus log)) = Suc (length (bus_sent bus))"
    using assms by (simp add: ev_nat_def unat_Suc_u64 bus_inv_def)
  ultimately show ?thesis using inv remember_api_version_inv [OF assms(1)] by blast
qed

theorem event_bus_invariant_witness:
  "let bus = fresh_bus ''test'' 0 0 True
   in bus_inv (fst (snd (push JNull bus [])))
      \<and> length (bus_backlog (fst (snd (push JNull bus [])))) \<le> 1"
proof -
  let ?bus = "fresh_bus ''test'' 0 0 True"
  have i: "bus_inv ?bus" by (rule fresh_bus_inv)
  have n: "unat (next_id ?bus) + 1 < 2 ^ 64" by (simp add: fresh_bus_def Let_def)
  have l: "unat (backlog_limit ?bus) = 1" by (simp add: fresh_bus_def Let_def max_def)
  from event_bus_invariant [OF i n, of JNull "[]"] show ?thesis by (simp add: Let_def l)
qed

text \<open>The dropped-events counter is exact: after pushing \<open>ds\<close> into a new bus it has counted one drop
  for every event beyond the limit.\<close>

theorem backlog_dropped_exact:
  assumes "EventBus_new network limit capacity True log = (Ok new, log0)" and "length ds < 2 ^ 64"
  shows "counter sse_backlog_dropped_total [network] (snd (push_all ds new [])) =
    length ds - unat (max limit 1)"
proof -
  have b: "new = fresh_bus network limit capacity True"
    using assms(1) EventBus_new_Ok [of network limit capacity True log new] by simp
  then have new: "next_id new = 0" "backlog_limit new = max limit 1" "bus_network new = network" "bus_metrics new"
    and inv: "bus_inv new" using fresh_bus_inv by (simp_all add: fresh_bus_def)
  show ?thesis using push_all_dropped [OF inv, of ds "[]"] assms(2) by (simp add: new)
qed

theorem backlog_dropped_exact_witness:
  "counter sse_backlog_dropped_total [''test'']
      (snd (push_all [JNull, JNull, JNull, JNull, JNull] (fresh_bus ''test'' 3 16 True) [])) = 2"
proof -
  obtain log0 where b: "EventBus_new ''test'' 3 16 True [] = (Ok (fresh_bus ''test'' 3 16 True), log0)"
    by (rule small_bus [of 16]) simp
  from backlog_dropped_exact [OF b, of "[JNull, JNull, JNull, JNull, JNull]"] show ?thesis
    by (simp add: max_def word_le_nat_alt)
qed

text \<open>The ApiVersion cell is written once: the first value stored is the one every later reader
  gets, and storing again reports failure and changes nothing.\<close>

theorem api_version_write_once:
  "(api_version bus = None \<longrightarrow>
      remember_api_version v bus = (True, bus\<lparr>api_version_cell := Some v\<rparr>)
      \<and> api_version (snd (remember_api_version v bus)) = Some v)
   \<and> (api_version bus = Some u \<longrightarrow>
      remember_api_version v bus = (False, bus)
      \<and> api_version (fst (snd (push d bus log))) = Some u)"
  by (auto simp: api_version_def remember_api_version_def)

theorem api_version_write_once_witness:
  "let bus = snd (remember_api_version (JInt 1) (fresh_bus ''test'' 1 1 False))
   in remember_api_version (JInt 2) bus = (False, bus) \<and> api_version bus = Some (JInt 1)"
proof -
  let ?new = "fresh_bus ''test'' 1 1 False"
  have n: "api_version ?new = None" by (simp add: api_version_def fresh_bus_def Let_def)
  let ?bus = "snd (remember_api_version (JInt 1) ?new)"
  have b: "api_version ?bus = Some (JInt 1)"
    using api_version_write_once [of ?new "JInt 1"] n by blast
  then have "remember_api_version (JInt 2) ?bus = (False, ?bus)"
    using api_version_write_once [of ?bus "JInt 2" "JInt 1"] by blast
  with b show ?thesis by (simp add: Let_def)
qed

end
