(* ===== verification/Api_Version_Wait.thy ===== *)
theory Api_Version_Wait
  imports Event_Bus
begin

text \<open>
  The hand-over of the ApiVersion between the listener task (\<open>remember_api_version\<close>) and a client task
  (\<open>wait_for_api_version\<close>) of \<open>src/state.rs\<close>, step by step. The listener stores the value and then calls
  \<open>notify_waiters\<close>; the client creates the \<open>notified\<close> future, checks the cell, and sleeps on the future
  when the cell is empty. As tokio documents, a \<open>notified\<close> future gets the wake-ups sent after its
  creation. Any interleaving of the steps is possible.
\<close>

datatype setter_pc = Not_called | Stored | Notified_waiters

datatype waiter_pc = Start | Created | Sleeping | Returned json

record wait_state =
  cell :: "json option"
  setter :: setter_pc
  waiter :: waiter_pc
  woken :: bool

definition wait_init :: "wait_state \<Rightarrow> bool" where
  "wait_init s \<longleftrightarrow> waiter s = Start \<and> (setter s = Not_called \<longleftrightarrow> cell s = None)"

text \<open>The two steps of \<open>remember_api_version\<close> when the cell is empty.\<close>

inductive setter_step :: "wait_state \<Rightarrow> wait_state \<Rightarrow> bool" where
  store: "setter s = Not_called \<Longrightarrow> cell s = None \<Longrightarrow>
    setter_step s (s\<lparr>cell := Some v, setter := Stored\<rparr>)"
| notify: "setter s = Stored \<Longrightarrow>
    setter_step s (s\<lparr>setter := Notified_waiters,
      woken := (woken s \<or> waiter s = Created \<or> waiter s = Sleeping)\<rparr>)"

text \<open>The steps of the loop of \<open>wait_for_api_version\<close>.\<close>

inductive waiter_step :: "wait_state \<Rightarrow> wait_state \<Rightarrow> bool" where
  create: "waiter s = Start \<Longrightarrow> waiter_step s (s\<lparr>waiter := Created, woken := False\<rparr>)"
| check_some: "waiter s = Created \<Longrightarrow> cell s = Some v \<Longrightarrow> waiter_step s (s\<lparr>waiter := Returned v\<rparr>)"
| check_none: "waiter s = Created \<Longrightarrow> cell s = None \<Longrightarrow> waiter_step s (s\<lparr>waiter := Sleeping\<rparr>)"
| resume: "waiter s = Sleeping \<Longrightarrow> woken s \<Longrightarrow> waiter_step s (s\<lparr>waiter := Start\<rparr>)"

definition wait_step :: "wait_state \<Rightarrow> wait_state \<Rightarrow> bool" where
  "wait_step s t \<longleftrightarrow> setter_step s t \<or> waiter_step s t"

inductive_cases setter_stepE: "setter_step s t"
inductive_cases waiter_stepE: "waiter_step s t"

text \<open>No wake-up is lost: a client that sleeps after the notification has been woken.\<close>

definition wait_inv :: "wait_state \<Rightarrow> bool" where
  "wait_inv s \<longleftrightarrow>
     (setter s = Not_called \<longleftrightarrow> cell s = None)
     \<and> (waiter s = Sleeping \<and> setter s = Notified_waiters \<longrightarrow> woken s)
     \<and> (\<forall>v. waiter s = Returned v \<longrightarrow> cell s = Some v)"

interpretation wait: invariant_system wait_init wait_step wait_inv
proof unfold_locales
  fix s assume "wait_init s"
  then show "wait_inv s" by (simp add: wait_init_def wait_inv_def)
next
  fix s t assume "wait_inv s" and "wait_step s t"
  then show "wait_inv t"
    by (auto simp: wait_step_def wait_inv_def elim!: setter_stepE waiter_stepE)
qed

text \<open>How far a client is from returning once the value is there.\<close>

fun waiter_rank :: "waiter_pc \<Rightarrow> nat" where
  "waiter_rank Sleeping = 3"
| "waiter_rank Start = 2"
| "waiter_rank Created = 1"
| "waiter_rank (Returned _) = 0"

section \<open>Properties\<close>

text \<open>C25: a client never waits for an ApiVersion that is already there. In every reachable state after
  the notification, a client that has not returned can take a step, each of its steps brings it closer
  to returning (so it returns after at most three of its own steps), and what it returns is the value
  stored in the cell.\<close>

theorem wait_for_api_version_returns:
  assumes "reach wait_init wait_step s" and "setter s = Notified_waiters"
  shows "((\<exists>v. waiter s = Returned v) \<or> (\<exists>t. waiter_step s t))
    \<and> (\<forall>t. waiter_step s t \<longrightarrow> waiter_rank (waiter t) < waiter_rank (waiter s) \<and> setter t = Notified_waiters)
    \<and> (\<forall>v. waiter s = Returned v \<longrightarrow> cell s = Some v)"
proof -
  have inv: "wait_inv s" using assms(1) by (rule wait.inv_reach)
  then obtain v where v: "cell s = Some v" using assms(2) by (cases "cell s") (auto simp: wait_inv_def)
  have "(\<exists>v. waiter s = Returned v) \<or> (\<exists>t. waiter_step s t)"
  proof (cases "waiter s")
    case Sleeping
    with inv assms(2) have "woken s" by (simp add: wait_inv_def)
    with Sleeping show ?thesis by (blast intro: waiter_step.resume)
  qed (use v in \<open>blast intro: waiter_step.intros\<close>)+
  moreover have "waiter_rank (waiter t) < waiter_rank (waiter s) \<and> setter t = Notified_waiters"
    if "waiter_step s t" for t
    using that v assms(2) by (auto elim!: waiter_stepE)
  ultimately show ?thesis using inv by (simp add: wait_inv_def)
qed

theorem wait_for_api_version_returns_witness:
  "let s = \<lparr>cell = Some JNull, setter = Notified_waiters, waiter = Sleeping, woken = True\<rparr>
   in reach wait_init wait_step s \<and> (\<exists>t. waiter_step s t)"
proof -
  let ?s0 = "\<lparr>cell = None, setter = Not_called, waiter = Start, woken = False\<rparr>"
  let ?s1 = "?s0\<lparr>waiter := Created, woken := False\<rparr>"
  let ?s2 = "?s1\<lparr>waiter := Sleeping\<rparr>"
  let ?s3 = "?s2\<lparr>cell := Some JNull, setter := Stored\<rparr>"
  let ?s4 = "?s3\<lparr>setter := Notified_waiters, woken := (woken ?s3 \<or> waiter ?s3 = Created \<or> waiter ?s3 = Sleeping)\<rparr>"
  have "reach wait_init wait_step ?s0" by (rule reach_init) (simp add: wait_init_def)
  moreover have "wait_step ?s0 ?s1" unfolding wait_step_def by (rule disjI2, rule create) simp
  moreover have "wait_step ?s1 ?s2" unfolding wait_step_def by (rule disjI2, rule check_none) simp_all
  moreover have "wait_step ?s2 ?s3" unfolding wait_step_def by (rule disjI1, rule store) simp_all
  moreover have "wait_step ?s3 ?s4" unfolding wait_step_def by (rule disjI1, rule notify) simp
  ultimately have r: "reach wait_init wait_step ?s4" by (blast intro: reach_step)
  from wait_for_api_version_returns [OF r] r show ?thesis by simp
qed

end
