(* ===== verification/Sse_Listener.thy ===== *)
theory Sse_Listener
  imports Event_Bus
begin

text \<open>
  \<open>src/sse.rs\<close>: the listener task of a network. It resumes from the id stored in Redis, connects to the
  upstream SSE endpoint, feeds the event bus, stores the last id seen, and reconnects for ever.
  Redis, the SDK's listener and its serialisation are parameters (\<open>sse_env\<close>) over a world \<open>'w\<close>. One
  round of the loop is \<open>listener_round\<close>; \<open>listener_rounds n\<close> is the state after \<open>n\<close> rounds, which is
  every state the endless loop goes through.
\<close>

section \<open>The upstream\<close>

datatype 'd SseEvent = ApiVersion 'd | OtherEvent 'd

record 'd SseEnvelope =
  up_id :: "u64 option"
  up_data :: "'d SseEvent"

text \<open>
  \<open>listen endpoint start_from\<close> is \<open>None\<close> when the listener fails to start; otherwise the items of the
  stream up to its end, where \<open>None\<close> is an error item.
\<close>

record ('w, 'd) sse_env =
  redis_open :: "string \<Rightarrow> bool"
  redis_connect :: "'w \<Rightarrow> bool \<times> 'w"
  redis_get :: "string \<Rightarrow> 'w \<Rightarrow> u64 option option \<times> 'w"
  redis_set :: "string \<Rightarrow> u64 \<Rightarrow> 'w \<Rightarrow> bool \<times> 'w"
  config_build :: "string \<Rightarrow> string option \<Rightarrow> bool"
  listen :: "string \<Rightarrow> string option \<Rightarrow> 'w \<Rightarrow> 'd SseEnvelope option list option \<times> 'w"
  to_value :: "'d SseEvent \<Rightarrow> json option"
  sse_clock :: "'w \<Rightarrow> nat"

section \<open>The task\<close>

text \<open>
  \<open>ls_writes\<close> records the ids written to Redis and \<open>ls_starts\<close> the \<open>start_from\<close> of each connection
  attempt; the other fields are the variables of the task and what it shares.
\<close>

record listener_state =
  ls_start_from :: "u64 option"
  ls_redis_conn :: bool
  ls_first_connect :: bool
  ls_bus :: EventBus
  ls_log :: mlog
  ls_writes :: "u64 list"
  ls_starts :: "u64 option list"

definition redis_key :: "string \<Rightarrow> string" where
  "redis_key network = ''sse_last_id:'' @ network"

definition connect_redis :: "('w, 'd) sse_env \<Rightarrow> 'w \<Rightarrow> bool \<times> 'w" where
  "connect_redis E w = redis_connect E w"

definition load_last_id :: "('w, 'd) sse_env \<Rightarrow> string \<Rightarrow> 'w \<Rightarrow> u64 option \<times> 'w" where
  "load_last_id E key w =
     (case redis_get E key w of
        (Some i, w') \<Rightarrow> (i, w')
      | (None, w') \<Rightarrow> (None, w'))"

definition sse_to_value :: "('w, 'd) sse_env \<Rightarrow> 'd SseEvent \<Rightarrow> json option" where
  "sse_to_value E event = to_value E event"

text \<open>Remembering the id of an event, in the variable and in Redis (lines 81 to 98).\<close>

definition store_id ::
  "('w, 'd) sse_env \<Rightarrow> bool \<Rightarrow> string \<Rightarrow> u64 \<Rightarrow> listener_state \<Rightarrow> 'w \<Rightarrow> listener_state \<times> 'w" where
  "store_id E client network i st w =
     (let st = st\<lparr>ls_start_from := Some i\<rparr>
      in if \<not> client then (st, w)
         else let (conn, w) = (if ls_redis_conn st then (True, w) else connect_redis E w);
                  st = st\<lparr>ls_redis_conn := conn\<rparr>
              in if \<not> conn then (st, w)
                 else case redis_set E (redis_key network) i w of
                        (False, w) \<Rightarrow> (st\<lparr>ls_redis_conn := False\<rparr>, w)
                      | (True, w) \<Rightarrow> (st\<lparr>ls_writes := ls_writes st @ [i]\<rparr>, w))"

text \<open>One item of the stream that is not an error (lines 79 to 115).\<close>

definition ingest ::
  "('w, 'd) sse_env \<Rightarrow> bool \<Rightarrow> string \<Rightarrow> nat \<Rightarrow> 'd SseEnvelope \<Rightarrow> bool \<times> listener_state \<times> 'w
     \<Rightarrow> bool \<times> listener_state \<times> 'w" where
  "ingest E client network connection_start envelope sw =
     (case sw of (saw_api_version, st, w) \<Rightarrow>
        (let st = st\<lparr>ls_log := increment_sse_ingest network (ls_log st)\<rparr>;
             (st, w) = (case up_id envelope of
                          Some i \<Rightarrow> store_id E client network i st w
                        | None \<Rightarrow> (st, w))
         in case up_data envelope of
              ApiVersion _ \<Rightarrow>
                (let st = (if saw_api_version then st
                           else st\<lparr>ls_log := observe_sse_time_to_first_api_version network
                                     (sse_clock E w - connection_start) (ls_log st)\<rparr>);
                     st = (case sse_to_value E (up_data envelope) of
                             Some v \<Rightarrow> st\<lparr>ls_bus := snd (remember_api_version v (ls_bus st))\<rparr>
                           | None \<Rightarrow> st)
                 in (True, st, w))
            | OtherEvent _ \<Rightarrow>
                (case sse_to_value E (up_data envelope) of
                   Some v \<Rightarrow>
                     (let (_, bus, log) = push v (ls_bus st) (ls_log st)
                      in (saw_api_version, st\<lparr>ls_bus := bus, ls_log := log\<rparr>, w))
                 | None \<Rightarrow> (saw_api_version, st, w))))"

text \<open>The inner loop: the items up to the end of the stream or the first error.\<close>

fun ingest_stream ::
  "('w, 'd) sse_env \<Rightarrow> bool \<Rightarrow> string \<Rightarrow> nat \<Rightarrow> 'd SseEnvelope option list \<Rightarrow> bool \<times> listener_state \<times> 'w
     \<Rightarrow> bool \<times> listener_state \<times> 'w" where
  "ingest_stream E client network t0 [] sw = sw"
| "ingest_stream E client network t0 (None # items) sw = sw"
| "ingest_stream E client network t0 (Some envelope # items) sw =
     ingest_stream E client network t0 items (ingest E client network t0 envelope sw)"

text \<open>One round of the outer loop; \<open>None\<close> when the task returns because the configuration is refused.\<close>

definition listener_round ::
  "('w, 'd) sse_env \<Rightarrow> bool \<Rightarrow> string \<Rightarrow> string \<Rightarrow> listener_state \<times> 'w \<Rightarrow> (listener_state \<times> 'w) option" where
  "listener_round E client network endpoint sw =
     (case sw of (st, w) \<Rightarrow>
        (let st = (if ls_first_connect st then st
                   else st\<lparr>ls_log := increment_sse_reconnect network (ls_log st)\<rparr>);
             st = st\<lparr>ls_first_connect := False\<rparr>;
             start = map_option (\<lambda>i. dec_string (unat i)) (ls_start_from st)
         in if \<not> config_build E endpoint start then None
            else let st = st\<lparr>ls_starts := ls_starts st @ [ls_start_from st]\<rparr>
                 in case listen E endpoint start w of
                      (Some items, w) \<Rightarrow>
                        (let t0 = sse_clock E w;
                             (saw, st, w) = ingest_stream E client network t0 items (False, st, w)
                         in Some (st, w))
                    | (None, w) \<Rightarrow> Some (st, w)))"

fun listener_rounds ::
  "('w, 'd) sse_env \<Rightarrow> bool \<Rightarrow> string \<Rightarrow> string \<Rightarrow> nat \<Rightarrow> listener_state \<times> 'w \<Rightarrow> (listener_state \<times> 'w) option" where
  "listener_rounds E client network endpoint 0 sw = Some sw"
| "listener_rounds E client network endpoint (Suc n) sw =
     Option.bind (listener_round E client network endpoint sw) (listener_rounds E client network endpoint n)"

text \<open>The prologue of the task: open Redis and read the resume point.\<close>

definition listener_init ::
  "('w, 'd) sse_env \<Rightarrow> string option \<Rightarrow> string \<Rightarrow> EventBus \<Rightarrow> mlog \<Rightarrow> 'w \<Rightarrow> bool \<times> listener_state \<times> 'w" where
  "listener_init E redis_url network bus log w =
     (let url = (case redis_url of Some u \<Rightarrow> u | None \<Rightarrow> ''redis://127.0.0.1/'');
          client = redis_open E url;
          (conn, w) = (if client then connect_redis E w else (False, w));
          (start, w) = (if conn then load_last_id E (redis_key network) w else (None, w))
      in (client,
          \<lparr>ls_start_from = start, ls_redis_conn = conn, ls_first_connect = True, ls_bus = bus,
           ls_log = log, ls_writes = [], ls_starts = []\<rparr>, w))"

definition spawn_listener ::
  "('w, 'd) sse_env \<Rightarrow> string option \<Rightarrow> string \<Rightarrow> string \<Rightarrow> EventBus \<Rightarrow> mlog \<Rightarrow> 'w \<Rightarrow> nat
     \<Rightarrow> (listener_state \<times> 'w) option" where
  "spawn_listener E redis_url network endpoint bus log w n =
     (case listener_init E redis_url network bus log w of (client, st, w) \<Rightarrow>
        listener_rounds E client network endpoint n (st, w))"

section \<open>What a stream amounts to\<close>

text \<open>The items before the first error.\<close>

fun good_items :: "'d SseEnvelope option list \<Rightarrow> 'd SseEnvelope list" where
  "good_items [] = []"
| "good_items (None # items) = []"
| "good_items (Some e # items) = e # good_items items"

text \<open>The values of the events to push, in order.\<close>

fun pushed :: "('w, 'd) sse_env \<Rightarrow> 'd SseEnvelope list \<Rightarrow> json list" where
  "pushed E [] = []"
| "pushed E (e # es) =
     (case up_data e of
        ApiVersion _ \<Rightarrow> pushed E es
      | OtherEvent d \<Rightarrow> (case to_value E (OtherEvent d) of Some v \<Rightarrow> v # pushed E es | None \<Rightarrow> pushed E es))"

fun last_seen :: "'d SseEnvelope list \<Rightarrow> u64 option \<Rightarrow> u64 option" where
  "last_seen [] prev = prev"
| "last_seen (e # es) prev = last_seen es (case up_id e of Some i \<Rightarrow> Some i | None \<Rightarrow> prev)"

fun first_api :: "('w, 'd) sse_env \<Rightarrow> 'd SseEnvelope list \<Rightarrow> json option" where
  "first_api E [] = None"
| "first_api E (e # es) =
     (case up_data e of
        ApiVersion d \<Rightarrow> (case to_value E (ApiVersion d) of Some v \<Rightarrow> Some v | None \<Rightarrow> first_api E es)
      | OtherEvent _ \<Rightarrow> first_api E es)"

definition bus_after :: "('w, 'd) sse_env \<Rightarrow> 'd SseEnvelope \<Rightarrow> EventBus \<Rightarrow> EventBus" where
  "bus_after E e bus =
     (case up_data e of
        ApiVersion d \<Rightarrow>
          (case to_value E (ApiVersion d) of Some v \<Rightarrow> snd (remember_api_version v bus) | None \<Rightarrow> bus)
      | OtherEvent d \<Rightarrow>
          (case to_value E (OtherEvent d) of Some v \<Rightarrow> fst (snd (push v bus [])) | None \<Rightarrow> bus))"

lemma push_bus_log: "fst (snd (push v bus log)) = fst (snd (push v bus []))"
  by (simp add: push_def Let_def)

lemma store_id_frame [simp]:
  "ls_start_from (fst (store_id E client network i st w)) = Some i"
  "ls_bus (fst (store_id E client network i st w)) = ls_bus st"
  "ls_log (fst (store_id E client network i st w)) = ls_log st"
  "ls_starts (fst (store_id E client network i st w)) = ls_starts st"
  "ls_first_connect (fst (store_id E client network i st w)) = ls_first_connect st"
  by (simp_all add: store_id_def Let_def case_prod_unfold split: bool.splits)

lemma ingest_frame:
  "ls_start_from (fst (snd (ingest E client network t0 e (saw, st, w)))) =
     (case up_id e of Some i \<Rightarrow> Some i | None \<Rightarrow> ls_start_from st)"
  "ls_bus (fst (snd (ingest E client network t0 e (saw, st, w)))) = bus_after E e (ls_bus st)"
  "ls_starts (fst (snd (ingest E client network t0 e (saw, st, w)))) = ls_starts st"
  "ls_first_connect (fst (snd (ingest E client network t0 e (saw, st, w)))) = ls_first_connect st"
  "counter sse_reconnect_total ls (ls_log (fst (snd (ingest E client network t0 e (saw, st, w))))) =
     counter sse_reconnect_total ls (ls_log st)"
  "counter sse_ingest_total ls (ls_log (fst (snd (ingest E client network t0 e (saw, st, w))))) =
     counter sse_ingest_total ls (ls_log st) + (if ls = [network] then 1 else 0)"
  "log_ok (ls_log (fst (snd (ingest E client network t0 e (saw, st, w))))) \<longleftrightarrow> log_ok (ls_log st)"
  by (auto simp: ingest_def Let_def case_prod_unfold bus_after_def sse_to_value_def push_bus_log
      increment_sse_ingest_def observe_sse_time_to_first_api_version_def log_ok_emit
      push_def increment_sse_backlog_dropped_def set_sse_backlog_size_def
      split: option.splits SseEvent.splits)

lemma bus_after_spec:
  assumes "bus_inv bus" and "unat (next_id bus) + length (pushed E [e]) < 2 ^ 64"
  shows "bus_inv (bus_after E e bus)
    \<and> bus_sent (bus_after E e bus) = bus_sent bus @ envelopes (unat (next_id bus)) (pushed E [e])
    \<and> unat (next_id (bus_after E e bus)) = unat (next_id bus) + length (pushed E [e])
    \<and> api_version_cell (bus_after E e bus) =
        (case api_version_cell bus of Some v \<Rightarrow> Some v | None \<Rightarrow> first_api E [e])"
proof (cases "up_data e")
  case (ApiVersion d)
  then show ?thesis
    using assms(1) remember_api_version_inv [OF assms(1)]
    by (auto simp: bus_after_def remember_api_version_def split: option.splits)
next
  case (OtherEvent d)
  show ?thesis
  proof (cases "to_value E (OtherEvent d)")
    case None
    then show ?thesis using OtherEvent assms by (auto simp: bus_after_def split: option.splits)
  next
    case (Some v)
    then have p: "pushed E [e] = [v]" using OtherEvent by simp
    have "unat (next_id bus) + length [v] < 2 ^ 64" using assms(2) p by simp
    from push_all_spec [OF assms(1) this, of "[]"] show ?thesis
      using OtherEvent Some
      by (auto simp: bus_after_def p case_prod_unfold split: option.splits)
  qed
qed

lemma pushed_Cons: "pushed E (e # es) = pushed E [e] @ pushed E es"
  by (simp split: SseEvent.splits option.splits)

lemma first_api_Cons: "first_api E (e # es) = (case first_api E [e] of Some v \<Rightarrow> Some v | None \<Rightarrow> first_api E es)"
  by (simp split: SseEvent.splits option.splits)

lemma envelopes_append: "envelopes n (a @ b) = envelopes n a @ envelopes (n + length a) b"
  by (induction a arbitrary: n) auto

lemma ingest_stream_spec:
  assumes "bus_inv (ls_bus st)"
    and "unat (next_id (ls_bus st)) + length (pushed E (good_items items)) < 2 ^ 64"
  shows "case ingest_stream E client network t0 items (saw, st, w) of (saw', st', w') \<Rightarrow>
      bus_inv (ls_bus st')
    \<and> bus_sent (ls_bus st') =
        bus_sent (ls_bus st) @ envelopes (unat (next_id (ls_bus st))) (pushed E (good_items items))
    \<and> api_version_cell (ls_bus st') =
        (case api_version_cell (ls_bus st) of Some v \<Rightarrow> Some v | None \<Rightarrow> first_api E (good_items items))
    \<and> ls_start_from st' = last_seen (good_items items) (ls_start_from st)"
  using assms
proof (induction items arbitrary: saw st w)
  case Nil
  then show ?case by (simp split: option.splits)
next
  case (Cons item items)
  show ?case
  proof (cases item)
    case None
    then show ?thesis using Cons.prems by (simp split: option.splits)
  next
    case (Some e)
    obtain saw1 st1 w1 where one: "ingest E client network t0 e (saw, st, w) = (saw1, st1, w1)"
      by (metis prod_cases3)
    note frame = ingest_frame [where E = E and client = client and network = network and ?t0.0 = t0
        and e = e and saw = saw and st = st and w = w, unfolded one, simplified]
    have good: "good_items (item # items) = e # good_items items" by (simp add: Some)
    have fit: "unat (next_id (ls_bus st)) + length (pushed E [e]) + length (pushed E (good_items items)) < 2 ^ 64"
      using Cons.prems(2) unfolding good pushed_Cons [of E e "good_items items"]
      by (simp only: length_append add.assoc)
    have b: "bus_inv (ls_bus st1)"
      "bus_sent (ls_bus st1) = bus_sent (ls_bus st) @ envelopes (unat (next_id (ls_bus st))) (pushed E [e])"
      "unat (next_id (ls_bus st1)) = unat (next_id (ls_bus st)) + length (pushed E [e])"
      "api_version_cell (ls_bus st1) =
        (case api_version_cell (ls_bus st) of Some v \<Rightarrow> Some v | None \<Rightarrow> first_api E [e])"
      using bus_after_spec [OF Cons.prems(1), of E e] fit unfolding frame(2) by linarith+
    have step: "ingest_stream E client network t0 (item # items) (saw, st, w) =
        ingest_stream E client network t0 items (saw1, st1, w1)"
      by (simp add: Some one)
    have "unat (next_id (ls_bus st1)) + length (pushed E (good_items items)) < 2 ^ 64"
      using fit b(3) by simp
    from Cons.IH [OF b(1) this, of saw1 w1] show ?thesis
      unfolding step good pushed_Cons [of E e "good_items items"] first_api_Cons [of E e "good_items items"]
        envelopes_append last_seen.simps b
      by (auto simp: frame(1) split: option.splits)
  qed
qed

lemma ingest_stream_frame:
  "ls_starts (fst (snd (ingest_stream E client network t0 items sw))) = ls_starts (fst (snd sw))
   \<and> ls_first_connect (fst (snd (ingest_stream E client network t0 items sw))) = ls_first_connect (fst (snd sw))
   \<and> counter sse_reconnect_total ls (ls_log (fst (snd (ingest_stream E client network t0 items sw)))) =
       counter sse_reconnect_total ls (ls_log (fst (snd sw)))
   \<and> counter sse_ingest_total ls (ls_log (fst (snd (ingest_stream E client network t0 items sw)))) =
       counter sse_ingest_total ls (ls_log (fst (snd sw)))
       + (if ls = [network] then length (good_items items) else 0)
   \<and> (log_ok (ls_log (fst (snd (ingest_stream E client network t0 items sw)))) \<longleftrightarrow> log_ok (ls_log (fst (snd sw))))"
proof (induction E client network t0 items sw rule: ingest_stream.induct)
  case (3 E client network t0 e items sw)
  then show ?case by (cases sw) (simp add: ingest_frame)
qed simp_all

text \<open>Redis is there for the whole run.\<close>

definition redis_healthy :: "('w, 'd) sse_env \<Rightarrow> bool" where
  "redis_healthy E \<longleftrightarrow> (\<forall>w. fst (redis_connect E w)) \<and> (\<forall>k i w. fst (redis_set E k i w))"

lemma store_id_healthy:
  "redis_healthy E \<Longrightarrow> ls_writes (fst (store_id E True network i st w)) = ls_writes st @ [i]"
  by (simp add: store_id_def connect_redis_def Let_def redis_healthy_def case_prod_unfold split: bool.splits)

text \<open>The id in Redis and the id the task resumes from agree.\<close>

definition resume_synced :: "u64 option \<Rightarrow> listener_state \<Rightarrow> bool" where
  "resume_synced loaded st \<longleftrightarrow>
     ls_start_from st = (if ls_writes st = [] then loaded else Some (last (ls_writes st)))"

lemma ingest_synced:
  assumes "redis_healthy E" and "resume_synced loaded (fst (snd sw))"
  shows "resume_synced loaded (fst (snd (ingest E True network t0 e sw)))"
  using assms store_id_healthy [OF assms(1)]
  by (cases sw)
     (auto simp: ingest_def Let_def case_prod_unfold resume_synced_def
       split: option.splits SseEvent.splits)

lemma ingest_stream_synced:
  "redis_healthy E \<Longrightarrow> resume_synced loaded (fst (snd sw)) \<Longrightarrow>
     resume_synced loaded (fst (snd (ingest_stream E True network t0 items sw)))"
proof (induction items arbitrary: sw)
  case (Cons item items)
  then show ?case by (cases item) (simp_all add: ingest_synced)
qed simp

text \<open>The state in which a round starts to read its stream.\<close>

definition round_start :: "string \<Rightarrow> listener_state \<Rightarrow> listener_state" where
  "round_start network st =
     (if ls_first_connect st then st else st\<lparr>ls_log := increment_sse_reconnect network (ls_log st)\<rparr>)
       \<lparr>ls_first_connect := False, ls_starts := ls_starts st @ [ls_start_from st]\<rparr>"

lemma round_start_frame [simp]:
  "ls_bus (round_start network st) = ls_bus st"
  "ls_start_from (round_start network st) = ls_start_from st"
  "ls_writes (round_start network st) = ls_writes st"
  "ls_starts (round_start network st) = ls_starts st @ [ls_start_from st]"
  "\<not> ls_first_connect (round_start network st)"
  "log_ok (ls_log (round_start network st)) \<longleftrightarrow> log_ok (ls_log st)"
  "counter sse_reconnect_total [network] (ls_log (round_start network st)) =
     counter sse_reconnect_total [network] (ls_log st) + (if ls_first_connect st then 0 else 1)"
  by (simp_all add: round_start_def increment_sse_reconnect_def log_ok_emit)

text \<open>A round reads a stream or fails to open one.\<close>

lemma listener_round_eq:
  "listener_round E client network endpoint (st, w) =
     (let start = map_option (\<lambda>i. dec_string (unat i)) (ls_start_from st)
      in if \<not> config_build E endpoint start then None
         else case listen E endpoint start w of
                (Some items, w1) \<Rightarrow>
                  Some (snd (ingest_stream E client network (sse_clock E w1) items
                               (False, round_start network st, w1)))
              | (None, w1) \<Rightarrow> Some (round_start network st, w1))"
proof -
  have split: "(case p of (saw, x) \<Rightarrow> Some x) = Some (snd p)" for p :: "bool \<times> listener_state \<times> 'a"
    by (cases p) simp
  show ?thesis
    by (simp add: listener_round_def round_start_def Let_def split
        cong: if_cong option.case_cong prod.case_cong)
qed

lemma listener_round_cases:
  assumes "listener_round E client network endpoint (st, w) = Some (st', w')"
  obtains (unopened) "st' = round_start network st"
      "fst (listen E endpoint (map_option (\<lambda>i. dec_string (unat i)) (ls_start_from st)) w) = None"
    | (opened) items w1 where
      "listen E endpoint (map_option (\<lambda>i. dec_string (unat i)) (ls_start_from st)) w = (Some items, w1)"
      "snd (ingest_stream E client network (sse_clock E w1) items (False, round_start network st, w1)) = (st', w')"
  using assms unfolding listener_round_eq Let_def
  by (auto split: if_splits prod.splits option.splits)

lemma listener_round_synced:
  assumes h: "redis_healthy E" and s: "resume_synced loaded st"
    and r: "listener_round E True network endpoint (st, w) = Some (st', w')"
  shows "resume_synced loaded st'"
proof -
  have s': "resume_synced loaded (round_start network st)" using s by (simp add: resume_synced_def)
  from r show ?thesis
  proof (cases rule: listener_round_cases)
    case unopened
    then show ?thesis using s' by simp
  next
    case (opened items w1)
    then show ?thesis
      using ingest_stream_synced [OF h, of loaded "(False, round_start network st, w1)" network "sse_clock E w1" items] s'
      by simp
  qed
qed

lemma listener_rounds_synced:
  "redis_healthy E \<Longrightarrow> resume_synced loaded (fst sw) \<Longrightarrow>
     listener_rounds E True network endpoint n sw = Some (st', w') \<Longrightarrow> resume_synced loaded st'"
proof (induction n arbitrary: sw)
  case 0
  then show ?case by simp
next
  case (Suc n)
  obtain st w where sw: "sw = (st, w)" by (cases sw)
  from Suc.prems(3) obtain st1 w1 where
    one: "listener_round E True network endpoint (st, w) = Some (st1, w1)"
    and rest: "listener_rounds E True network endpoint n (st1, w1) = Some (st', w')"
    by (auto simp: sw Option.bind_eq_Some_conv)
  have "resume_synced loaded st1"
    using listener_round_synced [OF Suc.prems(1) _ one] Suc.prems(2) sw by simp
  then show ?case using Suc.IH [of "(st1, w1)"] Suc.prems(1) rest by simp
qed

lemma listener_round_counts:
  assumes "listener_round E client network endpoint (st, w) = Some (st', w')"
  shows "counter sse_reconnect_total [network] (ls_log st') =
      counter sse_reconnect_total [network] (ls_log st) + (if ls_first_connect st then 0 else 1)
    \<and> \<not> ls_first_connect st' \<and> ls_starts st' = ls_starts st @ [ls_start_from st]
    \<and> (log_ok (ls_log st') \<longleftrightarrow> log_ok (ls_log st))"
  using assms
proof (cases rule: listener_round_cases)
  case unopened
  then show ?thesis by simp
next
  case (opened items w1)
  from ingest_stream_frame [where E = E and client = client and network = network and ls = "[network]"
      and ?t0.0 = "sse_clock E w1" and items = items and sw = "(False, round_start network st, w1)"]
  show ?thesis by (simp add: opened(2))
qed

lemma listener_rounds_counts:
  "listener_rounds E client network endpoint n (st, w) = Some (st', w') \<Longrightarrow>
     counter sse_reconnect_total [network] (ls_log st') + (if ls_first_connect st \<and> 0 < n then 1 else 0) =
       counter sse_reconnect_total [network] (ls_log st) + n
     \<and> length (ls_starts st') = length (ls_starts st) + n \<and> (log_ok (ls_log st') \<longleftrightarrow> log_ok (ls_log st))"
proof (induction n arbitrary: st w)
  case 0
  then show ?case by simp
next
  case (Suc n)
  from Suc.prems obtain st1 w1 where
    one: "listener_round E client network endpoint (st, w) = Some (st1, w1)"
    and rest: "listener_rounds E client network endpoint n (st1, w1) = Some (st', w')"
    by (auto simp: Option.bind_eq_Some_conv)
  from Suc.IH [OF rest] listener_round_counts [OF one] show ?case by (auto split: if_splits)
qed

lemma listener_round_bus:
  assumes "bus_inv (ls_bus st)"
    and "listener_round E client network endpoint (st, w) = Some (st', w')"
    and "fst (listen E endpoint (map_option (\<lambda>i. dec_string (unat i)) (ls_start_from st)) w) = Some items"
    and "unat (next_id (ls_bus st)) + length (pushed E (good_items items)) < 2 ^ 64"
  shows "bus_inv (ls_bus st')
    \<and> bus_sent (ls_bus st') =
        bus_sent (ls_bus st) @ envelopes (unat (next_id (ls_bus st))) (pushed E (good_items items))
    \<and> api_version (ls_bus st') =
        (case api_version (ls_bus st) of Some v \<Rightarrow> Some v | None \<Rightarrow> first_api E (good_items items))
    \<and> ls_start_from st' = last_seen (good_items items) (ls_start_from st)
    \<and> ls_starts st' = ls_starts st @ [ls_start_from st]"
  using assms(2)
proof (cases rule: listener_round_cases)
  case unopened
  then show ?thesis using assms(3) by simp
next
  case (opened its w1)
  then have its: "its = items" using assms(3) by simp
  have "bus_inv (ls_bus (round_start network st))"
      "unat (next_id (ls_bus (round_start network st))) + length (pushed E (good_items items)) < 2 ^ 64"
    using assms(1,4) by simp_all
  from ingest_stream_spec [OF this, of client network "sse_clock E w1" False w1]
    listener_round_counts [OF assms(2)]
  show ?thesis using opened(2) unfolding its
    by (cases "ingest_stream E client network (sse_clock E w1) items (False, round_start network st, w1)")
       (simp add: api_version_def)
qed

lemma bus_after_limit: "backlog_limit (bus_after E e bus) = backlog_limit bus"
  by (simp add: bus_after_def push_def remember_api_version_def Let_def split: SseEvent.splits option.splits)

lemma ingest_stream_limit:
  "backlog_limit (ls_bus (fst (snd (ingest_stream E client network t0 items sw)))) = backlog_limit (ls_bus (fst (snd sw)))"
proof (induction E client network t0 items sw rule: ingest_stream.induct)
  case (3 E client network t0 e items sw)
  then show ?case by (cases sw) (simp add: ingest_frame bus_after_limit)
qed simp_all

lemma listener_round_limit:
  assumes "listener_round E client network endpoint (st, w) = Some (st', w')"
  shows "backlog_limit (ls_bus st') = backlog_limit (ls_bus st)"
  using assms
proof (cases rule: listener_round_cases)
  case unopened
  then show ?thesis by simp
next
  case (opened items w1)
  from ingest_stream_limit [of E client network "sse_clock E w1" items "(False, round_start network st, w1)"]
  show ?thesis by (simp add: opened(2))
qed

section \<open>Properties\<close>

text \<open>C20: one connection feeds the bus faithfully. After a round of the listener, the bus has received
  exactly the serialisable events of the stream that are not ApiVersion events, in order and before the
  first error; the ApiVersion of the bus is the first one ever seen; the id to resume from is the last
  id seen, ApiVersion events included; and the round asked the upstream to start from the id
  remembered before it.\<close>

theorem listener_round_feeds_bus:
  assumes "bus_inv (ls_bus st)"
    and "listener_round E client network endpoint (st, w) = Some (st', w')"
    and "fst (listen E endpoint (map_option (\<lambda>i. dec_string (unat i)) (ls_start_from st)) w) = Some items"
    and "unat (next_id (ls_bus st)) + length (pushed E (good_items items)) < 2 ^ 64"
  shows "bus_inv (ls_bus st')
    \<and> bus_sent (ls_bus st') =
        bus_sent (ls_bus st) @ envelopes (unat (next_id (ls_bus st))) (pushed E (good_items items))
    \<and> api_version (ls_bus st') =
        (case api_version (ls_bus st) of Some v \<Rightarrow> Some v | None \<Rightarrow> first_api E (good_items items))
    \<and> ls_start_from st' = last_seen (good_items items) (ls_start_from st)
    \<and> ls_starts st' = ls_starts st @ [ls_start_from st]"
  using assms by (rule listener_round_bus)

definition demo_env :: "(nat, json) sse_env" where
  "demo_env =
     \<lparr>redis_open = (\<lambda>_. True), redis_connect = (\<lambda>w. (True, w)), redis_get = (\<lambda>_ w. (Some (Some 41), w)),
      redis_set = (\<lambda>_ _ w. (True, w)), config_build = (\<lambda>_ _. True),
      listen = (\<lambda>_ _ w. (Some
        [Some \<lparr>up_id = None, up_data = ApiVersion (JString ''2.0.0'')\<rparr>,
         Some \<lparr>up_id = Some 42, up_data = OtherEvent (JInt 7)\<rparr>, None,
         Some \<lparr>up_id = Some 43, up_data = OtherEvent (JInt 8)\<rparr>], Suc w)),
      to_value = (\<lambda>e. case e of ApiVersion v \<Rightarrow> Some v | OtherEvent v \<Rightarrow> Some v),
      sse_clock = (\<lambda>w. w)\<rparr>"

definition demo_state :: listener_state where
  "demo_state =
     \<lparr>ls_start_from = Some 41, ls_redis_conn = True, ls_first_connect = True,
      ls_bus = fresh_bus ''n'' 8 8 False, ls_log = [], ls_writes = [], ls_starts = []\<rparr>"

lemma demo_round: "\<exists>st' w'. listener_round demo_env c n ep sw = Some (st', w')"
proof -
  have "config_build demo_env ep start" for start by (simp add: demo_env_def)
  then show ?thesis
    by (cases sw) (auto simp: listener_round_eq Let_def simp del: ingest_stream.simps split: prod.splits option.splits)
qed

lemma demo_rounds: "\<exists>st' w'. listener_rounds demo_env c n ep k sw = Some (st', w')"
proof (induction k arbitrary: sw)
  case (Suc k)
  then show ?case using demo_round [of c n ep sw] by auto
qed (cases sw, simp)

theorem listener_round_feeds_bus_witness:
  "\<exists>st' w'. listener_round demo_env True ''n'' ''http://node/events'' (demo_state, 0) = Some (st', w')
     \<and> bus_sent (ls_bus st') = [\<lparr>ev_id = 1, ev_data = JInt 7\<rparr>]
     \<and> api_version (ls_bus st') = Some (JString ''2.0.0'') \<and> ls_start_from st' = Some 42"
proof -
  let ?items = "[Some \<lparr>up_id = None, up_data = ApiVersion (JString ''2.0.0'')\<rparr>,
         Some \<lparr>up_id = Some 42, up_data = OtherEvent (JInt 7)\<rparr>, None,
         Some \<lparr>up_id = Some 43, up_data = OtherEvent (JInt 8)\<rparr>]"
  let ?b = "fresh_bus ''n'' 8 8 False"
  have b: "ls_bus demo_state = ?b" "next_id ?b = 0" "bus_sent ?b = []" "api_version ?b = None"
    by (simp_all add: demo_state_def fresh_bus_def Let_def api_version_def)
  obtain st' w' where r: "listener_round demo_env True ''n'' ''http://node/events'' (demo_state, 0) = Some (st', w')"
    using demo_round [of True] by blast
  have l: "fst (listen demo_env ''http://node/events''
      (map_option (\<lambda>i. dec_string (unat i)) (ls_start_from demo_state)) 0) = Some ?items"
    by (simp add: demo_env_def)
  have i: "bus_inv (ls_bus demo_state)" by (simp add: b fresh_bus_inv)
  have p: "pushed demo_env (good_items ?items) = [JInt 7]" by (simp add: demo_env_def)
  have f: "unat (next_id (ls_bus demo_state)) + length (pushed demo_env (good_items ?items)) < 2 ^ 64"
    by (simp only: p b) simp
  from listener_round_feeds_bus [OF i r l f] r show ?thesis
    unfolding p b by (simp add: b demo_env_def)
qed

text \<open>Reconnects are counted: after \<open>n\<close> rounds the task has made \<open>n\<close> connection attempts and counted
  \<open>n - 1\<close> reconnects, and all its metric calls are well formed.\<close>

theorem listener_reconnects_counted:
  assumes "spawn_listener E redis_url network endpoint bus log w n = Some (st, w')"
  shows "counter sse_reconnect_total [network] (ls_log st) =
      counter sse_reconnect_total [network] log + (n - 1)
    \<and> length (ls_starts st) = n \<and> (log_ok (ls_log st) \<longleftrightarrow> log_ok log)"
proof -
  obtain client st0 w0 where i: "listener_init E redis_url network bus log w = (client, st0, w0)"
    by (metis prod_cases3)
  then have st0: "ls_first_connect st0" "ls_log st0 = log" "ls_starts st0 = []"
    by (auto simp: listener_init_def Let_def case_prod_unfold)
  have "listener_rounds E client network endpoint n (st0, w0) = Some (st, w')"
    using assms by (simp add: spawn_listener_def i)
  from listener_rounds_counts [OF this] show ?thesis by (auto simp: st0 split: if_splits)
qed

theorem listener_reconnects_counted_witness:
  "\<exists>st w'. spawn_listener demo_env None ''n'' ''http://node/events'' (fresh_bus ''n'' 8 8 False) [] 0 3
      = Some (st, w') \<and> counter sse_reconnect_total [''n''] (ls_log st) = 2"
proof -
  obtain c st0 w0 where i: "listener_init demo_env None ''n'' (fresh_bus ''n'' 8 8 False) [] 0 = (c, st0, w0)"
    by (metis prod_cases3)
  obtain st w' where "listener_rounds demo_env c ''n'' ''http://node/events'' 3 (st0, w0) = Some (st, w')"
    using demo_rounds by blast
  then have r: "spawn_listener demo_env None ''n'' ''http://node/events''
      (fresh_bus ''n'' 8 8 False) [] 0 3 = Some (st, w')"
    by (simp add: spawn_listener_def i)
  from listener_reconnects_counted [OF r] r show ?thesis by auto
qed

text \<open>C27: the resume point in Redis does not drift. While Redis takes writes, after any number of rounds
  the id the task would resume from is the last id written to Redis, or the id loaded at start when no
  event carried one, so that a restarted task resumes where this one would.\<close>

theorem resume_point_stored:
  assumes "redis_healthy E"
    and "listener_init E redis_url network bus log w = (True, st0, w0)"
    and "spawn_listener E redis_url network endpoint bus log w n = Some (st, w')"
  shows "ls_start_from st = (if ls_writes st = [] then ls_start_from st0 else Some (last (ls_writes st)))"
proof -
  have "ls_writes st0 = []"
    using assms(2) by (auto simp: listener_init_def Let_def case_prod_unfold)
  then have s: "resume_synced (ls_start_from st0) (fst (st0, w0))" by (simp add: resume_synced_def)
  have "listener_rounds E True network endpoint n (st0, w0) = Some (st, w')"
    using assms(3) by (simp add: spawn_listener_def assms(2))
  from listener_rounds_synced [OF assms(1) s this] show ?thesis by (simp only: resume_synced_def)
qed

theorem resume_point_stored_witness:
  "\<exists>st w'. spawn_listener demo_env None ''n'' ''http://node/events'' (fresh_bus ''n'' 8 8 False) [] 0 2
      = Some (st, w')
    \<and> ls_start_from st = (if ls_writes st = [] then Some 41 else Some (last (ls_writes st)))"
proof -
  let ?b = "fresh_bus ''n'' 8 8 False"
  have h: "redis_healthy demo_env" by (simp add: redis_healthy_def demo_env_def)
  obtain st0 w0 where i: "listener_init demo_env None ''n'' ?b [] 0 = (True, st0, w0)"
      and s: "ls_start_from st0 = Some 41"
    by (simp add: listener_init_def connect_redis_def load_last_id_def demo_env_def Let_def)
  obtain st w' where "listener_rounds demo_env True ''n'' ''http://node/events'' 2 (st0, w0) = Some (st, w')"
    using demo_rounds by blast
  then have r: "spawn_listener demo_env None ''n'' ''http://node/events'' ?b [] 0 2 = Some (st, w')"
    by (simp add: spawn_listener_def i)
  from resume_point_stored [OF h i r] r s show ?thesis by auto
qed

end
