(* ===== verification/Websocket.thy ===== *)
theory Websocket
  imports Http_Types
begin

text \<open>
  The websocket frames the handlers exchange with a client. A text frame carries the serialisation of
  a JSON value. Sending is third-party code and a parameter: it takes a frame and tells whether the
  frame went out.
\<close>

datatype ws_out = TextFrame json | BinaryFrame bytes

record 'w ws_sink =
  ws_send :: "ws_out \<Rightarrow> 'w \<Rightarrow> bool \<times> 'w"

text \<open>A client that takes every frame.\<close>

definition sink_ok :: "'w ws_sink \<Rightarrow> bool" where
  "sink_ok S \<longleftrightarrow> (\<forall>f w. fst (ws_send S f w))"

lemma sink_okD: "sink_ok S \<Longrightarrow> \<exists>w'. ws_send S f w = (True, w')"
  by (metis prod.collapse sink_ok_def)

end
