(* ===== verification/Event_Streams.thy ===== *)
theory Event_Streams
  imports Event_Bus Websocket "HOL-Library.Sublist"
begin

text \<open>
  The event streams of \<open>src/handlers.rs\<close>: the websocket loop \<open>handle_events_socket\<close> and the SSE
  stream \<open>sse_stream\<close>, which replay the backlog and then follow the broadcast channel. What the
  channel delivers to a receiver is a list of \<open>recv\<close> results; \<open>delivers\<close> states the behaviour the
  channel documents (in order, from the point of subscription, \<open>Lagged n\<close> for \<open>n\<close> skipped values).
  A run is over a finite list of what \<open>select!\<close> picks; its end is a client that is still connected.
\<close>

section \<open>Inputs\<close>

datatype recv = RecvOk EventEnvelope | Lagged u64 | Closed

datatype inbound = InboundClose | InboundMessage | InboundError | InboundEnd

datatype select_event = Inbound inbound | Live recv

fun delivers :: "EventEnvelope list \<Rightarrow> recv list \<Rightarrow> bool" where
  "delivers xs [] = True"
| "delivers xs (RecvOk e # rs) = (case xs of [] \<Rightarrow> False | x # ys \<Rightarrow> e = x \<and> delivers ys rs)"
| "delivers xs (Lagged n # rs) = (1 \<le> n \<and> unat n \<le> length xs \<and> delivers (drop (unat n) xs) rs)"
| "delivers xs (Closed # rs) = (xs = [] \<and> rs = [])"

text \<open>\<open>wait_for_api_version\<close> over the states of the bus at the successive checks of its loop.\<close>

fun wait_for_api_version :: "EventBus list \<Rightarrow> json option" where
  "wait_for_api_version [] = None"
| "wait_for_api_version (b # bs) =
     (case api_version b of Some v \<Rightarrow> Some v | None \<Rightarrow> wait_for_api_version bs)"

section \<open>The websocket stream\<close>

definition envelope_json :: "EventEnvelope \<Rightarrow> json" where
  "envelope_json e = JObject [(''id'', JInt (uint (ev_id e))), (''data'', ev_data e)]"

definition event_frame :: "EventEnvelope \<Rightarrow> ws_out" where
  "event_frame e = TextFrame (envelope_json e)"

definition api_version_frame :: "json \<Rightarrow> ws_out" where
  "api_version_frame v = TextFrame (JObject [(''id'', JNull), (''data'', v)])"

definition send_event :: "'w ws_sink \<Rightarrow> EventEnvelope \<Rightarrow> 'w \<Rightarrow> bool \<times> 'w" where
  "send_event S event w = ws_send S (event_frame event) w"

definition send_api_version :: "'w ws_sink \<Rightarrow> json \<Rightarrow> 'w \<Rightarrow> bool \<times> 'w" where
  "send_api_version S v w = ws_send S (api_version_frame v) w"

text \<open>The replay loop: stops at the first frame that does not go out.\<close>

fun replay_backlog ::
  "'w ws_sink \<Rightarrow> EventEnvelope list \<Rightarrow> u64 \<Rightarrow> ws_out list \<Rightarrow> 'w \<Rightarrow> bool \<times> u64 \<times> ws_out list \<times> 'w" where
  "replay_backlog S [] last_id out w = (True, last_id, out, w)"
| "replay_backlog S (e # es) last_id out w =
     (case send_event S e w of
        (False, w') \<Rightarrow> (False, last_id, out, w')
      | (True, w') \<Rightarrow> replay_backlog S es (ev_id e) (out @ [event_frame e]) w')"

text \<open>The \<open>select!\<close> loop: \<open>True\<close> when the handler returned, \<open>False\<close> when it still waits.\<close>

fun events_loop ::
  "'w ws_sink \<Rightarrow> select_event list \<Rightarrow> u64 \<Rightarrow> ws_out list \<Rightarrow> 'w \<Rightarrow> bool \<times> ws_out list \<times> 'w" where
  "events_loop S [] last_id out w = (False, out, w)"
| "events_loop S (Inbound i # es) last_id out w =
     (case i of
        InboundMessage \<Rightarrow> events_loop S es last_id out w
      | _ \<Rightarrow> (True, out, w))"
| "events_loop S (Live (RecvOk e) # es) last_id out w =
     (if last_id < ev_id e
      then (case send_event S e w of
              (False, w') \<Rightarrow> (True, out, w')
            | (True, w') \<Rightarrow> events_loop S es (ev_id e) (out @ [event_frame e]) w')
      else events_loop S es last_id out w)"
| "events_loop S (Live (Lagged n) # es) last_id out w = events_loop S es last_id out w"
| "events_loop S (Live Closed # es) last_id out w = (True, out, w)"

text \<open>
  The handler: \<open>polls\<close> are the bus states at the checks of \<open>wait_for_api_version\<close>, \<open>bus\<close> is the bus when
  the snapshot is taken, \<open>es\<close> what the loop selects afterwards. The guard is dropped when the handler
  returns.
\<close>

definition handle_events_socket ::
  "'w ws_sink \<Rightarrow> string \<Rightarrow> EventBus list \<Rightarrow> EventBus \<Rightarrow> u64 option \<Rightarrow> select_event list \<Rightarrow> mlog \<Rightarrow> 'w
     \<Rightarrow> bool \<times> ws_out list \<times> mlog \<times> 'w" where
  "handle_events_socket S network polls bus start_from es log w =
     (let (guard, log) = events_connection_guard network log
      in case wait_for_api_version polls of
           None \<Rightarrow> (False, [], log, w)
         | Some v \<Rightarrow>
             (case send_api_version S v w of
                (False, w) \<Rightarrow> (True, [], drop_guard guard log, w)
              | (True, w) \<Rightarrow>
                  (let out = [api_version_frame v];
                       (ok, last_id, out, w) =
                         (case start_from of
                            Some s \<Rightarrow> replay_backlog S (snapshot_from bus s) 0 out w
                          | None \<Rightarrow> (True, 0, out, w))
                   in if \<not> ok then (True, out, drop_guard guard log, w)
                      else let (ended, out, w) = events_loop S es last_id out w
                           in (ended, out, (if ended then drop_guard guard log else log), w))))"

section \<open>The SSE stream\<close>

record sse_frame =
  sse_id :: string
  sse_data :: json

definition sse_event :: "EventEnvelope \<Rightarrow> sse_frame" where
  "sse_event e = \<lparr>sse_id = dec_string (unat (ev_id e)), sse_data = ev_data e\<rparr>"

definition sse_api_version_event :: "json \<Rightarrow> sse_frame" where
  "sse_api_version_event v = \<lparr>sse_id = [], sse_data = v\<rparr>"

text \<open>One call of the \<open>unfold\<close> closure: the next item with the state after it, the end, or waiting.\<close>

datatype sse_step = Item EventEnvelope "recv list" u64 | Ended | Waiting

fun sse_next :: "recv list \<Rightarrow> u64 \<Rightarrow> sse_step" where
  "sse_next [] last_id = Waiting"
| "sse_next (RecvOk e # rs) last_id = (if last_id < ev_id e then Item e rs (ev_id e) else sse_next rs last_id)"
| "sse_next (Lagged n # rs) last_id = sse_next rs last_id"
| "sse_next (Closed # rs) last_id = Ended"

lemma sse_next_shorter: "sse_next rs last_id = Item e rs' l \<Longrightarrow> length rs' < length rs"
  by (induction rs last_id rule: sse_next.induct) (auto split: if_splits)

function sse_live :: "recv list \<Rightarrow> u64 \<Rightarrow> sse_frame list \<times> bool" where
  "sse_live rs last_id =
     (case sse_next rs last_id of
        Item e rs' l \<Rightarrow> (let (fs, ended) = sse_live rs' l in (sse_event e # fs, ended))
      | Ended \<Rightarrow> ([], True)
      | Waiting \<Rightarrow> ([], False))"
  by pat_completeness auto
termination
  by (relation "measure (\<lambda>(rs, l). length rs)") (auto dest: sse_next_shorter)

declare sse_live.simps [simp del]

text \<open>
  The backlog is taken when the stream is built; the ApiVersion item is awaited first when the stream
  is polled. The guard lives in the state of the unfold and is dropped when that ends.
\<close>

definition sse_stream ::
  "string \<Rightarrow> EventBus list \<Rightarrow> EventBus \<Rightarrow> u64 option \<Rightarrow> recv list \<Rightarrow> mlog \<Rightarrow> bool \<times> sse_frame list \<times> mlog" where
  "sse_stream network polls bus start_from rs log =
     (let (guard, log) = events_connection_guard network log;
          backlog = (case start_from of Some s \<Rightarrow> snapshot_from bus s | None \<Rightarrow> []);
          last_id = (if backlog = [] then 0 else ev_id (last backlog))
      in case wait_for_api_version polls of
           None \<Rightarrow> (False, [], log)
         | Some v \<Rightarrow>
             (let (live, ended) = sse_live rs last_id
              in (ended, sse_api_version_event v # map sse_event backlog @ live,
                  (if ended then drop_guard guard log else log))))"

section \<open>What a stream forwards\<close>

text \<open>The reference: the live events a stream forwards, given the last id it has sent.\<close>

fun live_events :: "recv list \<Rightarrow> u64 \<Rightarrow> EventEnvelope list" where
  "live_events [] last_id = []"
| "live_events (RecvOk e # rs) last_id =
     (if last_id < ev_id e then e # live_events rs (ev_id e) else live_events rs last_id)"
| "live_events (Lagged n # rs) last_id = live_events rs last_id"
| "live_events (Closed # rs) last_id = []"

text \<open>What the loop takes from the channel before the client goes away.\<close>

fun live_recvs :: "select_event list \<Rightarrow> recv list" where
  "live_recvs [] = []"
| "live_recvs (Inbound InboundMessage # es) = live_recvs es"
| "live_recvs (Inbound _ # es) = []"
| "live_recvs (Live r # es) = r # live_recvs es"

lemma sse_next_live:
  "live_events rs last_id =
     (case sse_next rs last_id of Item e rs' l \<Rightarrow> e # live_events rs' l | _ \<Rightarrow> [])"
  by (induction rs last_id rule: sse_next.induct) auto

lemma sse_live_events: "fst (sse_live rs last_id) = map sse_event (live_events rs last_id)"
proof (induction rs last_id rule: sse_live.induct)
  case (1 rs last_id)
  then show ?case
    by (subst sse_live.simps)
       (auto simp: sse_next_live [of rs last_id] case_prod_unfold split: sse_step.splits)
qed

lemma live_events_above: "e \<in> set (live_events rs last_id) \<Longrightarrow> last_id < ev_id e"
  by (induction rs last_id rule: live_events.induct) (auto split: if_splits dest: less_trans)

lemma live_events_increasing: "sorted_wrt (<) (map ev_id (live_events rs last_id))"
  by (induction rs last_id rule: live_events.induct) (auto dest: live_events_above)

lemma live_events_sorted:
  "sorted_wrt (<) (map ev_id es) \<Longrightarrow>
     live_events (map RecvOk es) last_id = filter (\<lambda>e. last_id < ev_id e) es"
proof (induction es arbitrary: last_id)
  case Nil
  then show ?case by simp
next
  case (Cons e es)
  then have "filter (\<lambda>x. ev_id e < ev_id x) es = es" by (auto simp: filter_id_conv)
  moreover have "filter (\<lambda>x. last_id < ev_id x) es = es" if "last_id < ev_id e"
    using Cons.prems that by (auto simp: filter_id_conv dest: less_trans)
  ultimately show ?case using Cons by auto
qed

lemma replay_backlog_all:
  "sink_ok S \<Longrightarrow> \<exists>w'. replay_backlog S es last_id out w =
     (True, (if es = [] then last_id else ev_id (last es)), out @ map event_frame es, w')"
proof (induction es arbitrary: last_id out w)
  case Nil
  then show ?case by simp
next
  case (Cons e es)
  obtain w' where "send_event S e w = (True, w')"
    using sink_okD [OF Cons.prems] unfolding send_event_def by blast
  then show ?case
    using Cons.IH [OF Cons.prems, where last_id = "ev_id e" and out = "out @ [event_frame e]" and w = w']
    by auto
qed

lemma replay_backlog_prefix:
  "case replay_backlog S es last_id out w of (ok, l, out', w') \<Rightarrow>
     \<exists>sent. prefix sent es \<and> out' = out @ map event_frame sent \<and> (ok \<longrightarrow> sent = es)
       \<and> l = (if sent = [] then last_id else ev_id (last sent))"
proof (induction es arbitrary: last_id out w)
  case Nil
  then show ?case by simp
next
  case (Cons e es)
  show ?case
  proof (cases "fst (send_event S e w)")
    case True
    then obtain w1 where w1: "send_event S e w = (True, w1)" by (metis prod.collapse)
    obtain ok l out' w' where r: "replay_backlog S es (ev_id e) (out @ [event_frame e]) w1 = (ok, l, out', w')"
      by (metis prod_cases4)
    from Cons.IH [where last_id = "ev_id e" and out = "out @ [event_frame e]" and w = w1] r
    obtain sent where "prefix sent es" "out' = out @ event_frame e # map event_frame sent"
      "ok \<longrightarrow> sent = es" "l = (if sent = [] then ev_id e else ev_id (last sent))" by auto
    then show ?thesis using r w1 by (auto intro!: exI [of _ "e # sent"])
  next
    case False
    then obtain w1 where "send_event S e w = (False, w1)" by (metis prod.collapse)
    then show ?thesis by (auto intro!: exI [of _ "[]"])
  qed
qed

lemma events_loop_all:
  "sink_ok S \<Longrightarrow> fst (snd (events_loop S es last_id out w)) =
     out @ map event_frame (live_events (live_recvs es) last_id)"
proof (induction S es last_id out w rule: events_loop.induct)
  case (2 S i es last_id out w)
  then show ?case by (cases i) auto
next
  case (3 S e es last_id out w)
  obtain w' where "send_event S e w = (True, w')"
    using sink_okD [OF 3(3)] unfolding send_event_def by blast
  then show ?case using 3 by auto
qed auto

lemma events_loop_prefix:
  "\<exists>sent. prefix sent (live_events (live_recvs es) last_id)
     \<and> fst (snd (events_loop S es last_id out w)) = out @ map event_frame sent"
proof (induction S es last_id out w rule: events_loop.induct)
  case (2 S i es last_id out w)
  then show ?case by (cases i) auto
next
  case (3 S e es last_id out w)
  show ?case
  proof (cases "last_id < ev_id e")
    case True
    show ?thesis
    proof (cases "send_event S e w")
      case (Pair ok w')
      show ?thesis
      proof (cases ok)
        case True
        with Pair have "(True, w') = send_event S e w" by simp
        from 3(1) [OF \<open>last_id < ev_id e\<close> this refl] obtain sent where
          "prefix sent (live_events (live_recvs es) (ev_id e))"
          "fst (snd (events_loop S es (ev_id e) (out @ [event_frame e]) w')) = (out @ [event_frame e]) @ map event_frame sent"
          by blast
        with True Pair \<open>last_id < ev_id e\<close> show ?thesis by (auto intro!: exI [of _ "e # sent"])
      next
        case False
        with Pair \<open>last_id < ev_id e\<close> show ?thesis by (auto intro!: exI [of _ "[]"])
      qed
    qed
  next
    case False
    then show ?thesis using 3(2) by auto
  qed
qed auto

section \<open>Numbered histories\<close>

lemma numbered_sorted: "numbered es \<Longrightarrow> sorted_wrt (<) (map ev_id es)"
  by (auto simp: numbered_def sorted_wrt_iff_nth_less ev_nat_def word_less_nat_alt)

lemma sorted_ev_drop: "sorted_wrt (<) (map ev_id es) \<Longrightarrow> sorted_wrt (<) (map ev_id (drop n es))"
  by (simp add: sorted_wrt_drop flip: drop_map)

lemma sorted_ev_filter: "sorted_wrt (<) (map ev_id es) \<Longrightarrow> sorted_wrt (<) (map ev_id (filter P es))"
  by (simp add: sorted_wrt_map sorted_wrt_filter)

lemma snapshot_sorted: "bus_inv bus \<Longrightarrow> sorted_wrt (<) (map ev_id (snapshot_from bus s))"
  by (simp add: snapshot_from_def bus_inv_def sorted_ev_filter sorted_ev_drop numbered_sorted)

lemma numbered_in_set: "numbered es \<Longrightarrow> e \<in> set es \<Longrightarrow> 1 \<le> ev_nat e \<and> ev_nat e \<le> length es"
  by (auto simp: numbered_def in_set_conv_nth)

lemma numbered_append_above: "numbered (a @ b) \<Longrightarrow> e \<in> set b \<Longrightarrow> length a < ev_nat e"
proof -
  assume n: "numbered (a @ b)" and "e \<in> set b"
  then obtain i where "i < length b" "e = b ! i" by (auto simp: in_set_conv_nth)
  with n show ?thesis by (auto simp: numbered_def nth_append dest: spec [of _ "length a + i"])
qed

lemma numbered_appendD1: "numbered (a @ b) \<Longrightarrow> numbered a"
  unfolding numbered_def by (metis length_append nth_append trans_less_add1)

lemma numbered_filter_drop:
  assumes "numbered es" and "Suc k \<le> lo"
  shows "filter (\<lambda>e. lo \<le> ev_nat e) (drop k es) = filter (\<lambda>e. lo \<le> ev_nat e) es"
proof -
  have "filter (\<lambda>e. lo \<le> ev_nat e) (take k es) = []"
  proof (rule filter_False, rule ballI)
    fix e assume "e \<in> set (take k es)"
    moreover have "numbered (take k es)"
      using assms(1) numbered_appendD1 [of "take k es" "drop k es"] by simp
    ultimately have "ev_nat e \<le> length (take k es)" using numbered_in_set by blast
    then have "ev_nat e \<le> k" by simp
    with assms(2) show "\<not> lo \<le> ev_nat e" by simp
  qed
  then show ?thesis by (metis append_Nil append_take_drop_id filter_append)
qed

text \<open>
  The join of replay and live stream: with the snapshot taken after the subscription, the events of
  the history from the first replayed one on are forwarded, each once.
\<close>

lemma replay_live_join:
  assumes inv1: "bus_inv bus1" and inv2: "bus_inv bus2"
    and hist1: "bus_sent bus1 = bus_sent bus0 @ x" and hist2: "bus_sent bus2 = bus_sent bus1 @ y"
    and snap: "snapshot_from bus1 s \<noteq> []"
  shows "snapshot_from bus1 s @ live_events (map RecvOk (x @ y)) (ev_id (last (snapshot_from bus1 s))) =
    filter (\<lambda>e. max (unat s) (Suc (length (bus_sent bus1) - length (bus_backlog bus1))) \<le> ev_nat e) (bus_sent bus2)"
proof -
  let ?n = "length (bus_sent bus1)" and ?k = "length (bus_sent bus1) - unat (backlog_limit bus1)"
  let ?lo = "max (unat s) (Suc (?n - length (bus_backlog bus1)))"
  have n1: "numbered (bus_sent bus1)" and n2: "numbered (bus_sent bus2)"
    using inv1 inv2 by (auto simp: bus_inv_def)
  have kept: "bus_backlog bus1 = drop ?k (bus_sent bus1)" using inv1 by (simp add: bus_inv_def)
  then have lo: "?lo = max (unat s) (Suc ?k)" by simp
  have last_id: "ev_nat (last (snapshot_from bus1 s)) = ?n" by (rule bus.snap_last [OF inv1 snap])
  have "last (snapshot_from bus1 s) \<in> set (bus_backlog bus1)" "unat s \<le> ev_nat (last (snapshot_from bus1 s))"
    using last_in_set [OF snap] by (auto simp: snapshot_from_def ev_nat_def word_le_nat_alt)
  then have lo_n: "?lo \<le> ?n" using last_id kept by (auto simp: lo) (metis drop_all length_0_conv length_drop not_less_eq_eq empty_iff empty_set)
  have "filter (\<lambda>e. ?lo \<le> ev_nat e) (bus_sent bus1) = snapshot_from bus1 s"
  proof -
    have "filter (\<lambda>e. ?lo \<le> ev_nat e) (bus_sent bus1) = filter (\<lambda>e. ?lo \<le> ev_nat e) (drop ?k (bus_sent bus1))"
      using numbered_filter_drop [OF n1, of ?k ?lo] lo by simp
    also have "\<dots> = filter (\<lambda>e. unat s \<le> ev_nat e) (drop ?k (bus_sent bus1))"
    proof (rule filter_cong [OF refl])
      fix e assume "e \<in> set (drop ?k (bus_sent bus1))"
      then have "Suc ?k \<le> ev_nat e"
        using numbered_append_above [of "take ?k (bus_sent bus1)" "drop ?k (bus_sent bus1)"] n1
        by (simp add: Suc_le_eq)
      then show "?lo \<le> ev_nat e \<longleftrightarrow> unat s \<le> ev_nat e" using lo by simp
    qed
    finally show ?thesis by (simp add: snapshot_from_def kept ev_nat_def word_le_nat_alt)
  qed
  moreover have "filter (\<lambda>e. ?lo \<le> ev_nat e) y = y"
    using numbered_append_above [of "bus_sent bus1" y] n2 hist2 lo_n by (force simp: filter_id_conv)
  moreover have "live_events (map RecvOk (x @ y)) (ev_id (last (snapshot_from bus1 s))) = y"
  proof -
    have xy: "sorted_wrt (<) (map ev_id (x @ y))"
      using sorted_ev_drop [OF numbered_sorted [OF n2], of "length (bus_sent bus0)"] hist1 hist2 by simp
    have "filter (\<lambda>e. ev_id (last (snapshot_from bus1 s)) < ev_id e) x = []"
      using numbered_in_set [OF n1] hist1 last_id
      by (auto simp: filter_empty_conv word_less_nat_alt ev_nat_def not_less)
    moreover have "filter (\<lambda>e. ev_id (last (snapshot_from bus1 s)) < ev_id e) y = y"
      using numbered_append_above [of "bus_sent bus1" y] n2 hist2 last_id
      by (auto simp: filter_id_conv word_less_nat_alt ev_nat_def)
    ultimately show ?thesis using live_events_sorted [OF xy] by simp
  qed
  ultimately show ?thesis using hist2 by simp
qed

lemma live_only:
  assumes "bus_inv bus2" and "bus_sent bus2 = bus_sent bus0 @ z"
  shows "live_events (map RecvOk z) 0 = z"
proof -
  have n: "numbered (bus_sent bus2)" using assms(1) by (simp add: bus_inv_def)
  have "sorted_wrt (<) (map ev_id z)"
    using sorted_ev_drop [OF numbered_sorted [OF n], of "length (bus_sent bus0)"] assms(2) by simp
  moreover have "filter (\<lambda>e. 0 < ev_id e) z = z"
    using numbered_append_above [of "bus_sent bus0" z] n assms(2)
    by (force simp: filter_id_conv word_less_nat_alt ev_nat_def)
  ultimately show ?thesis by (simp add: live_events_sorted)
qed

fun is_recv_ok :: "recv \<Rightarrow> bool" where
  "is_recv_ok (RecvOk _) = True"
| "is_recv_ok _ = False"

lemma delivers_all:
  "delivers xs rs \<Longrightarrow> list_all is_recv_ok rs \<Longrightarrow> length rs = length xs \<Longrightarrow> rs = map RecvOk xs"
  by (induction xs rs rule: delivers.induct) (auto split: list.splits)

section \<open>Runs of the handlers\<close>

definition replayed :: "EventBus \<Rightarrow> u64 option \<Rightarrow> EventEnvelope list" where
  "replayed bus start_from = (case start_from of Some s \<Rightarrow> snapshot_from bus s | None \<Rightarrow> [])"

definition last_id_of :: "EventEnvelope list \<Rightarrow> u64" where
  "last_id_of es = (if es = [] then 0 else ev_id (last es))"

text \<open>The events a stream forwards when every frame goes out.\<close>

definition stream_events :: "EventBus \<Rightarrow> u64 option \<Rightarrow> recv list \<Rightarrow> EventEnvelope list" where
  "stream_events bus start_from rs =
     replayed bus start_from @ live_events rs (last_id_of (replayed bus start_from))"

lemma socket_frames:
  assumes "sink_ok S" and "wait_for_api_version polls = Some v"
  shows "fst (snd (handle_events_socket S network polls bus start_from es log w)) =
    api_version_frame v # map event_frame (stream_events bus start_from (live_recvs es))"
proof -
  obtain w1 where w1: "send_api_version S v w = (True, w1)"
    using sink_okD [OF assms(1)] unfolding send_api_version_def by blast
  show ?thesis
  proof (cases start_from)
    case None
    with w1 assms(2) show ?thesis
      using events_loop_all [OF assms(1), of es 0 "[api_version_frame v]" w1]
      by (simp add: handle_events_socket_def Let_def case_prod_unfold stream_events_def replayed_def
          last_id_of_def)
  next
    case (Some s)
    obtain w2 where w2: "replay_backlog S (snapshot_from bus s) 0 [api_version_frame v] w1 =
        (True, last_id_of (snapshot_from bus s), [api_version_frame v] @ map event_frame (snapshot_from bus s), w2)"
      using replay_backlog_all [OF assms(1)] unfolding last_id_of_def by blast
    show ?thesis
      using w1 w2 assms(2) Some
        events_loop_all [OF assms(1), of es "last_id_of (snapshot_from bus s)"
          "[api_version_frame v] @ map event_frame (snapshot_from bus s)" w2]
      by (simp add: handle_events_socket_def Let_def case_prod_unfold stream_events_def replayed_def)
  qed
qed

lemma sse_frames:
  assumes "wait_for_api_version polls = Some v"
  shows "fst (snd (sse_stream network polls bus start_from rs log)) =
    sse_api_version_event v # map sse_event (stream_events bus start_from rs)"
  using assms sse_live_events [of rs "last_id_of (replayed bus start_from)"]
  by (cases start_from)
     (simp_all add: sse_stream_def Let_def case_prod_unfold stream_events_def replayed_def last_id_of_def)

lemma sorted_join:
  assumes "sorted_wrt (<) (map ev_id a)" and "\<And>e. e \<in> set b \<Longrightarrow> last_id_of a < ev_id e"
    and "sorted_wrt (<) (map ev_id b)"
  shows "sorted_wrt (<) (map ev_id (a @ b))"
proof (cases a rule: rev_cases)
  case Nil
  then show ?thesis using assms by simp
next
  case (snoc a' l)
  then have "\<forall>x \<in> set a. ev_id x \<le> ev_id l"
    using assms(1) by (auto simp: sorted_wrt_append less_imp_le)
  moreover have "\<forall>y \<in> set b. ev_id l < ev_id y" using assms(2) snoc by (simp add: last_id_of_def)
  ultimately show ?thesis using assms(1,3) by (auto simp: sorted_wrt_append dest: le_less_trans)
qed

lemma sorted_prefix: "prefix a b \<Longrightarrow> sorted_wrt (<) (map ev_id b) \<Longrightarrow> sorted_wrt (<) (map ev_id a)"
  by (auto simp: prefix_def sorted_wrt_append)

lemma live_events_set: "e \<in> set (live_events rs last_id) \<Longrightarrow> RecvOk e \<in> set rs"
  by (induction rs last_id rule: live_events.induct) (auto split: if_splits)

lemma replayed_sorted: "bus_inv bus \<Longrightarrow> sorted_wrt (<) (map ev_id (replayed bus start_from))"
  by (simp add: replayed_def snapshot_sorted split: option.splits)

lemma replayed_set: "set (replayed bus start_from) \<subseteq> set (bus_backlog bus)"
  by (auto simp: replayed_def snapshot_from_def split: option.splits)

lemma stream_events_sorted: "bus_inv bus \<Longrightarrow> sorted_wrt (<) (map ev_id (stream_events bus start_from rs))"
  unfolding stream_events_def
  by (rule sorted_join [OF replayed_sorted]) (simp_all add: live_events_above live_events_increasing)

text \<open>Any client: what went out is a prefix of what the stream forwards.\<close>

lemma socket_prefix:
  "\<exists>sent. prefix sent (stream_events bus start_from (live_recvs es))
     \<and> (fst (snd (handle_events_socket S network polls bus start_from es log w)) = [] \<and> sent = []
        \<or> (\<exists>v. wait_for_api_version polls = Some v
             \<and> fst (snd (handle_events_socket S network polls bus start_from es log w)) =
                 api_version_frame v # map event_frame sent))"
proof (cases "wait_for_api_version polls")
  case None
  then show ?thesis
    by (auto simp: handle_events_socket_def Let_def case_prod_unfold intro!: exI [of _ "[]"])
next
  case (Some v)
  obtain ok w1 where w1: "send_api_version S v w = (ok, w1)" by (metis prod.collapse)
  obtain ok2 l out w2 where r:
    "(case start_from of Some s \<Rightarrow> replay_backlog S (snapshot_from bus s) 0 [api_version_frame v] w1
      | None \<Rightarrow> (True, 0, [api_version_frame v], w1)) = (ok2, l, out, w2)"
    by (metis prod_cases4)
  obtain sent1 where s1: "prefix sent1 (replayed bus start_from)" "out = api_version_frame v # map event_frame sent1"
    "ok2 \<longrightarrow> sent1 = replayed bus start_from" "l = last_id_of sent1"
    using r replay_backlog_prefix [where S = S and es = "replayed bus start_from" and last_id = 0
        and out = "[api_version_frame v]" and w = w1]
    by (cases start_from) (auto simp: replayed_def last_id_of_def)
  obtain sent2 where s2: "prefix sent2 (live_events (live_recvs es) l)"
    "fst (snd (events_loop S es l out w2)) = out @ map event_frame sent2"
    using events_loop_prefix [where S = S and es = es and last_id = l and out = out and w = w2] by blast
  have run: "fst (snd (handle_events_socket S network polls bus start_from es log w)) =
      (if \<not> ok then [] else if \<not> ok2 then out else fst (snd (events_loop S es l out w2)))"
    using Some w1 r
    by (cases start_from; cases ok) (auto simp: handle_events_socket_def Let_def case_prod_unfold)
  show ?thesis
  proof (cases "ok \<and> ok2")
    case True
    then show ?thesis
      using run s1 s2 Some by (auto simp: stream_events_def intro!: exI [of _ "sent1 @ sent2"])
  next
    case False
    then show ?thesis
      using run s1 Some
      by (cases ok) (auto simp: stream_events_def intro!: exI [of _ sent1] prefix_prefix
          intro: exI [of _ "[]"])
  qed
qed

section \<open>Properties\<close>

text \<open>No gap and no duplicate between replay and live stream. A websocket client that subscribes,
  asks for \<open>start_from = s\<close>, and receives every later broadcast without lagging gets the ApiVersion
  frame followed by exactly the events of the history from \<open>s\<close> on (or from the oldest one still in the
  backlog when that is later), each once and in order, although events may have been pushed between the
  subscription (\<open>bus0\<close>), the snapshot (\<open>bus1\<close>) and the end of the run (\<open>bus2\<close>).\<close>

theorem events_socket_no_gap:
  assumes "sink_ok S" and "wait_for_api_version polls = Some v"
    and "bus_inv bus1" and "bus_inv bus2"
    and "bus_sent bus1 = bus_sent bus0 @ x" and "bus_sent bus2 = bus_sent bus1 @ y"
    and "delivers (drop (subscribe bus0) (bus_sent bus2)) (live_recvs es)"
    and "list_all is_recv_ok (live_recvs es)" and "length (live_recvs es) = length (x @ y)"
    and "snapshot_from bus1 s \<noteq> []"
  shows "fst (snd (handle_events_socket S network polls bus1 (Some s) es log w)) =
    api_version_frame v # map event_frame
      (filter (\<lambda>e. max (unat s) (Suc (length (bus_sent bus1) - length (bus_backlog bus1))) \<le> ev_nat e)
        (bus_sent bus2))"
proof -
  have "live_recvs es = map RecvOk (x @ y)"
    using assms(5-9) by (intro delivers_all) (simp_all add: subscribe_def)
  then have "stream_events bus1 (Some s) (live_recvs es) =
      filter (\<lambda>e. max (unat s) (Suc (length (bus_sent bus1) - length (bus_backlog bus1))) \<le> ev_nat e)
        (bus_sent bus2)"
    using replay_live_join [OF assms(3,4,5,6,10)] assms(10)
    by (simp only: stream_events_def replayed_def last_id_of_def option.case if_False)
  then show ?thesis by (simp only: socket_frames [OF assms(1,2)])
qed

theorem events_socket_no_gap_witness:
  "let b0 = fst (push_all [JInt 10, JInt 20] (fresh_bus ''n'' 8 8 False) []);
       b1 = fst (push_all [JInt 30] b0 []);
       b2 = fst (push_all [JInt 40] b1 []);
       S = \<lparr>ws_send = (\<lambda>f w. (True, w @ [f]))\<rparr>;
       api = snd (remember_api_version (JString ''2.0.0'') b0);
       es = [Live (RecvOk \<lparr>ev_id = 3, ev_data = JInt 30\<rparr>), Inbound InboundMessage,
             Live (RecvOk \<lparr>ev_id = 4, ev_data = JInt 40\<rparr>)]
   in fst (snd (handle_events_socket S ''n'' [b0, api] b1 (Some 2) es [] [])) =
        [api_version_frame (JString ''2.0.0''),
         event_frame \<lparr>ev_id = 2, ev_data = JInt 20\<rparr>,
         event_frame \<lparr>ev_id = 3, ev_data = JInt 30\<rparr>,
         event_frame \<lparr>ev_id = 4, ev_data = JInt 40\<rparr>]"
proof -
  let ?new = "fresh_bus ''n'' 8 8 False"
  let ?b0 = "fst (push_all [JInt 10, JInt 20] ?new [])"
  let ?b1 = "fst (push_all [JInt 30] ?b0 [])"
  let ?b2 = "fst (push_all [JInt 40] ?b1 [])"
  let ?S = "\<lparr>ws_send = (\<lambda>f w. (True, w @ [f]))\<rparr>"
  let ?api = "snd (remember_api_version (JString ''2.0.0'') ?b0)"
  let ?e = "\<lambda>i n. \<lparr>ev_id = i, ev_data = JInt n\<rparr>"
  let ?es = "[Live (RecvOk (?e 3 30)), Inbound InboundMessage, Live (RecvOk (?e 4 40))]"
  have new: "bus_inv ?new" "next_id ?new = 0" "bus_sent ?new = []" "api_version_cell ?new = None"
    "backlog_limit ?new = 8"
    by (simp_all add: fresh_bus_inv) (simp_all add: fresh_bus_def Let_def max_def word_le_nat_alt)
  have p0: "bus_inv ?b0" "unat (next_id ?b0) = 2" "bus_sent ?b0 = [?e 1 10, ?e 2 20]"
      "api_version_cell ?b0 = None" "backlog_limit ?b0 = 8"
    using push_all_spec [OF new(1), of "[JInt 10, JInt 20]" "[]"] unfolding new by simp_all
  have p1: "bus_inv ?b1" "unat (next_id ?b1) = 3" "bus_sent ?b1 = bus_sent ?b0 @ [?e 3 30]"
      "backlog_limit ?b1 = 8"
    using push_all_spec [OF p0(1), of "[JInt 30]" "[]"] unfolding p0 by simp_all
  have p2: "bus_inv ?b2" "bus_sent ?b2 = bus_sent ?b1 @ [?e 4 40]"
    using push_all_spec [OF p1(1), of "[JInt 40]" "[]"] unfolding p1(2) by simp_all
  have kept: "bus_backlog ?b1 = [?e 1 10, ?e 2 20, ?e 3 30]"
    using bus_backlog_window [OF p1(1)] unfolding p1(3,4) p0(3) by simp
  have "fst (snd (handle_events_socket ?S ''n'' [?b0, ?api] ?b1 (Some 2) ?es [] [])) =
    api_version_frame (JString ''2.0.0'') # map event_frame
      (filter (\<lambda>e. max (unat (2 :: u64)) (Suc (length (bus_sent ?b1) - length (bus_backlog ?b1))) \<le> ev_nat e)
        (bus_sent ?b2))"
  proof (rule events_socket_no_gap [where ?bus0.0 = ?b0 and x = "[?e 3 30]" and y = "[?e 4 40]"])
    show "sink_ok ?S" by (simp add: sink_ok_def)
    show "wait_for_api_version [?b0, ?api] = Some (JString ''2.0.0'')"
      using p0(4) by (simp add: api_version_def remember_api_version_def)
    show "delivers (drop (subscribe ?b0) (bus_sent ?b2)) (live_recvs ?es)"
      unfolding subscribe_def p2(2) p1(3) by simp
    show "snapshot_from ?b1 2 \<noteq> []"
      unfolding snapshot_from_def kept by simp
  qed (use p1 p2 in \<open>simp_all\<close>)
  then show ?thesis
    unfolding Let_def p2(2) p1(3) p0(3) kept by (simp add: ev_nat_def)
qed

text \<open>C23: order and provenance for every client. Whatever the channel delivers (lagging included),
  whenever a frame fails or the client leaves, the frames a websocket client got are nothing, or the
  ApiVersion frame (with a null id) followed by events with strictly increasing ids, each of them from
  the backlog or received live.\<close>

theorem events_socket_ordered:
  assumes "bus_inv bus"
  shows "\<exists>sent. sorted_wrt (<) (map ev_id sent)
    \<and> set sent \<subseteq> set (bus_backlog bus) \<union> {e. RecvOk e \<in> set (live_recvs es)}
    \<and> (fst (snd (handle_events_socket S network polls bus start_from es log w)) = []
       \<or> (\<exists>v. wait_for_api_version polls = Some v
            \<and> fst (snd (handle_events_socket S network polls bus start_from es log w)) =
                api_version_frame v # map event_frame sent))"
proof -
  obtain sent where sent: "prefix sent (stream_events bus start_from (live_recvs es))"
    and out: "fst (snd (handle_events_socket S network polls bus start_from es log w)) = [] \<and> sent = []
        \<or> (\<exists>v. wait_for_api_version polls = Some v
             \<and> fst (snd (handle_events_socket S network polls bus start_from es log w)) =
                 api_version_frame v # map event_frame sent)"
    using socket_prefix by metis
  have "set sent \<subseteq> set (stream_events bus start_from (live_recvs es))"
    using sent by (auto dest: set_mono_prefix)
  then have "set sent \<subseteq> set (bus_backlog bus) \<union> {e. RecvOk e \<in> set (live_recvs es)}"
    using replayed_set [of bus start_from] by (force simp: stream_events_def dest: live_events_set)
  with sorted_prefix [OF sent stream_events_sorted [OF assms]] out show ?thesis by blast
qed

theorem events_socket_ordered_witness:
  "\<exists>sent. sorted_wrt (<) (map ev_id sent)
    \<and> (fst (snd (handle_events_socket \<lparr>ws_send = (\<lambda>f (w :: nat). (w < 2, Suc w))\<rparr> ''n''
          [snd (remember_api_version JNull (fresh_bus ''n'' 1 1 False))]
          (fresh_bus ''n'' 1 1 False) None
          [Live (Lagged 3), Live (RecvOk \<lparr>ev_id = 4, ev_data = JNull\<rparr>),
           Live (RecvOk \<lparr>ev_id = 5, ev_data = JNull\<rparr>)] [] 0)) = []
       \<or> fst (snd (handle_events_socket \<lparr>ws_send = (\<lambda>f (w :: nat). (w < 2, Suc w))\<rparr> ''n''
          [snd (remember_api_version JNull (fresh_bus ''n'' 1 1 False))]
          (fresh_bus ''n'' 1 1 False) None
          [Live (Lagged 3), Live (RecvOk \<lparr>ev_id = 4, ev_data = JNull\<rparr>),
           Live (RecvOk \<lparr>ev_id = 5, ev_data = JNull\<rparr>)] [] 0)) = api_version_frame JNull # map event_frame sent)"
proof -
  let ?b = "fresh_bus ''n'' 1 1 False"
  have a: "wait_for_api_version [snd (remember_api_version JNull ?b)] = Some JNull"
    by (simp add: api_version_def remember_api_version_def fresh_bus_def Let_def)
  show ?thesis
    using events_socket_ordered [OF fresh_bus_inv [of "''n''" 1 1 False], where
      S = "\<lparr>ws_send = (\<lambda>f (w :: nat). (w < 2, Suc w))\<rparr>" and network = "''n''"
      and polls = "[snd (remember_api_version JNull ?b)]" and start_from = None
      and es = "[Live (Lagged 3), Live (RecvOk \<lparr>ev_id = 4, ev_data = JNull\<rparr>),
           Live (RecvOk \<lparr>ev_id = 5, ev_data = JNull\<rparr>)]" and log = "[]" and w = 0]
    unfolding a option.inject by blast
qed

text \<open>C24: both transports carry the same stream. For the same bus, the same ApiVersion, the same
  starting point and the same channel results, the websocket frames and the SSE frames are the two
  encodings of one sequence of events, after the ApiVersion.\<close>

theorem socket_sse_equivalent:
  assumes "sink_ok S" and "wait_for_api_version polls = Some v"
  shows "\<exists>events.
      fst (snd (handle_events_socket S network polls bus start_from es log w)) =
        api_version_frame v # map event_frame events
    \<and> fst (snd (sse_stream network polls bus start_from (live_recvs es) log)) =
        sse_api_version_event v # map sse_event events"
  using socket_frames [OF assms] sse_frames [OF assms(2)] by blast

theorem socket_sse_equivalent_witness:
  "\<exists>events.
      fst (snd (handle_events_socket \<lparr>ws_send = (\<lambda>f (w :: nat). (True, w))\<rparr> ''n''
        [snd (remember_api_version JNull (fresh_bus ''n'' 1 1 False))]
        (fresh_bus ''n'' 1 1 False) (Some 1) [Live (RecvOk \<lparr>ev_id = 1, ev_data = JInt 7\<rparr>)] [] 0)) =
        api_version_frame JNull # map event_frame events
    \<and> fst (snd (sse_stream ''n'' [snd (remember_api_version JNull (fresh_bus ''n'' 1 1 False))]
        (fresh_bus ''n'' 1 1 False) (Some 1) [RecvOk \<lparr>ev_id = 1, ev_data = JInt 7\<rparr>] [])) =
        sse_api_version_event JNull # map sse_event events"
  using socket_sse_equivalent [where S = "\<lparr>ws_send = (\<lambda>f (w :: nat). (True, w))\<rparr>" and network = "''n''"
      and polls = "[snd (remember_api_version JNull (fresh_bus ''n'' 1 1 False))]" and v = JNull
      and bus = "fresh_bus ''n'' 1 1 False" and start_from = "Some 1"
      and es = "[Live (RecvOk \<lparr>ev_id = 1, ev_data = JInt 7\<rparr>)]" and log = "[]" and w = 0]
  by (simp add: sink_ok_def api_version_def remember_api_version_def fresh_bus_def Let_def)

text \<open>The connection gauge counts open event streams: a websocket handler or SSE stream that has
  returned leaves every gauge as it found it, and one that still runs holds exactly one unit of its
  network's gauge.\<close>

theorem event_stream_gauge:
  "(case handle_events_socket S network polls bus start_from es log w of (ended, out, log', w') \<Rightarrow>
      level sse_connections ls log' =
        level sse_connections ls log + (if ended then 0 else if ls = [network] then 1 else 0))
   \<and> (case sse_stream network polls bus start_from rs log of (ended, out, log') \<Rightarrow>
      level sse_connections ls log' =
        level sse_connections ls log + (if ended then 0 else if ls = [network] then 1 else 0))"
proof -
  let ?g = "events_connection_guard network log"
  have held: "level sse_connections ls (snd ?g) = level sse_connections ls log + (if ls = [network] then 1 else 0)"
    using events_gauge.level_held [of ls network log "[]"] by simp
  have dropped: "level sse_connections ls (drop_guard (fst ?g) (snd ?g)) = level sse_connections ls log"
    using events_gauge.scope_neutral [of sse_connections ls network log "[]"] by simp
  show ?thesis
    using held dropped
    by (auto simp: handle_events_socket_def sse_stream_def Let_def case_prod_unfold
        split: option.splits bool.splits)
qed

end
