(* ===== verification/Event_Interleaving.thy ===== *)
theory Event_Interleaving
  imports Event_Streams
begin

text \<open>
  The event bus between two tasks that run at the same time: the listener, which pushes events and
  stores the ApiVersion, and a client, which follows \<open>handle_events_socket\<close> or \<open>sse_stream\<close>. A step is one
  access to what they share. \<open>push\<close> (\<open>src/state.rs\<close>) takes three: it draws the id, it changes the backlog
  under the lock, and it sends the event on the channel; in between a client may subscribe, take its
  snapshot or receive. The two transports of a client (\<open>src/handlers.rs\<close>) differ in the order of their
  accesses: the websocket waits for the ApiVersion before the snapshot, SSE takes the snapshot first.
  What a client does with the values it has got is the handler of \<open>Event_Streams\<close>. A receiver of the
  channel gets the values in order; it can be told that it lagged once it is more than the capacity of
  the channel behind.
\<close>

section \<open>The parts of a push\<close>

definition push_number :: "json \<Rightarrow> EventBus \<Rightarrow> EventEnvelope \<times> EventBus" where
  "push_number data bus =
     (let i = next_id bus + 1 in (\<lparr>ev_id = i, ev_data = data\<rparr>, bus\<lparr>next_id := i\<rparr>))"

definition push_store :: "EventEnvelope \<Rightarrow> EventBus \<Rightarrow> EventBus" where
  "push_store envelope bus =
     (let backlog = bus_backlog bus @ [envelope]
      in bus\<lparr>bus_backlog := (if unat (backlog_limit bus) < length backlog then tl backlog else backlog)\<rparr>)"

definition push_publish :: "EventEnvelope \<Rightarrow> EventBus \<Rightarrow> EventBus" where
  "push_publish envelope bus = bus\<lparr>bus_sent := bus_sent bus @ [envelope]\<rparr>"

lemma push_parts:
  "push data bus log =
     (let (e, b) = push_number data bus in (e, push_publish e (push_store e b), snd (snd (push data bus log))))"
  by (simp add: push_def push_number_def push_store_def push_publish_def Let_def)

lemma push_parts_fields [simp]:
  "backlog_limit (snd (push_number d b)) = backlog_limit b" "bus_sent (snd (push_number d b)) = bus_sent b"
  "bus_backlog (snd (push_number d b)) = bus_backlog b" "next_id (snd (push_number d b)) = next_id b + 1"
  "ev_id (fst (push_number d b)) = next_id b + 1"
  "bus_capacity (snd (push_number d b)) = bus_capacity b"
  "backlog_limit (push_store e b) = backlog_limit b" "bus_sent (push_store e b) = bus_sent b"
  "next_id (push_store e b) = next_id b" "bus_capacity (push_store e b) = bus_capacity b"
  "backlog_limit (push_publish e b) = backlog_limit b" "bus_sent (push_publish e b) = bus_sent b @ [e]"
  "next_id (push_publish e b) = next_id b" "bus_backlog (push_publish e b) = bus_backlog b"
  "bus_capacity (push_publish e b) = bus_capacity b"
  by (simp_all add: push_number_def push_store_def push_publish_def Let_def)

lemma remember_fields [simp]:
  "backlog_limit (snd (remember_api_version v b)) = backlog_limit b"
  "bus_sent (snd (remember_api_version v b)) = bus_sent b"
  "bus_backlog (snd (remember_api_version v b)) = bus_backlog b"
  "next_id (snd (remember_api_version v b)) = next_id b"
  "bus_capacity (snd (remember_api_version v b)) = bus_capacity b"
  by (simp_all add: remember_api_version_def split: option.splits)

section \<open>The machine\<close>

datatype transport = WebSocketTransport | SseTransport

datatype pusher = PIdle | PNumbered EventEnvelope | PStored EventEnvelope

datatype client_pc = CNew | CSubscribed | CVersioned | CSnapped | CLive

record net =
  n_bus :: EventBus
  n_push :: pusher
  c_pc :: client_pc
  c_sub :: nat
  c_polls :: "EventBus list"
  c_snap :: EventBus
  c_pos :: nat
  c_recvs :: "recv list"

definition net_init :: "string \<Rightarrow> usize \<Rightarrow> usize \<Rightarrow> net \<Rightarrow> bool" where
  "net_init network limit cap s \<longleftrightarrow>
     n_bus s = fresh_bus network limit cap True \<and> n_push s = PIdle
     \<and> c_pc s = CNew \<and> c_polls s = [] \<and> c_recvs s = []"

text \<open>The listener: one push after the other, and the ApiVersion between two pushes.\<close>

inductive writer_step :: "net \<Rightarrow> net \<Rightarrow> bool" where
  draw_id: "n_push s = PIdle \<Longrightarrow> push_number data (n_bus s) = (e, b) \<Longrightarrow>
     writer_step s (s\<lparr>n_bus := b, n_push := PNumbered e\<rparr>)"
| store: "n_push s = PNumbered e \<Longrightarrow>
     writer_step s (s\<lparr>n_bus := push_store e (n_bus s), n_push := PStored e\<rparr>)"
| publish: "n_push s = PStored e \<Longrightarrow>
     writer_step s (s\<lparr>n_bus := push_publish e (n_bus s), n_push := PIdle\<rparr>)"
| remember: "n_push s = PIdle \<Longrightarrow>
     writer_step s (s\<lparr>n_bus := snd (remember_api_version v (n_bus s))\<rparr>)"

text \<open>Where a client polls for the ApiVersion and takes its snapshot, and what comes next.\<close>

fun polls_at :: "transport \<Rightarrow> client_pc" where
  "polls_at WebSocketTransport = CSubscribed"
| "polls_at SseTransport = CSnapped"

fun after_poll :: "transport \<Rightarrow> client_pc" where
  "after_poll WebSocketTransport = CVersioned"
| "after_poll SseTransport = CLive"

fun snaps_at :: "transport \<Rightarrow> client_pc" where
  "snaps_at WebSocketTransport = CVersioned"
| "snaps_at SseTransport = CSubscribed"

fun after_snap :: "transport \<Rightarrow> client_pc" where
  "after_snap WebSocketTransport = CLive"
| "after_snap SseTransport = CSnapped"

inductive client_step :: "transport \<Rightarrow> net \<Rightarrow> net \<Rightarrow> bool" for tr where
  join: "c_pc s = CNew \<Longrightarrow>
     client_step tr s (s\<lparr>c_pc := CSubscribed, c_sub := subscribe (n_bus s), c_pos := subscribe (n_bus s)\<rparr>)"
| poll_none: "c_pc s = polls_at tr \<Longrightarrow> api_version (n_bus s) = None \<Longrightarrow>
     client_step tr s (s\<lparr>c_polls := c_polls s @ [n_bus s]\<rparr>)"
| poll_some: "c_pc s = polls_at tr \<Longrightarrow> api_version (n_bus s) = Some v \<Longrightarrow>
     client_step tr s (s\<lparr>c_polls := c_polls s @ [n_bus s], c_pc := after_poll tr\<rparr>)"
| snap: "c_pc s = snaps_at tr \<Longrightarrow>
     client_step tr s (s\<lparr>c_snap := n_bus s, c_pc := after_snap tr\<rparr>)"
| recv: "c_pc s = CLive \<Longrightarrow> c_pos s < length (bus_sent (n_bus s)) \<Longrightarrow>
     client_step tr s (s\<lparr>c_recvs := c_recvs s @ [RecvOk (bus_sent (n_bus s) ! c_pos s)], c_pos := Suc (c_pos s)\<rparr>)"
| lag: "c_pc s = CLive \<Longrightarrow> 1 \<le> n \<Longrightarrow> c_pos s + unat n + unat (bus_capacity (n_bus s)) \<le> length (bus_sent (n_bus s)) \<Longrightarrow>
     client_step tr s (s\<lparr>c_recvs := c_recvs s @ [Lagged n], c_pos := c_pos s + unat n\<rparr>)"

definition net_step :: "transport \<Rightarrow> net \<Rightarrow> net \<Rightarrow> bool" where
  "net_step tr s t \<longleftrightarrow> writer_step s t \<or> client_step tr s t"

section \<open>The invariant\<close>

text \<open>The history: what was sent, and the event that is in the backlog but not sent yet.\<close>

definition hist :: "net \<Rightarrow> EventEnvelope list" where
  "hist s = bus_sent (n_bus s) @ (case n_push s of PStored e \<Rightarrow> [e] | _ \<Rightarrow> [])"

definition writer_inv :: "usize \<Rightarrow> net \<Rightarrow> bool" where
  "writer_inv limit s \<longleftrightarrow>
     numbered (hist s)
     \<and> backlog_limit (n_bus s) = max limit 1
     \<and> bus_backlog (n_bus s) = drop (length (hist s) - unat (max limit 1)) (hist s)
     \<and> (case n_push s of
          PNumbered e \<Rightarrow> ev_nat e = Suc (length (hist s)) \<and> unat (next_id (n_bus s)) = Suc (length (hist s))
        | _ \<Rightarrow> unat (next_id (n_bus s)) = length (hist s))"

definition snapped :: "transport \<Rightarrow> client_pc \<Rightarrow> bool" where
  "snapped tr pc \<longleftrightarrow> pc = after_snap tr \<or> pc = CLive"

definition versioned :: "transport \<Rightarrow> client_pc \<Rightarrow> bool" where
  "versioned tr pc \<longleftrightarrow> pc = after_poll tr \<or> pc = CLive"

definition client_inv :: "transport \<Rightarrow> usize \<Rightarrow> net \<Rightarrow> bool" where
  "client_inv tr limit s \<longleftrightarrow>
     (c_pc s \<noteq> CNew \<longrightarrow> c_sub s \<le> c_pos s \<and> c_pos s \<le> length (bus_sent (n_bus s)))
     \<and> (c_pc s \<noteq> CLive \<longrightarrow> c_recvs s = [] \<and> (c_pc s \<noteq> CNew \<longrightarrow> c_pos s = c_sub s))
     \<and> (\<forall>e. RecvOk e \<in> set (c_recvs s) \<longrightarrow> e \<in> set (bus_sent (n_bus s)))
     \<and> (list_all is_recv_ok (c_recvs s) \<and> c_pc s \<noteq> CNew \<longrightarrow>
          c_recvs s = map RecvOk (drop (c_sub s) (take (c_pos s) (bus_sent (n_bus s)))))
     \<and> (snapped tr (c_pc s) \<longrightarrow>
          (\<exists>h. c_sub s \<le> h \<and> h \<le> length (hist s)
             \<and> bus_backlog (c_snap s) = drop (h - unat (max limit 1)) (take h (hist s))))
     \<and> (if versioned tr (c_pc s) then wait_for_api_version (c_polls s) \<noteq> None
        else wait_for_api_version (c_polls s) = None)"

lemma wait_snoc:
  "wait_for_api_version (bs @ [b]) =
     (case wait_for_api_version bs of Some v \<Rightarrow> Some v | None \<Rightarrow> api_version b)"
  by (induction bs) (auto split: option.splits)

lemma transport_pcs [simp]:
  "snaps_at tr \<noteq> CNew" "snaps_at tr \<noteq> CLive" "polls_at tr \<noteq> CNew" "polls_at tr \<noteq> CLive"
  "after_snap tr \<noteq> CNew" "after_poll tr \<noteq> CNew"
  "\<not> snapped tr CNew" "\<not> snapped tr CSubscribed" "snapped tr CLive" "snapped tr (after_snap tr)"
  "\<not> snapped tr (snaps_at tr)" "snapped tr (after_poll tr) \<longleftrightarrow> snapped tr (polls_at tr)"
  "\<not> versioned tr CNew" "\<not> versioned tr CSubscribed" "versioned tr CLive" "versioned tr (after_poll tr)"
  "\<not> versioned tr (polls_at tr)" "versioned tr (after_snap tr) \<longleftrightarrow> versioned tr (snaps_at tr)"
  by (cases tr; simp add: snapped_def versioned_def)+

lemma client_invD:
  assumes "client_inv tr limit s"
  shows "c_pc s \<noteq> CNew \<Longrightarrow> c_sub s \<le> c_pos s \<and> c_pos s \<le> length (bus_sent (n_bus s))"
    and "RecvOk e \<in> set (c_recvs s) \<Longrightarrow> e \<in> set (bus_sent (n_bus s))"
    and "list_all is_recv_ok (c_recvs s) \<Longrightarrow> c_pc s \<noteq> CNew \<Longrightarrow>
      c_recvs s = map RecvOk (drop (c_sub s) (take (c_pos s) (bus_sent (n_bus s))))"
    and "snapped tr (c_pc s) \<Longrightarrow> \<exists>h. c_sub s \<le> h \<and> h \<le> length (hist s)
      \<and> bus_backlog (c_snap s) = drop (h - unat (max limit 1)) (take h (hist s))"
    and "versioned tr (c_pc s) \<Longrightarrow> wait_for_api_version (c_polls s) \<noteq> None"
  using assms unfolding client_inv_def by (elim conjE; metis)+

section \<open>The invariant holds\<close>

lemma writer_grows:
  assumes "writer_step s t"
  shows "\<exists>x y. bus_sent (n_bus t) = bus_sent (n_bus s) @ x \<and> hist t = hist s @ y"
    and "c_pc t = c_pc s" "c_sub t = c_sub s" "c_polls t = c_polls s" "c_snap t = c_snap s"
      "c_pos t = c_pos s" "c_recvs t = c_recvs s"
proof -
  have ok: "snd (push_number d b) = b' \<Longrightarrow> bus_sent b' = bus_sent b" for d b b' by auto
  from assms show "\<exists>x y. bus_sent (n_bus t) = bus_sent (n_bus s) @ x \<and> hist t = hist s @ y"
    by cases (auto simp: hist_def push_number_def Let_def)
qed (use assms in \<open>cases; simp\<close>)+

lemma client_keeps:
  assumes "client_step tr s t"
  shows "n_bus t = n_bus s" "n_push t = n_push s" "hist t = hist s"
  using assms by (cases; simp add: hist_def)+

lemma writer_inv_step:
  assumes "writer_step s t" and "writer_inv limit s" and "length (hist t) + 1 < 2 ^ 64"
  shows "writer_inv limit t"
  using assms(1)
proof cases
  case (draw_id data e b)
  have h: "hist t = hist s" using draw_id by (auto simp: hist_def push_number_def Let_def)
  have e: "e = fst (push_number data (n_bus s))" "b = snd (push_number data (n_bus s))" using draw_id by simp_all
  have "unat (next_id (n_bus s) + 1) = Suc (length (hist s))"
    using assms(2,3) h draw_id(2) by (subst unat_Suc_u64) (simp_all add: writer_inv_def)
  then show ?thesis using assms(2) draw_id(2) unfolding writer_inv_def h
    by (simp add: draw_id(1) e ev_nat_def)
next
  case (store e)
  have h: "hist t = hist s @ [e]" using store by (simp add: hist_def)
  show ?thesis
    using assms(2) store drop_snoc_window [of "unat (max limit 1)" "hist s" e] unat_max_1 [of limit]
    unfolding writer_inv_def h by (simp add: push_store_def Let_def)
next
  case (publish e)
  then have "hist t = hist s" by (simp add: hist_def)
  then show ?thesis using assms(2) publish by (simp add: writer_inv_def)
next
  case (remember v)
  then have "hist t = hist s" by (simp add: hist_def)
  then show ?thesis using assms(2) remember by (simp add: writer_inv_def)
qed

lemma client_inv_writer:
  assumes "writer_step s t" and inv: "client_inv tr limit s"
  shows "client_inv tr limit t"
proof -
  obtain x y where g: "bus_sent (n_bus t) = bus_sent (n_bus s) @ x" "hist t = hist s @ y"
    using writer_grows(1) [OF assms(1)] by blast
  have len: "c_pc s \<noteq> CNew \<Longrightarrow> c_pos s \<le> length (bus_sent (n_bus s))" using inv by (simp add: client_inv_def)
  have snap: "\<exists>h. c_sub s \<le> h \<and> h \<le> length (hist t)
      \<and> bus_backlog (c_snap s) = drop (h - unat (max limit 1)) (take h (hist t))"
    if sn: "snapped tr (c_pc s)"
  proof -
    obtain h where "c_sub s \<le> h" "h \<le> length (hist s)"
      "bus_backlog (c_snap s) = drop (h - unat (max limit 1)) (take h (hist s))"
      using client_invD(4) [OF inv sn] by blast
    then show ?thesis by (intro exI [of _ h]) (simp add: g(2))
  qed
  have recvs: "c_recvs s = map RecvOk (drop (c_sub s) (take (c_pos s) (bus_sent (n_bus t))))"
    if "list_all is_recv_ok (c_recvs s) \<and> c_pc s \<noteq> CNew"
    using that inv len by (simp add: client_inv_def g(1))
  have pos: "c_pc s \<noteq> CNew \<longrightarrow> c_sub s \<le> c_pos s \<and> c_pos s \<le> length (bus_sent (n_bus t))"
    using client_invD(1) [OF inv] by (auto simp: g(1))
  have got: "\<forall>e. RecvOk e \<in> set (c_recvs s) \<longrightarrow> e \<in> set (bus_sent (n_bus t))"
    using client_invD(2) [OF inv] by (simp add: g(1))
  show ?thesis
    using inv pos got snap recvs unfolding client_inv_def writer_grows(2-) [OF assms(1)] by blast
qed

lemma client_inv_client:
  assumes "client_step tr s t" and inv: "client_inv tr limit s" and w: "writer_inv limit s"
  shows "client_inv tr limit t"
  using assms(1)
proof cases
  case join
  then show ?thesis using inv by (simp add: client_inv_def subscribe_def)
next
  case poll_none
  then show ?thesis using inv by (simp add: client_inv_def wait_snoc hist_def split: option.splits)
next
  case (poll_some v)
  then show ?thesis using inv by (simp add: client_inv_def wait_snoc hist_def split: option.splits)
next
  case snap
  have "bus_backlog (n_bus s) = drop (length (hist s) - unat (max limit 1)) (take (length (hist s)) (hist s))"
    using w by (simp add: writer_inv_def)
  moreover have "c_sub s \<le> length (hist s)" using inv snap by (auto simp: client_inv_def hist_def)
  ultimately have "\<exists>h. c_sub s \<le> h \<and> h \<le> length (hist t)
      \<and> bus_backlog (n_bus s) = drop (h - unat (max limit 1)) (take h (hist t))"
    unfolding client_keeps(3) [OF assms(1)] by blast
  then show ?thesis using inv snap unfolding client_inv_def by simp
next
  case recv
  then have "drop (c_sub s) (take (Suc (c_pos s)) (bus_sent (n_bus s)))
      = drop (c_sub s) (take (c_pos s) (bus_sent (n_bus s))) @ [bus_sent (n_bus s) ! c_pos s]"
    using inv by (simp add: client_inv_def take_Suc_conv_app_nth)
  then show ?thesis using inv recv by (auto simp: client_inv_def hist_def)
next
  case (lag n)
  then show ?thesis using inv by (auto simp: client_inv_def hist_def)
qed

definition net_inv :: "transport \<Rightarrow> usize \<Rightarrow> net \<Rightarrow> bool" where
  "net_inv tr limit s \<longleftrightarrow> (length (hist s) + 1 < 2 ^ 64 \<longrightarrow> writer_inv limit s \<and> client_inv tr limit s)"

lemma net_inv_init: "net_init network limit cap s \<Longrightarrow> net_inv tr limit s"
  by (simp add: net_init_def net_inv_def writer_inv_def client_inv_def hist_def fresh_bus_def Let_def)

lemma net_inv_step: "net_inv tr limit s \<Longrightarrow> net_step tr s t \<Longrightarrow> net_inv tr limit t"
  unfolding net_step_def
proof (elim disjE)
  assume inv: "net_inv tr limit s" and w: "writer_step s t"
  have "length (hist s) \<le> length (hist t)" using writer_grows(1) [OF w] by auto
  then show "net_inv tr limit t"
    using inv writer_inv_step [OF w] client_inv_writer [OF w] by (simp add: net_inv_def)
next
  assume inv: "net_inv tr limit s" and c: "client_step tr s t"
  have "writer_inv limit t \<longleftrightarrow> writer_inv limit s" unfolding writer_inv_def client_keeps [OF c] ..
  then show "net_inv tr limit t"
    using inv client_inv_client [OF c] by (simp add: net_inv_def client_keeps(3) [OF c])
qed

interpretation net: invariant_system "net_init network limit cap" "net_step tr" "net_inv tr limit"
  by unfold_locales (auto intro: net_inv_init net_inv_step)

section \<open>Replay and live events of a numbered history\<close>

lemma numbered_drop_above:
  assumes "numbered es" and "x \<in> set (drop k es)"
  shows "k < ev_nat x"
proof -
  have "min (length es) k = k" using assms(2) by (cases "k \<le> length es") auto
  then show ?thesis using numbered_append_above [of "take k es" "drop k es" x] assms by simp
qed

lemma numbered_filter_ge:
  assumes "numbered es"
  shows "filter (\<lambda>e. lo \<le> ev_nat e) es = drop (lo - 1) es"
proof -
  have "filter (\<lambda>e. lo \<le> ev_nat e) (take (lo - 1) es) = []"
  proof (rule filter_False, rule ballI)
    fix e
    assume "e \<in> set (take (lo - 1) es)"
    moreover have "numbered (take (lo - 1) es)"
      using assms numbered_appendD1 [of "take (lo - 1) es" "drop (lo - 1) es"] by simp
    ultimately have "1 \<le> ev_nat e \<and> ev_nat e \<le> lo - 1"
      using numbered_in_set [of "take (lo - 1) es" e] by auto
    then show "\<not> lo \<le> ev_nat e" by arith
  qed
  moreover have "filter (\<lambda>e. lo \<le> ev_nat e) (drop (lo - 1) es) = drop (lo - 1) es"
    using numbered_drop_above [OF assms, of _ "lo - 1"] by (fastforce simp: filter_id_conv)
  ultimately show ?thesis by (metis append_Nil append_take_drop_id filter_append)
qed

lemma numbered_take: "numbered es \<Longrightarrow> numbered (take n es)"
  using numbered_appendD1 [of "take n es" "drop n es"] by simp

lemma live_of_history:
  assumes "numbered es" and "p0 \<le> unat l"
  shows "live_events (map RecvOk (drop p0 es)) l = drop (unat l) es"
proof -
  have "live_events (map RecvOk (drop p0 es)) l = filter (\<lambda>e. Suc (unat l) \<le> ev_nat e) (drop p0 es)"
    using live_events_sorted [OF sorted_ev_drop [OF numbered_sorted [OF assms(1)]], of p0 l]
    by (simp add: word_less_nat_alt ev_nat_def Suc_le_eq)
  also have "\<dots> = drop (unat l) es"
    using numbered_filter_drop [OF assms(1), of p0 "Suc (unat l)"] numbered_filter_ge [OF assms(1), of "Suc (unat l)"]
      assms(2) by simp
  finally show ?thesis .
qed

lemma live_from_start:
  assumes "numbered es"
  shows "live_events (map RecvOk (drop p0 es)) 0 = drop p0 es"
proof -
  have "live_events (map RecvOk (drop p0 es)) 0 = filter (\<lambda>e. Suc 0 \<le> ev_nat e) (drop p0 es)"
    using live_events_sorted [OF sorted_ev_drop [OF numbered_sorted [OF assms]], of p0 0]
    by (simp add: word_less_nat_alt ev_nat_def Suc_le_eq)
  also have "\<dots> = drop p0 es"
    using numbered_drop_above [OF assms, of _ p0] by (fastforce simp: filter_id_conv)
  finally show ?thesis .
qed

text \<open>A snapshot is a stretch of the history that ends with its newest event.\<close>

lemma window_filter:
  assumes "numbered es"
  shows "filter (\<lambda>e. s \<le> ev_id e) (drop k es) = drop (max (unat s) (Suc k) - 1) es"
proof -
  have "filter (\<lambda>e. s \<le> ev_id e) (drop k es) = filter (\<lambda>e. max (unat s) (Suc k) \<le> ev_nat e) (drop k es)"
  proof (rule filter_cong [OF refl])
    fix x
    assume x: "x \<in> set (drop k es)"
    then have "Suc k \<le> ev_nat x" using numbered_drop_above [OF assms] by (simp add: Suc_le_eq)
    then show "s \<le> ev_id x \<longleftrightarrow> max (unat s) (Suc k) \<le> ev_nat x" by (simp add: word_le_nat_alt ev_nat_def)
  qed
  also have "\<dots> = drop (max (unat s) (Suc k) - 1) es"
    using numbered_filter_drop [OF assms, of k "max (unat s) (Suc k)"]
      numbered_filter_ge [OF assms, of "max (unat s) (Suc k)"] by simp
  finally show ?thesis .
qed

text \<open>The first event a client gets, and how far it has come.\<close>

definition first_event :: "EventBus \<Rightarrow> u64 option \<Rightarrow> nat \<Rightarrow> nat" where
  "first_event snap start_from sub =
     (if replayed snap start_from = [] then Suc sub else ev_nat (hd (replayed snap start_from)))"

lemma stream_of_history:
  assumes H: "numbered H" and h: "h \<le> length H" "p0 \<le> h" and p: "p0 \<le> p" "p \<le> length H"
    and backlog: "bus_backlog b = drop (h - L) (take h H)"
  shows "\<exists>upto. p \<le> upto \<and> upto \<le> length H
    \<and> stream_events b start_from (map RecvOk (drop p0 (take p H)))
        = drop (first_event b start_from p0 - 1) (take upto H)"
proof (cases "replayed b start_from = []")
  case True
  then show ?thesis
    using live_from_start [OF numbered_take [OF H], of p0 p] p
    by (intro exI [of _ p]) (simp add: stream_events_def last_id_of_def first_event_def)
next
  case False
  then obtain s where s: "start_from = Some s" by (auto simp: replayed_def split: option.splits)
  let ?lo = "max (unat s) (Suc (h - L))"
  have R: "replayed b start_from = drop (?lo - 1) (take h H)"
    using window_filter [OF numbered_take [OF H], of s "h - L" h] by (simp add: s replayed_def snapshot_from_def backlog)
  then have lo: "?lo - 1 < h" using False h(1) by (cases "h \<le> ?lo - 1") auto
  have nth: "i < length H \<Longrightarrow> ev_nat (H ! i) = Suc i" for i using H by (simp add: numbered_def)
  have "ev_nat (hd (replayed b start_from)) = ?lo"
    unfolding R using lo h nth [of "?lo - 1"] by (simp add: hd_drop_conv_nth)
  then have first: "first_event b start_from p0 = ?lo" using False by (simp add: first_event_def)
  have "last (replayed b start_from) = last (take h H)" unfolding R using lo h by (intro last_drop) simp
  also have "\<dots> = H ! (h - 1)" using lo h by (subst last_conv_nth) auto
  finally have "unat (last_id_of (replayed b start_from)) = h"
    using False lo h nth [of "h - 1"] by (simp add: last_id_of_def ev_nat_def)
  then have live: "live_events (map RecvOk (drop p0 (take p H))) (last_id_of (replayed b start_from))
      = drop h (take p H)"
    using live_of_history [OF numbered_take [OF H], of p0 "last_id_of (replayed b start_from)" p] h(2) by simp
  have "drop (?lo - 1) (take h H) @ drop h (take p H) = drop (?lo - 1) (take (max h p) H)"
  proof (cases "p \<le> h")
    case False
    then have "take p H = take h H @ drop h (take p H)" using append_take_drop_id [of h "take p H"] by (simp add: min_def)
    then show ?thesis using False lo h by (metis drop_append diff_is_0_eq' drop_0 length_take less_imp_le_nat max.absorb2 min.absorb2 nle_le)
  qed (simp add: max_def)
  then show ?thesis
    using live R h p by (intro exI [of _ "max h p"]) (simp add: stream_events_def first)
qed

lemma live_recvs_map [simp]: "live_recvs (map Live rs) = rs"
  by (induction rs) simp_all

lemma stream_ordered:
  assumes "numbered H" and "bus_backlog b = drop k (take h H)" and "\<forall>e. RecvOk e \<in> set rs \<longrightarrow> e \<in> set H"
  shows "sorted_wrt (<) (map ev_id (stream_events b start_from rs)) \<and> set (stream_events b start_from rs) \<subseteq> set H"
proof -
  have kept: "sorted_wrt (<) (map ev_id (replayed b start_from))"
    using numbered_sorted [OF numbered_take [OF assms(1)], of h]
    by (cases start_from) (simp_all add: replayed_def snapshot_from_def assms(2) sorted_ev_filter sorted_ev_drop)
  have "set (replayed b start_from) \<subseteq> set (take h H)"
    using replayed_set [of b start_from] set_drop_subset [of k "take h H"] by (auto simp: assms(2))
  then have "set (replayed b start_from) \<subseteq> set H" using set_take_subset [of h H] by auto
  then have "set (stream_events b start_from rs) \<subseteq> set H"
    using assms(3) by (auto simp: stream_events_def dest!: live_events_set)
  moreover have "sorted_wrt (<) (map ev_id (stream_events b start_from rs))"
    unfolding stream_events_def
    by (rule sorted_join [OF kept]) (simp_all add: live_events_above live_events_increasing)
  ultimately show ?thesis by blast
qed

section \<open>Properties\<close>

text \<open>C4: replay and live stream fit together in every interleaving. The listener and a client run at the same
  time, and the client may subscribe, snapshot and receive in the middle of a push, over either
  transport. Once the client is in its live phase, the frames it has been sent are the ApiVersion and
  then events of the history with strictly increasing ids, even when the channel told it that it
  lagged. As long as it has not lagged, they are a gapless stretch of the history: from the first
  event of its snapshot (its subscription when the snapshot has none) up to at least the last value it
  has received, so that a client that has received everything sent has got everything.\<close>

theorem interleaved_stream_no_gap:
  assumes "reach (net_init network limit cap) (net_step tr) s"
    and "length (hist s) + 1 < 2 ^ 64" and "c_pc s = CLive" and "sink_ok S"
  shows "\<exists>v events.
    (case tr of
       WebSocketTransport \<Rightarrow>
         fst (snd (handle_events_socket S network (c_polls s) (c_snap s) start_from (map Live (c_recvs s)) log w))
           = api_version_frame v # map event_frame events
     | SseTransport \<Rightarrow>
         fst (snd (sse_stream network (c_polls s) (c_snap s) start_from (c_recvs s) log))
           = sse_api_version_event v # map sse_event events)
    \<and> sorted_wrt (<) (map ev_id events) \<and> set events \<subseteq> set (hist s)
    \<and> (list_all is_recv_ok (c_recvs s) \<longrightarrow>
         (\<exists>upto. c_pos s \<le> upto \<and> upto \<le> length (hist s)
            \<and> events = drop (first_event (c_snap s) start_from (c_sub s) - 1) (take upto (hist s))))"
proof -
  have w: "writer_inv limit s" and c: "client_inv tr limit s"
    using net.inv_reach [OF assms(1)] assms(2) by (auto simp: net_inv_def)
  have num: "numbered (hist s)" using w by (simp add: writer_inv_def)
  have sent: "set (bus_sent (n_bus s)) \<subseteq> set (hist s)" "take (c_pos s) (bus_sent (n_bus s)) = take (c_pos s) (hist s)"
    "c_sub s \<le> c_pos s" "c_pos s \<le> length (hist s)"
    using client_invD(1) [OF c] assms(3) by (auto simp: hist_def)
  obtain v where v: "wait_for_api_version (c_polls s) = Some v" using client_invD(5) [OF c] assms(3) by auto
  obtain h where h: "c_sub s \<le> h" "h \<le> length (hist s)"
    "bus_backlog (c_snap s) = drop (h - unat (max limit 1)) (take h (hist s))"
    using client_invD(4) [OF c] assms(3) by auto
  let ?events = "stream_events (c_snap s) start_from (c_recvs s)"
  have ord: "sorted_wrt (<) (map ev_id ?events) \<and> set ?events \<subseteq> set (hist s)"
    using stream_ordered [OF num h(3)] client_invD(2) [OF c] sent(1) by blast
  have exact: "\<exists>upto. c_pos s \<le> upto \<and> upto \<le> length (hist s)
      \<and> ?events = drop (first_event (c_snap s) start_from (c_sub s) - 1) (take upto (hist s))"
    if "list_all is_recv_ok (c_recvs s)"
    using stream_of_history [OF num h(2,1) sent(3,4) h(3)] client_invD(3) [OF c that] assms(3) sent(2) by simp
  show ?thesis
    using socket_frames [OF assms(4) v] sse_frames [OF v] ord exact
    by (intro exI [of _ v] exI [of _ ?events]) (simp split: transport.splits)
qed

text \<open>A run in which the snapshot falls between the two halves of a push: the event is replayed, and the
  same event that the channel delivers afterwards is not sent again.\<close>

definition race_bus :: EventBus where
  "race_bus = snd (remember_api_version (JString ''2.0.0'') (fresh_bus ''n'' 8 8 True))"

definition race_event :: EventEnvelope where
  "race_event = \<lparr>ev_id = 1, ev_data = JInt 7\<rparr>"

definition race_numbered :: EventBus where
  "race_numbered = snd (push_number (JInt 7) race_bus)"

definition race_stored :: EventBus where
  "race_stored = push_store race_event race_numbered"

definition race_state :: net where
  "race_state =
     \<lparr>n_bus = push_publish race_event race_stored, n_push = PIdle, c_pc = CLive, c_sub = 0,
      c_polls = [race_bus], c_snap = race_stored, c_pos = 1, c_recvs = [RecvOk race_event]\<rparr>"

lemma race_bus_fields:
  "api_version race_bus = Some (JString ''2.0.0'')" "bus_sent race_bus = []" "next_id race_bus = 0"
  "bus_sent race_stored = []" "bus_backlog race_stored = [race_event]"
  "push_number (JInt 7) race_bus = (race_event, race_numbered)"
  by (simp_all add: race_bus_def race_stored_def race_numbered_def race_event_def push_store_def push_number_def Let_def
      fresh_bus_def remember_api_version_def api_version_def max_def word_le_nat_alt)

lemma race_reached: "reach (net_init ''n'' 8 8) (net_step WebSocketTransport) race_state"
proof -
  let ?st = "\<lambda>b p pc polls snap pos rs. \<lparr>n_bus = b, n_push = p, c_pc = pc, c_sub = 0, c_polls = polls,
      c_snap = snap, c_pos = pos, c_recvs = rs\<rparr>"
  let ?b0 = "fresh_bus ''n'' 8 8 True" and ?b2 = race_numbered
  let ?R = "reach (net_init ''n'' 8 8) (net_step WebSocketTransport)"
  note w = reach_step [where init = "net_init ''n'' 8 8" and step = "net_step WebSocketTransport"]
  have "?R (?st ?b0 PIdle CNew [] ?b0 0 [])" by (rule reach_init) (simp add: net_init_def)
  then have "?R (?st race_bus PIdle CNew [] ?b0 0 [])"
    by (rule w) (use remember [of "?st ?b0 PIdle CNew [] ?b0 0 []" "JString ''2.0.0''"] in
        \<open>simp add: net_step_def race_bus_def\<close>)
  then have "?R (?st race_bus PIdle CSubscribed [] ?b0 0 [])"
    by (rule w) (use join [of "?st race_bus PIdle CNew [] ?b0 0 []"] in
        \<open>simp add: net_step_def subscribe_def race_bus_fields\<close>)
  then have "?R (?st race_bus PIdle CVersioned [race_bus] ?b0 0 [])"
    by (rule w) (use poll_some [of "?st race_bus PIdle CSubscribed [] ?b0 0 []" WebSocketTransport] in
        \<open>simp add: net_step_def race_bus_fields\<close>)
  then have "?R (?st ?b2 (PNumbered race_event) CVersioned [race_bus] ?b0 0 [])"
    by (rule w) (use draw_id [of "?st race_bus PIdle CVersioned [race_bus] ?b0 0 []" "JInt 7" race_event ?b2] in
        \<open>simp add: net_step_def race_bus_fields(6)\<close>)
  then have "?R (?st race_stored (PStored race_event) CVersioned [race_bus] ?b0 0 [])"
    by (rule w) (use store [of "?st ?b2 (PNumbered race_event) CVersioned [race_bus] ?b0 0 []" race_event] in
        \<open>simp add: net_step_def race_stored_def\<close>)
  then have "?R (?st race_stored (PStored race_event) CLive [race_bus] race_stored 0 [])"
    by (rule w) (use snap [of "?st race_stored (PStored race_event) CVersioned [race_bus] ?b0 0 []" WebSocketTransport] in
        \<open>simp add: net_step_def\<close>)
  then have "?R (?st (push_publish race_event race_stored) PIdle CLive [race_bus] race_stored 0 [])"
    by (rule w) (use publish [of "?st race_stored (PStored race_event) CLive [race_bus] race_stored 0 []" race_event] in
        \<open>simp add: net_step_def\<close>)
  then show ?thesis
    by (rule w) (use recv [of "?st (push_publish race_event race_stored) PIdle CLive [race_bus] race_stored 0 []"] in
        \<open>simp add: net_step_def race_state_def race_bus_fields\<close>)
qed

theorem interleaved_stream_no_gap_witness:
  "\<exists>v. fst (snd (handle_events_socket \<lparr>ws_send = \<lambda>f w :: nat. (True, w)\<rparr> ''n'' (c_polls race_state) (c_snap race_state)
       (Some 1) (map Live (c_recvs race_state)) [] 0)) = [api_version_frame v, event_frame race_event]"
proof -
  have h: "hist race_state = [race_event]" by (simp add: hist_def race_state_def race_bus_fields)
  have f: "first_event (c_snap race_state) (Some 1) (c_sub race_state) = 1"
    by (simp add: first_event_def race_state_def replayed_def snapshot_from_def race_bus_fields)
       (simp add: race_event_def ev_nat_def)
  have sink: "sink_ok \<lparr>ws_send = \<lambda>f w :: nat. (True, w)\<rparr>" by (simp add: sink_ok_def)
  have live: "c_pc race_state = CLive" and ok: "list_all is_recv_ok (c_recvs race_state)"
    and pos: "c_pos race_state = 1" by (simp_all add: race_state_def)
  have len: "length (hist race_state) + 1 < 2 ^ 64" by (simp add: h)
  obtain v events upto where
    out: "fst (snd (handle_events_socket \<lparr>ws_send = \<lambda>f w :: nat. (True, w)\<rparr> ''n'' (c_polls race_state)
      (c_snap race_state) (Some 1) (map Live (c_recvs race_state)) [] 0)) = api_version_frame v # map event_frame events"
    and "1 \<le> upto" "upto \<le> length (hist race_state)" "events = drop 0 (take upto (hist race_state))"
    using interleaved_stream_no_gap [OF race_reached len live sink, of "Some 1" "[]" 0] ok
    unfolding f pos by auto
  then have "events = [race_event]" using h by simp
  with out show ?thesis by (intro exI [of _ v]) simp
qed

end
