(* ===== verification/Event_Bus_Tests.thy ===== *)
theory Event_Bus_Tests
  imports Event_Bus
begin

text \<open>
  The unit tests of \<open>src/state.rs\<close> as executable definitions, each evaluated by the kernel: a check that the
  model of the bus computes what the tests of the code expect.
\<close>

definition test_value :: "int \<Rightarrow> json" where
  "test_value i = JObject [(''value'', JInt i)]"

text \<open>\<open>for i in 0..n\<close> of the tests.\<close>

definition push_range :: "nat \<Rightarrow> EventBus \<Rightarrow> EventBus" where
  "push_range n bus = foldl (\<lambda>bus i. fst (snd (push (test_value (int i)) bus []))) bus [0..<n]"

definition event_bus_assigns_incrementing_ids :: bool where
  "event_bus_assigns_incrementing_ids =
     (let bus = fresh_bus ''test'' 8 16 False;
          (first, bus, log) = push (test_value 1) bus [];
          (second, bus, log) = push (test_value 2) bus log
      in ev_id first = 1 \<and> ev_id second = 2)"

definition event_bus_enforces_backlog_limit :: bool where
  "event_bus_enforces_backlog_limit =
     (let bus = push_range 5 (fresh_bus ''test'' 3 16 False);
          snapshot = snapshot_from bus 1
      in map ev_id snapshot = [3, 4, 5])"

definition event_bus_snapshot_is_inclusive :: bool where
  "event_bus_snapshot_is_inclusive =
     (let bus = push_range 4 (fresh_bus ''test'' 4 16 False);
          snapshot = snapshot_from bus 3
      in map ev_id snapshot = [3, 4])"

theorem event_bus_tests_pass:
  "event_bus_assigns_incrementing_ids" "event_bus_enforces_backlog_limit" "event_bus_snapshot_is_inclusive"
  by code_simp+

end
