(* ===== verification/Binary_Codec.thy ===== *)
theory Binary_Codec
  imports Prelude
begin

text \<open>
  \<open>src/binary_proxy.rs\<close>, the codec half: classifying a binary-port request (\<open>parse_request\<close>) and
  rewriting a response so that it tells no client about the peers of the node
  (\<open>rewrite_response_bytes\<close> and what it calls). The wire formats are those of the crates
  \<open>casper_binary_port\<close> and \<open>casper_types\<close>: every function of theirs that the source calls is a field of
  the parameter \<open>casper\<close>. What the source matches on is a datatype: the response types (the match of
  \<open>rewrite_response_bytes\<close> has no wildcard, so it lists them all), the four error codes it uses, and the
  two request constructors it looks for. Log output is not modelled.
\<close>

named_theorems codec_defs \<open>the codec operations\<close>

section \<open>Types of the wire format\<close>

datatype bytesrepr_error = LeftOverBytes | OtherError string

datatype ErrorCode = FunctionDisabled | UnsupportedRequest | BadRequest | InternalError

text \<open>A dictionary of the traits \<open>FromBytes\<close> and \<open>ToBytes\<close> for one type.\<close>

record 'v codec =
  from_bytes :: "bytes \<Rightarrow> ('v \<times> bytes, bytesrepr_error) result"
  to_bytes :: "'v \<Rightarrow> (bytes, bytesrepr_error) result"

datatype ResponseType =
    RT_Peers | RT_NodeStatus | RT_BlockHeaderV1 | RT_BlockHeader | RT_BlockBodyV1 | RT_BlockBody
  | RT_ApprovalsHashesV1 | RT_ApprovalsHashes | RT_BlockSignaturesV1 | RT_BlockSignatures | RT_Deploy
  | RT_Transaction | RT_ExecutionResultV1 | RT_ExecutionResult | RT_WasmV1Result | RT_Transfers
  | RT_FinalizedDeployApprovals | RT_FinalizedApprovals | RT_BlockWithSignatures
  | RT_TransactionWithExecutionInfo | RT_LastProgress | RT_ReactorState | RT_NetworkName
  | RT_ConsensusValidatorChanges | RT_BlockSynchronizerStatus | RT_AvailableBlockRange | RT_NextUpgrade
  | RT_ConsensusStatus | RT_ChainspecRawBytes | RT_Uptime | RT_HighestBlockSequenceCheckResult
  | RT_SpeculativeExecutionResult | RT_GlobalStateQueryResult | RT_StoredValues | RT_GetTrieFullResult
  | RT_DictionaryQueryResult | RT_BalanceResponse | RT_Reward | RT_ProtocolVersion
  | RT_ContractPackageWithProof | RT_ContractInformation | RT_AccountInformation | RT_PackageWithProof
  | RT_AddressableEntityInformation

text \<open>The third-party types a payload is decoded as.\<close>

datatype payload_type =
    T_BlockHeaderV1 | T_BlockHeader | T_BlockBodyV1 | T_BlockBody | T_BlockSignaturesV1
  | T_BlockSignatures | T_Deploy | T_Transaction | T_ExecutionResultV1 | T_ExecutionResult
  | T_Vec_Transfer | T_Vec_Approval | T_BlockWithSignatures | T_TransactionWithExecutionInfo
  | T_LastProgress | T_ReactorStateName | T_NetworkName | T_ConsensusValidatorChanges
  | T_BlockSynchronizerStatus | T_AvailableBlockRange | T_NextUpgrade | T_ConsensusStatus
  | T_ChainspecRawBytes | T_Uptime | T_SpeculativeExecutionResult | T_GlobalStateQueryResult
  | T_Vec_StoredValue | T_GetTrieFullResult | T_DictionaryQueryResult | T_BalanceResponse
  | T_RewardResponse | T_ProtocolVersion | T_ValueWithProof_ContractPackage | T_ContractInformation
  | T_AccountInformation | T_ValueWithProof_Package | T_AddressableEntityInformation

text \<open>A node status: the field the proxy replaces, and the rest.\<close>

record 'st NodeStatus =
  peers :: "(string \<times> string) list"
  status_rest :: 'st

record CommandHeader =
  hdr_version :: u16
  hdr_type_tag :: u8
  hdr_id :: u16

text \<open>\<open>Command::Get(GetRequest::Information { info_type_tag, key })\<close>, and every other command.\<close>

datatype Command = Get_Information u8 bytes | Other_Command

datatype InformationRequest = Peers_request | Other_Information

text \<open>
  The functions of the two crates. A tag is its discriminant. \<open>rr\<close> is \<open>BinaryResponseAndRequest\<close>:
  \<open>rr_new\<close>, \<open>rr_request\<close>, \<open>rr_response\<close> (the conversion into \<open>BinaryResponse\<close>) and \<open>rr_response_ref\<close>
  (the accessor \<open>response()\<close>).
\<close>

record ('resp, 'rr, 'st, 'val) casper =
  header_from_bytes :: "bytes \<Rightarrow> (CommandHeader \<times> bytes, bytesrepr_error) result"
  HEADER_VERSION :: u16
  command_tag :: "u8 \<Rightarrow> u8 option"
  command_try_from :: "u8 \<Rightarrow> bytes \<Rightarrow> (Command, bytesrepr_error) result"
  information_tag :: "u8 \<Rightarrow> u8 option"
  information_try_from :: "u8 \<Rightarrow> bytes \<Rightarrow> (InformationRequest, bytesrepr_error) result"
  new_error :: "ErrorCode \<Rightarrow> 'resp"
  from_raw_bytes :: "ResponseType \<Rightarrow> bytes \<Rightarrow> 'resp"
  is_success :: "'resp \<Rightarrow> bool"
  resp_error_code :: "'resp \<Rightarrow> u16"
  response_payload :: "'resp \<Rightarrow> bytes"
  returned_data_type_tag :: "'resp \<Rightarrow> u8 option"
  response_type_of :: "u8 \<Rightarrow> ResponseType option"
  response_codec :: "'resp codec"
  rr_new :: "'resp \<Rightarrow> bytes \<Rightarrow> 'rr"
  rr_request :: "'rr \<Rightarrow> bytes"
  rr_response :: "'rr \<Rightarrow> 'resp"
  rr_response_ref :: "'rr \<Rightarrow> 'resp"
  rr_codec :: "'rr codec"
  status_codec :: "'st NodeStatus codec"
  typed_codec :: "payload_type \<Rightarrow> 'val codec"
  message_payload :: "bytes \<Rightarrow> bytes"
  error_string :: "bytesrepr_error \<Rightarrow> string"

section \<open>Requests\<close>

record ParsedRequest =
  header :: CommandHeader
  information_request :: "InformationRequest option"

datatype RequestParseError = UnsupportedVersion | InvalidRequest

fun request_error_code :: "RequestParseError \<Rightarrow> ErrorCode" where
  "request_error_code UnsupportedVersion = UnsupportedRequest"
| "request_error_code InvalidRequest = BadRequest"

definition parse_request ::
  "('resp, 'rr, 'st, 'val) casper \<Rightarrow> bytes \<Rightarrow> (ParsedRequest, RequestParseError) result" where
  "parse_request C request =
     (case header_from_bytes C request of
        Err _ \<Rightarrow> Err InvalidRequest
      | Ok (hdr, remainder) \<Rightarrow>
          if hdr_version hdr \<noteq> HEADER_VERSION C then Err UnsupportedVersion
          else case command_tag C (hdr_type_tag hdr) of
            None \<Rightarrow> Err InvalidRequest
          | Some tag \<Rightarrow>
              (case command_try_from C tag remainder of
                 Err _ \<Rightarrow> Err InvalidRequest
               | Ok (Get_Information info_type_tag key) \<Rightarrow>
                   (case information_tag C info_type_tag of
                      None \<Rightarrow> Err InvalidRequest
                    | Some info_tag \<Rightarrow>
                        (case information_try_from C info_tag key of
                           Err _ \<Rightarrow> Err InvalidRequest
                         | Ok info \<Rightarrow> Ok \<lparr>header = hdr, information_request = Some info\<rparr>))
               | Ok Other_Command \<Rightarrow> Ok \<lparr>header = hdr, information_request = None\<rparr>))"

section \<open>Responses\<close>

datatype 'resp ResponseEnvelope = WithRequest bytes 'resp | Response 'resp

fun envelope_response :: "'resp ResponseEnvelope \<Rightarrow> 'resp" where
  "envelope_response (WithRequest _ r) = r"
| "envelope_response (Response r) = r"

fun set_response :: "'resp \<Rightarrow> 'resp ResponseEnvelope \<Rightarrow> 'resp ResponseEnvelope" where
  "set_response r (WithRequest request _) = WithRequest request r"
| "set_response r (Response _) = Response r"

datatype OpaquePayload = OpaquePayload bytes

fun opaque_from_bytes :: "bytes \<Rightarrow> (OpaquePayload \<times> bytes, bytesrepr_error) result" where
  "opaque_from_bytes bs = Ok (OpaquePayload bs, [])"

fun opaque_to_bytes :: "OpaquePayload \<Rightarrow> (bytes, bytesrepr_error) result" where
  "opaque_to_bytes (OpaquePayload bs) = Ok bs"

fun opaque_write_bytes :: "OpaquePayload \<Rightarrow> bytes \<Rightarrow> (bytes, bytesrepr_error) result" where
  "opaque_write_bytes (OpaquePayload bs) writer = Ok (writer @ bs)"

fun opaque_serialized_length :: "OpaquePayload \<Rightarrow> nat" where
  "opaque_serialized_length (OpaquePayload bs) = length bs"

definition OpaquePayload_codec :: "OpaquePayload codec" where
  "OpaquePayload_codec = \<lparr>from_bytes = opaque_from_bytes, to_bytes = opaque_to_bytes\<rparr>"

datatype ResponseRewriteError =
    Decode bytesrepr_error
  | Encode bytesrepr_error
  | UnknownTypeTag u8
  | MissingTypeTag

fun rewrite_error_code :: "ResponseRewriteError \<Rightarrow> ErrorCode" where
  "rewrite_error_code (UnknownTypeTag _) = UnsupportedRequest"
| "rewrite_error_code MissingTypeTag = InternalError"
| "rewrite_error_code (Decode _) = InternalError"
| "rewrite_error_code (Encode _) = InternalError"

fun rewrite_error_display :: "(bytesrepr_error \<Rightarrow> string) \<Rightarrow> ResponseRewriteError \<Rightarrow> string" where
  "rewrite_error_display show_err (Decode err) = ''decode error: '' @ show_err err"
| "rewrite_error_display show_err (Encode err) = ''encode error: '' @ show_err err"
| "rewrite_error_display show_err (UnknownTypeTag tag) = ''unknown response type tag: '' @ dec_string (unat tag)"
| "rewrite_error_display show_err MissingTypeTag = ''missing response type tag for success response''"

definition parse_response_envelope ::
  "('resp, 'rr, 'st, 'val) casper \<Rightarrow> bytes \<Rightarrow> ('resp ResponseEnvelope, ResponseRewriteError) result" where
  "parse_response_envelope C response_bytes =
     (case from_bytes (rr_codec C) response_bytes of
        Ok (rr, remainder) \<Rightarrow>
          if remainder \<noteq> [] then Err (Decode LeftOverBytes)
          else Ok (WithRequest (rr_request C rr) (rr_response C rr))
      | Err _ \<Rightarrow>
          (case from_bytes (response_codec C) response_bytes of
             Err e \<Rightarrow> Err (Decode e)
           | Ok (resp, remainder) \<Rightarrow>
               if remainder \<noteq> [] then Err (Decode LeftOverBytes) else Ok (Response resp)))"

fun serialize_response_envelope ::
  "('resp, 'rr, 'st, 'val) casper \<Rightarrow> 'resp ResponseEnvelope \<Rightarrow> (bytes, ResponseRewriteError) result" where
  "serialize_response_envelope C (WithRequest request resp) =
     map_err Encode (to_bytes (rr_codec C) (rr_new C resp request))"
| "serialize_response_envelope C (Response resp) = map_err Encode (to_bytes (response_codec C) resp)"

definition roundtrip_payload :: "'v codec \<Rightarrow> bytes \<Rightarrow> (bytes, ResponseRewriteError) result" where
  "roundtrip_payload K bs =
     and_then (map_err Decode (from_bytes K bs))
       (\<lambda>(value, remainder).
          if remainder \<noteq> [] then Err (Decode LeftOverBytes) else map_err Encode (to_bytes K value))"

definition roundtrip_response ::
  "('resp, 'rr, 'st, 'val) casper \<Rightarrow> 'v codec \<Rightarrow> ResponseType \<Rightarrow> bytes \<Rightarrow> ('resp, ResponseRewriteError) result" where
  "roundtrip_response C K response_type bs =
     and_then (roundtrip_payload K bs) (\<lambda>bs'. Ok (from_raw_bytes C response_type bs'))"

definition sanitize_node_status_payload ::
  "('resp, 'rr, 'st, 'val) casper \<Rightarrow> bytes \<Rightarrow> (bytes, ResponseRewriteError) result" where
  "sanitize_node_status_payload C bs =
     and_then (map_err Decode (from_bytes (status_codec C) bs))
       (\<lambda>(status, remainder).
          if remainder \<noteq> [] then Err (Decode LeftOverBytes)
          else map_err Encode (to_bytes (status_codec C) (status\<lparr>peers := []\<rparr>)))"

text \<open>The match on the response type (lines 470 to 570).\<close>

fun rewrite_payload ::
  "('resp, 'rr, 'st, 'val) casper \<Rightarrow> ResponseType \<Rightarrow> bytes \<Rightarrow> ('resp, ResponseRewriteError) result" where
  "rewrite_payload C RT_Peers payload = Ok (new_error C FunctionDisabled)"
| "rewrite_payload C RT_NodeStatus payload =
     and_then (sanitize_node_status_payload C payload) (\<lambda>payload'. Ok (from_raw_bytes C RT_NodeStatus payload'))"
| "rewrite_payload C RT_BlockHeaderV1 payload =
     roundtrip_response C (typed_codec C T_BlockHeaderV1) RT_BlockHeaderV1 payload"
| "rewrite_payload C RT_BlockHeader payload =
     roundtrip_response C (typed_codec C T_BlockHeader) RT_BlockHeader payload"
| "rewrite_payload C RT_BlockBodyV1 payload =
     roundtrip_response C (typed_codec C T_BlockBodyV1) RT_BlockBodyV1 payload"
| "rewrite_payload C RT_BlockBody payload =
     roundtrip_response C (typed_codec C T_BlockBody) RT_BlockBody payload"
| "rewrite_payload C RT_ApprovalsHashesV1 payload =
     roundtrip_response C OpaquePayload_codec RT_ApprovalsHashesV1 payload"
| "rewrite_payload C RT_ApprovalsHashes payload =
     roundtrip_response C OpaquePayload_codec RT_ApprovalsHashes payload"
| "rewrite_payload C RT_BlockSignaturesV1 payload =
     roundtrip_response C (typed_codec C T_BlockSignaturesV1) RT_BlockSignaturesV1 payload"
| "rewrite_payload C RT_BlockSignatures payload =
     roundtrip_response C (typed_codec C T_BlockSignatures) RT_BlockSignatures payload"
| "rewrite_payload C RT_Deploy payload =
     roundtrip_response C (typed_codec C T_Deploy) RT_Deploy payload"
| "rewrite_payload C RT_Transaction payload =
     roundtrip_response C (typed_codec C T_Transaction) RT_Transaction payload"
| "rewrite_payload C RT_ExecutionResultV1 payload =
     roundtrip_response C (typed_codec C T_ExecutionResultV1) RT_ExecutionResultV1 payload"
| "rewrite_payload C RT_ExecutionResult payload =
     roundtrip_response C (typed_codec C T_ExecutionResult) RT_ExecutionResult payload"
| "rewrite_payload C RT_WasmV1Result payload =
     roundtrip_response C OpaquePayload_codec RT_WasmV1Result payload"
| "rewrite_payload C RT_Transfers payload =
     roundtrip_response C (typed_codec C T_Vec_Transfer) RT_Transfers payload"
| "rewrite_payload C RT_FinalizedDeployApprovals payload =
     roundtrip_response C (typed_codec C T_Vec_Approval) RT_FinalizedDeployApprovals payload"
| "rewrite_payload C RT_FinalizedApprovals payload =
     roundtrip_response C (typed_codec C T_Vec_Approval) RT_FinalizedApprovals payload"
| "rewrite_payload C RT_BlockWithSignatures payload =
     roundtrip_response C (typed_codec C T_BlockWithSignatures) RT_BlockWithSignatures payload"
| "rewrite_payload C RT_TransactionWithExecutionInfo payload =
     roundtrip_response C (typed_codec C T_TransactionWithExecutionInfo) RT_TransactionWithExecutionInfo payload"
| "rewrite_payload C RT_LastProgress payload =
     roundtrip_response C (typed_codec C T_LastProgress) RT_LastProgress payload"
| "rewrite_payload C RT_ReactorState payload =
     roundtrip_response C (typed_codec C T_ReactorStateName) RT_ReactorState payload"
| "rewrite_payload C RT_NetworkName payload =
     roundtrip_response C (typed_codec C T_NetworkName) RT_NetworkName payload"
| "rewrite_payload C RT_ConsensusValidatorChanges payload =
     roundtrip_response C (typed_codec C T_ConsensusValidatorChanges) RT_ConsensusValidatorChanges payload"
| "rewrite_payload C RT_BlockSynchronizerStatus payload =
     roundtrip_response C (typed_codec C T_BlockSynchronizerStatus) RT_BlockSynchronizerStatus payload"
| "rewrite_payload C RT_AvailableBlockRange payload =
     roundtrip_response C (typed_codec C T_AvailableBlockRange) RT_AvailableBlockRange payload"
| "rewrite_payload C RT_NextUpgrade payload =
     roundtrip_response C (typed_codec C T_NextUpgrade) RT_NextUpgrade payload"
| "rewrite_payload C RT_ConsensusStatus payload =
     roundtrip_response C (typed_codec C T_ConsensusStatus) RT_ConsensusStatus payload"
| "rewrite_payload C RT_ChainspecRawBytes payload =
     roundtrip_response C (typed_codec C T_ChainspecRawBytes) RT_ChainspecRawBytes payload"
| "rewrite_payload C RT_Uptime payload =
     roundtrip_response C (typed_codec C T_Uptime) RT_Uptime payload"
| "rewrite_payload C RT_HighestBlockSequenceCheckResult payload =
     roundtrip_response C OpaquePayload_codec RT_HighestBlockSequenceCheckResult payload"
| "rewrite_payload C RT_SpeculativeExecutionResult payload =
     roundtrip_response C (typed_codec C T_SpeculativeExecutionResult) RT_SpeculativeExecutionResult payload"
| "rewrite_payload C RT_GlobalStateQueryResult payload =
     roundtrip_response C (typed_codec C T_GlobalStateQueryResult) RT_GlobalStateQueryResult payload"
| "rewrite_payload C RT_StoredValues payload =
     roundtrip_response C (typed_codec C T_Vec_StoredValue) RT_StoredValues payload"
| "rewrite_payload C RT_GetTrieFullResult payload =
     roundtrip_response C (typed_codec C T_GetTrieFullResult) RT_GetTrieFullResult payload"
| "rewrite_payload C RT_DictionaryQueryResult payload =
     roundtrip_response C (typed_codec C T_DictionaryQueryResult) RT_DictionaryQueryResult payload"
| "rewrite_payload C RT_BalanceResponse payload =
     roundtrip_response C (typed_codec C T_BalanceResponse) RT_BalanceResponse payload"
| "rewrite_payload C RT_Reward payload =
     roundtrip_response C (typed_codec C T_RewardResponse) RT_Reward payload"
| "rewrite_payload C RT_ProtocolVersion payload =
     roundtrip_response C (typed_codec C T_ProtocolVersion) RT_ProtocolVersion payload"
| "rewrite_payload C RT_ContractPackageWithProof payload =
     roundtrip_response C (typed_codec C T_ValueWithProof_ContractPackage) RT_ContractPackageWithProof payload"
| "rewrite_payload C RT_ContractInformation payload =
     roundtrip_response C (typed_codec C T_ContractInformation) RT_ContractInformation payload"
| "rewrite_payload C RT_AccountInformation payload =
     roundtrip_response C (typed_codec C T_AccountInformation) RT_AccountInformation payload"
| "rewrite_payload C RT_PackageWithProof payload =
     roundtrip_response C (typed_codec C T_ValueWithProof_Package) RT_PackageWithProof payload"
| "rewrite_payload C RT_AddressableEntityInformation payload =
     roundtrip_response C (typed_codec C T_AddressableEntityInformation) RT_AddressableEntityInformation payload"

definition rewrite_response_bytes ::
  "('resp, 'rr, 'st, 'val) casper \<Rightarrow> bytes \<Rightarrow> (bytes, ResponseRewriteError) result" where
  "rewrite_response_bytes C response_bytes =
     (case parse_response_envelope C response_bytes of
        Err e \<Rightarrow> Err e
      | Ok envelope \<Rightarrow>
          if \<not> is_success C (envelope_response envelope) then serialize_response_envelope C envelope
          else case returned_data_type_tag C (envelope_response envelope) of
            None \<Rightarrow>
              if response_payload C (envelope_response envelope) = [] then serialize_response_envelope C envelope
              else Err MissingTypeTag
          | Some tag \<Rightarrow>
              (case response_type_of C tag of
                 None \<Rightarrow> Err (UnknownTypeTag tag)
               | Some response_type \<Rightarrow>
                   (case rewrite_payload C response_type (response_payload C (envelope_response envelope)) of
                      Err e \<Rightarrow> Err e
                    | Ok new_response \<Rightarrow>
                        serialize_response_envelope C (set_response new_response envelope))))"

section \<open>Lossless codecs\<close>

locale lossless_codec =
  fixes K :: "'v codec"
  assumes decode_encode: "to_bytes K v = Ok bs \<Longrightarrow> from_bytes K bs = Ok (v, [])"
begin

lemma roundtrip_canonical: "to_bytes K v = Ok bs \<Longrightarrow> roundtrip_payload K bs = Ok bs"
  by (simp add: roundtrip_payload_def decode_encode)

lemma roundtrip_payload_cases:
  "roundtrip_payload K bs = Ok bs' \<longleftrightarrow> (\<exists>v. from_bytes K bs = Ok (v, []) \<and> to_bytes K v = Ok bs')"
  by (auto simp: roundtrip_payload_def and_then_Ok_iff split: if_splits prod.splits)

lemma roundtrip_idem: "roundtrip_payload K bs = Ok bs' \<Longrightarrow> roundtrip_payload K bs' = Ok bs'"
  unfolding roundtrip_payload_cases using decode_encode by blast

end

locale bytesrepr_type = lossless_codec K for K :: "'v codec" +
  fixes write_bytes :: "'v \<Rightarrow> bytes \<Rightarrow> (bytes, bytesrepr_error) result"
    and serialized_length :: "'v \<Rightarrow> nat"
  assumes write_appends: "to_bytes K v = Ok bs \<Longrightarrow> write_bytes v writer = Ok (writer @ bs)"
    and length_exact: "to_bytes K v = Ok bs \<Longrightarrow> serialized_length v = length bs"
begin

lemma write_length:
  "to_bytes K v = Ok bs \<Longrightarrow>
     \<exists>out. write_bytes v writer = Ok out \<and> length out = length writer + serialized_length v"
  by (simp add: write_appends length_exact)

end

interpretation opaque: bytesrepr_type OpaquePayload_codec opaque_write_bytes opaque_serialized_length
proof unfold_locales
  fix v bs writer
  assume "to_bytes OpaquePayload_codec v = Ok bs"
  then have "v = OpaquePayload bs" by (cases v) (simp add: OpaquePayload_codec_def)
  then show "from_bytes OpaquePayload_codec bs = Ok (v, [])"
      and "opaque_write_bytes v writer = Ok (writer @ bs)"
      and "opaque_serialized_length v = length bs"
    by (simp_all add: OpaquePayload_codec_def)
qed

lemma roundtrip_opaque [simp]: "roundtrip_payload OpaquePayload_codec bs = Ok bs"
  by (rule opaque.roundtrip_canonical [of "OpaquePayload bs"]) (simp add: OpaquePayload_codec_def)

section \<open>What the proxy relies on\<close>

text \<open>
  The documented behaviour of the two crates: decoding inverts encoding, the constructors of a response
  set what its accessors read, and an error response is not a success.
\<close>

definition casper_laws :: "('resp, 'rr, 'st, 'val) casper \<Rightarrow> bool" where
  "casper_laws C \<longleftrightarrow>
     lossless_codec (rr_codec C) \<and> lossless_codec (response_codec C) \<and> lossless_codec (status_codec C)
   \<and> (\<forall>T. lossless_codec (typed_codec C T))
   \<and> (\<forall>e. \<not> is_success C (new_error C e))
   \<and> (\<forall>t p. is_success C (from_raw_bytes C t p) \<and> response_payload C (from_raw_bytes C t p) = p
        \<and> Option.bind (returned_data_type_tag C (from_raw_bytes C t p)) (response_type_of C) = Some t)
   \<and> (\<forall>r q. rr_request C (rr_new C r q) = q \<and> rr_response C (rr_new C r q) = r
        \<and> rr_response_ref C (rr_new C r q) = r)
   \<and> (\<forall>p. message_payload C p = p)"

lemma casper_lawsD:
  assumes "casper_laws C"
  shows "lossless_codec (rr_codec C)" "lossless_codec (response_codec C)" "lossless_codec (status_codec C)"
    "lossless_codec (typed_codec C T)" "\<not> is_success C (new_error C e)"
    "is_success C (from_raw_bytes C t p)" "response_payload C (from_raw_bytes C t p) = p"
    "Option.bind (returned_data_type_tag C (from_raw_bytes C t p)) (response_type_of C) = Some t"
    "rr_request C (rr_new C r q) = q" "rr_response C (rr_new C r q) = r" "message_payload C p = p"
    "rr_response_ref C (rr_new C r q) = r"
  using assms by (auto simp: casper_laws_def)

text \<open>The type a response of each kind carries; opaque bytes when there is none.\<close>

fun declared_payload :: "ResponseType \<Rightarrow> payload_type option" where
  "declared_payload RT_BlockHeaderV1 = Some T_BlockHeaderV1"
| "declared_payload RT_BlockHeader = Some T_BlockHeader"
| "declared_payload RT_BlockBodyV1 = Some T_BlockBodyV1"
| "declared_payload RT_BlockBody = Some T_BlockBody"
| "declared_payload RT_ApprovalsHashesV1 = None"
| "declared_payload RT_ApprovalsHashes = None"
| "declared_payload RT_BlockSignaturesV1 = Some T_BlockSignaturesV1"
| "declared_payload RT_BlockSignatures = Some T_BlockSignatures"
| "declared_payload RT_Deploy = Some T_Deploy"
| "declared_payload RT_Transaction = Some T_Transaction"
| "declared_payload RT_ExecutionResultV1 = Some T_ExecutionResultV1"
| "declared_payload RT_ExecutionResult = Some T_ExecutionResult"
| "declared_payload RT_WasmV1Result = None"
| "declared_payload RT_Transfers = Some T_Vec_Transfer"
| "declared_payload RT_FinalizedDeployApprovals = Some T_Vec_Approval"
| "declared_payload RT_FinalizedApprovals = Some T_Vec_Approval"
| "declared_payload RT_BlockWithSignatures = Some T_BlockWithSignatures"
| "declared_payload RT_TransactionWithExecutionInfo = Some T_TransactionWithExecutionInfo"
| "declared_payload RT_LastProgress = Some T_LastProgress"
| "declared_payload RT_ReactorState = Some T_ReactorStateName"
| "declared_payload RT_NetworkName = Some T_NetworkName"
| "declared_payload RT_ConsensusValidatorChanges = Some T_ConsensusValidatorChanges"
| "declared_payload RT_BlockSynchronizerStatus = Some T_BlockSynchronizerStatus"
| "declared_payload RT_AvailableBlockRange = Some T_AvailableBlockRange"
| "declared_payload RT_NextUpgrade = Some T_NextUpgrade"
| "declared_payload RT_ConsensusStatus = Some T_ConsensusStatus"
| "declared_payload RT_ChainspecRawBytes = Some T_ChainspecRawBytes"
| "declared_payload RT_Uptime = Some T_Uptime"
| "declared_payload RT_HighestBlockSequenceCheckResult = None"
| "declared_payload RT_SpeculativeExecutionResult = Some T_SpeculativeExecutionResult"
| "declared_payload RT_GlobalStateQueryResult = Some T_GlobalStateQueryResult"
| "declared_payload RT_StoredValues = Some T_Vec_StoredValue"
| "declared_payload RT_GetTrieFullResult = Some T_GetTrieFullResult"
| "declared_payload RT_DictionaryQueryResult = Some T_DictionaryQueryResult"
| "declared_payload RT_BalanceResponse = Some T_BalanceResponse"
| "declared_payload RT_Reward = Some T_RewardResponse"
| "declared_payload RT_ProtocolVersion = Some T_ProtocolVersion"
| "declared_payload RT_ContractPackageWithProof = Some T_ValueWithProof_ContractPackage"
| "declared_payload RT_ContractInformation = Some T_ContractInformation"
| "declared_payload RT_AccountInformation = Some T_AccountInformation"
| "declared_payload RT_PackageWithProof = Some T_ValueWithProof_Package"
| "declared_payload RT_AddressableEntityInformation = Some T_AddressableEntityInformation"
| "declared_payload RT_Peers = None"
| "declared_payload RT_NodeStatus = None"

lemma rewrite_payload_eq:
  "t \<noteq> RT_Peers \<Longrightarrow> t \<noteq> RT_NodeStatus \<Longrightarrow>
     rewrite_payload C t p =
       (case declared_payload t of
          None \<Rightarrow> Ok (from_raw_bytes C t p)
        | Some T \<Rightarrow> roundtrip_response C (typed_codec C T) t p)"
  by (cases t) (simp_all add: roundtrip_response_def)

end
