(* ===== verification/Binary_Pool.thy ===== *)
theory Binary_Pool
  imports Metrics Binary_Codec
begin

text \<open>
  \<open>src/binary_proxy.rs\<close>, the pool half: the errors, the connection pool with its semaphore, the framed
  exchange over TCP with its one retry, and the whole of \<open>BinaryPool::send\<close>. TCP is a parameter over a
  world \<open>'w\<close> with streams \<open>'s\<close>. A call of \<open>send\<close> runs here without interference; \<open>None\<close> as its result
  says that it waits for a permit. The interleavings of many calls are the subject of \<open>Pool_Machine\<close>.
\<close>

named_theorems pool_defs \<open>the operations of the pool\<close>

definition LENGTH_BYTES :: nat where
  "LENGTH_BYTES = 4"

definition MAX_MESSAGE_SIZE_BYTES :: nat where
  "MAX_MESSAGE_SIZE_BYTES = 4 * 1024 * 1024"

section \<open>Errors\<close>

datatype ErrorKind = UnexpectedEof | ConnectionReset | ConnectionAborted | BrokenPipe | OtherKind string

record io_error =
  io_kind :: ErrorKind
  io_message :: string

datatype BinaryError =
    Io io_error
  | ChannelClosed
  | ConnectionUnavailable
  | RequestTooLarge nat nat
  | ResponseEncoding string

fun binary_error_display :: "BinaryError \<Rightarrow> string" where
  "binary_error_display (Io err) = ''io error: '' @ io_message err"
| "binary_error_display ChannelClosed = ''channel closed''"
| "binary_error_display ConnectionUnavailable = ''connection unavailable''"
| "binary_error_display (RequestTooLarge allowed got) =
     ''request too large (allowed '' @ dec_string allowed @ '', got '' @ dec_string got @ '')''"
| "binary_error_display (ResponseEncoding err) = ''response encoding error: '' @ err"

section \<open>TCP\<close>

record ('w, 's) tcp =
  tcp_connect :: "string \<Rightarrow> ('w, 's, io_error) action"
  write_all :: "'s \<Rightarrow> bytes \<Rightarrow> ('w, unit, io_error) action"
  flush :: "'s \<Rightarrow> ('w, unit, io_error) action"
  read_exact :: "'s \<Rightarrow> nat \<Rightarrow> ('w, bytes, io_error) action"
  tcp_clock :: "'w \<Rightarrow> nat"

text \<open>The conversion of an I/O error by \<open>?\<close>.\<close>

definition io :: "('w, 'a, io_error) action \<Rightarrow> ('w, 'a, BinaryError) action" where
  "io m w = (case m w of (r, w') \<Rightarrow> (map_err Io r, w'))"

section \<open>The pool\<close>

text \<open>A pooled connection owns a permit of the semaphore; dropping the connection gives it back.\<close>

record 's PooledConnection =
  stream :: 's

record 's BinaryPool =
  pool_address :: string
  pool_network :: string
  semaphore :: nat
  pool_conns :: "'s PooledConnection list"

definition fresh_pool :: "string \<Rightarrow> string \<Rightarrow> usize \<Rightarrow> 's BinaryPool" where
  "fresh_pool network address max_connections =
     \<lparr>pool_address = address, pool_network = network, semaphore = unat (max max_connections 1), pool_conns = []\<rparr>"

text \<open>\<open>Semaphore::new\<close> is documented to panic above \<open>MAX_PERMITS\<close>.\<close>

definition MAX_PERMITS :: usize where
  "MAX_PERMITS = (- 1) div 8"

definition semaphore_panics :: "usize \<Rightarrow> bool" where
  "semaphore_panics permits_asked \<longleftrightarrow> MAX_PERMITS < permits_asked"

definition BinaryPool_new :: "string \<Rightarrow> string \<Rightarrow> usize \<Rightarrow> ('s BinaryPool, string) result" where
  "BinaryPool_new network address max_connections =
     (if semaphore_panics (max max_connections 1) then Err ''semaphore permits''
      else Ok (fresh_pool network address max_connections))"

text \<open>Every size up to \<open>2 ^ 61 - 1\<close> has a semaphore.\<close>

lemma semaphore_panics_iff: "semaphore_panics (max n 1) \<longleftrightarrow> 2 ^ 61 \<le> unat n"
proof -
  have "unat ((- 1) div 8 :: usize) = 2 ^ 61 - 1"
    by (simp add: unat_div_distrib unsigned_minus_1_eq_mask mask_eq_exp_minus_1)
  then show ?thesis by (auto simp: semaphore_panics_def MAX_PERMITS_def max_def word_less_nat_alt word_le_nat_alt)
qed

definition drop_connection :: "'s BinaryPool \<Rightarrow> 's BinaryPool" where
  "drop_connection P = P\<lparr>semaphore := semaphore P + 1\<rparr>"

text \<open>
  The two steps of \<open>get_connection\<close>. A free connection is the last one of the vector. Without one, a permit
  is taken, and given back when the connection fails; \<open>None\<close> is waiting for a permit. Other calls can change
  the pool between the two steps and while the second waits; a waiting call does not look into the vector
  again. The semaphore is never closed, so the error \<open>ConnectionUnavailable\<close> has no branch.
\<close>

definition take_idle :: "'s BinaryPool \<Rightarrow> 's PooledConnection option \<times> 's BinaryPool" where
  "take_idle P =
     (if pool_conns P = [] then (None, P)
      else (Some (last (pool_conns P)), P\<lparr>pool_conns := butlast (pool_conns P)\<rparr>))"

definition open_connection ::
  "('w, 's) tcp \<Rightarrow> 's BinaryPool \<Rightarrow> 'w
     \<Rightarrow> ('s PooledConnection, BinaryError) result option \<times> 's BinaryPool \<times> 'w" where
  "open_connection T P w =
     (if semaphore P = 0 then (None, P, w)
      else let P = P\<lparr>semaphore := semaphore P - 1\<rparr>
           in case io (tcp_connect T (pool_address P)) w of
                (Ok s, w) \<Rightarrow> (Some (Ok \<lparr>stream = s\<rparr>), P, w)
              | (Err e, w) \<Rightarrow> (Some (Err e), P\<lparr>semaphore := semaphore P + 1\<rparr>, w))"

text \<open>The two steps of a call that runs alone.\<close>

definition get_connection ::
  "('w, 's) tcp \<Rightarrow> 's BinaryPool \<Rightarrow> 'w
     \<Rightarrow> ('s PooledConnection, BinaryError) result option \<times> 's BinaryPool \<times> 'w" where
  "get_connection T P w =
     (case take_idle P of
        (Some conn, P) \<Rightarrow> (Some (Ok conn), P, w)
      | (None, P) \<Rightarrow> open_connection T P w)"

lemma get_connection_eq:
  "get_connection T P w =
     (if pool_conns P \<noteq> [] then
        (Some (Ok (last (pool_conns P))), P\<lparr>pool_conns := butlast (pool_conns P)\<rparr>, w)
      else if semaphore P = 0 then (None, P, w)
      else let P = P\<lparr>semaphore := semaphore P - 1\<rparr>
           in case io (tcp_connect T (pool_address P)) w of
                (Ok s, w) \<Rightarrow> (Some (Ok \<lparr>stream = s\<rparr>), P, w)
              | (Err e, w) \<Rightarrow> (Some (Err e), P\<lparr>semaphore := semaphore P + 1\<rparr>, w))"
  by (simp add: get_connection_def take_idle_def open_connection_def)

definition return_connection :: "'s PooledConnection \<Rightarrow> 's BinaryPool \<Rightarrow> 's BinaryPool" where
  "return_connection conn P = P\<lparr>pool_conns := pool_conns P @ [conn]\<rparr>"

section \<open>The exchange\<close>

definition send_and_receive ::
  "('resp, 'rr, 'st, 'val) casper \<Rightarrow> ('w, 's) tcp \<Rightarrow> 's \<Rightarrow> bytes \<Rightarrow> ('w, bytes, BinaryError) action" where
  "send_and_receive C T s request =
     (let message = message_payload C request;
          len = (word_of_nat (length message) :: u32)
      in bind_io (io (write_all T s (to_le_bytes len))) (\<lambda>_.
         bind_io (io (write_all T s message)) (\<lambda>_.
         bind_io (io (flush T s)) (\<lambda>_.
         bind_io (io (read_exact T s LENGTH_BYTES)) (\<lambda>length_buf.
         io (read_exact T s (unat (from_le_bytes length_buf))))))))"

fun is_retryable_io_error :: "(bytes, BinaryError) result \<Rightarrow> bool" where
  "is_retryable_io_error (Err (Io err)) =
     (io_kind err \<in> {UnexpectedEof, ConnectionReset, ConnectionAborted, BrokenPipe})"
| "is_retryable_io_error _ = False"

definition reconnect ::
  "('w, 's) tcp \<Rightarrow> string \<Rightarrow> 's PooledConnection \<Rightarrow> ('w, 's PooledConnection, BinaryError) action" where
  "reconnect T address conn =
     bind_io (io (tcp_connect T address)) (\<lambda>s w. (Ok (conn\<lparr>stream := s\<rparr>), w))"

definition build_error_response ::
  "('resp, 'rr, 'st, 'val) casper \<Rightarrow> ErrorCode \<Rightarrow> bytes \<Rightarrow> (bytes, BinaryError) result" where
  "build_error_response C error_code request =
     map_err (\<lambda>err. ResponseEncoding (error_string C err))
       (to_bytes (rr_codec C) (rr_new C (new_error C error_code) request))"

text \<open>The exchange and its retry (lines 148 to 164).\<close>

definition exchange_with_retry ::
  "('resp, 'rr, 'st, 'val) casper \<Rightarrow> ('w, 's) tcp \<Rightarrow> string \<Rightarrow> 's PooledConnection \<Rightarrow> bytes \<Rightarrow> 'w
     \<Rightarrow> (bytes, BinaryError) result \<times> 's PooledConnection \<times> 'w" where
  "exchange_with_retry C T address conn request w =
     (case send_and_receive C T (stream conn) request w of (result, w) \<Rightarrow>
        if is_retryable_io_error result
        then (case reconnect T address conn w of
                (Ok conn, w) \<Rightarrow>
                  (case send_and_receive C T (stream conn) request w of (result, w) \<Rightarrow> (result, conn, w))
              | (Err e, w) \<Rightarrow> (Err e, conn, w))
        else (result, conn, w))"

text \<open>What happens to the result and to the connection (lines 166 to 196).\<close>

definition finish_exchange ::
  "('resp, 'rr, 'st, 'val) casper \<Rightarrow> bytes \<Rightarrow> (bytes, BinaryError) result \<Rightarrow> 's PooledConnection
     \<Rightarrow> 's BinaryPool \<Rightarrow> mlog \<Rightarrow> (bytes, BinaryError) result \<times> 's BinaryPool \<times> mlog" where
  "finish_exchange C request result conn P log =
     (case result of
        Ok bs \<Rightarrow>
          (case (case rewrite_response_bytes C bs of
                   Ok rewritten \<Rightarrow> Ok rewritten
                 | Err err \<Rightarrow> build_error_response C (rewrite_error_code err) request) of
             Err e \<Rightarrow> (Err e, drop_connection P, log)
           | Ok rewritten \<Rightarrow>
               (Ok rewritten, return_connection conn P, increment_binary_response (pool_network P) ''ok'' log))
      | Err e \<Rightarrow> (Err e, drop_connection P, increment_binary_response (pool_network P) ''error'' log))"

definition send_inner ::
  "('resp, 'rr, 'st, 'val) casper \<Rightarrow> ('w, 's) tcp \<Rightarrow> 's BinaryPool \<Rightarrow> bytes \<Rightarrow> mlog \<Rightarrow> 'w
     \<Rightarrow> (bytes, BinaryError) result option \<times> 's BinaryPool \<times> mlog \<times> 'w" where
  "send_inner C T P request log w =
     (let failed = increment_binary_response (pool_network P) ''error''
      in case parse_request C request of
           Err err \<Rightarrow> (Some (build_error_response C (request_error_code err) request), P, failed log, w)
         | Ok parsed_request \<Rightarrow>
             if MAX_MESSAGE_SIZE_BYTES < length request
             then (Some (Err (RequestTooLarge MAX_MESSAGE_SIZE_BYTES (length request))), P, failed log, w)
             else if information_request parsed_request = Some Peers_request
             then (Some (build_error_response C FunctionDisabled request), P, failed log, w)
             else
               (let wait_start = tcp_clock T w
                in case get_connection T P w of
                     (None, P, w) \<Rightarrow> (None, P, log, w)
                   | (Some connection_result, P, w) \<Rightarrow>
                       (let log = observe_binary_queue_wait (pool_network P) (tcp_clock T w - wait_start) log
                        in case connection_result of
                             Err e \<Rightarrow> (Some (Err e), P, increment_binary_response (pool_network P) ''error'' log, w)
                           | Ok conn \<Rightarrow>
                               (case exchange_with_retry C T (pool_address P) conn request w of
                                  (result, conn, w) \<Rightarrow>
                                    (case finish_exchange C request result conn P log of
                                       (result, P, log) \<Rightarrow> (Some result, P, log, w))))))"

definition send ::
  "('resp, 'rr, 'st, 'val) casper \<Rightarrow> ('w, 's) tcp \<Rightarrow> 's BinaryPool \<Rightarrow> bytes \<Rightarrow> mlog \<Rightarrow> 'w
     \<Rightarrow> (bytes, BinaryError) result option \<times> 's BinaryPool \<times> mlog \<times> 'w" where
  "send C T P request log w =
     (case binary_inflight_guard (pool_network P) log of (inflight, log) \<Rightarrow>
        (case send_inner C T P request log w of
           (None, P, log, w) \<Rightarrow> (None, P, log, w)
         | (Some r, P, log, w) \<Rightarrow> (Some r, P, drop_guard inflight log, w)))"

end
