(* ===== verification/Binary_Rewrite.thy ===== *)
theory Binary_Rewrite
  imports Binary_Codec
begin

text \<open>
  What \<open>rewrite_response_bytes\<close> guarantees under the documented behaviour of the wire format
  (\<open>casper_laws\<close>): no peer reaches a client, everything else passes unchanged, and rewriting twice is
  rewriting once. The sample wire format at the end shows that the laws can hold and is what the
  witnesses of the binary-port theories run on.
\<close>

section \<open>Envelopes\<close>

lemma set_response_simps [simp]:
  "envelope_response (set_response r env) = r"
  "set_response r (set_response r' env) = set_response r env"
  "set_response (envelope_response env) env = env"
  by (cases env; simp)+

lemma parse_serialized:
  assumes "casper_laws C" and "serialize_response_envelope C (WithRequest q r) = Ok bs"
  shows "parse_response_envelope C bs = Ok (WithRequest q r)"
  using assms lossless_codec.decode_encode [OF casper_lawsD(1) [OF assms(1)], of "rr_new C r q" bs]
  by (simp add: parse_response_envelope_def casper_lawsD)

lemma parse_bare:
  assumes "casper_laws C" and "to_bytes (response_codec C) r = Ok bs" and "\<not> is_ok (from_bytes (rr_codec C) bs)"
  shows "parse_response_envelope C bs = Ok (Response r)"
  using assms(3) lossless_codec.decode_encode [OF casper_lawsD(2) [OF assms(1)] assms(2)]
  by (cases "from_bytes (rr_codec C) bs") (simp_all add: parse_response_envelope_def)

section \<open>The rewritten response\<close>

text \<open>A response that tells nothing about peers.\<close>

definition hides_peers :: "('resp, 'rr, 'st, 'val) casper \<Rightarrow> 'resp \<Rightarrow> bool" where
  "hides_peers C r \<longleftrightarrow>
     (is_success C r \<longrightarrow>
        (case Option.bind (returned_data_type_tag C r) (response_type_of C) of
           None \<Rightarrow> True
         | Some t \<Rightarrow>
             t \<noteq> RT_Peers
             \<and> (t = RT_NodeStatus \<longrightarrow>
                  (\<exists>st. from_bytes (status_codec C) (response_payload C r) = Ok (st, []) \<and> peers st = []))))"

text \<open>The response that \<open>rewrite_response_bytes\<close> puts in place of \<open>r\<close>.\<close>

definition new_response :: "('resp, 'rr, 'st, 'val) casper \<Rightarrow> 'resp \<Rightarrow> ('resp, ResponseRewriteError) result" where
  "new_response C r =
     (if \<not> is_success C r then Ok r
      else case returned_data_type_tag C r of
        None \<Rightarrow> if response_payload C r = [] then Ok r else Err MissingTypeTag
      | Some tag \<Rightarrow>
          (case response_type_of C tag of
             None \<Rightarrow> Err (UnknownTypeTag tag)
           | Some t \<Rightarrow> rewrite_payload C t (response_payload C r)))"

lemma rewrite_response_bytes_eq:
  "rewrite_response_bytes C bs =
     and_then (parse_response_envelope C bs)
       (\<lambda>env. and_then (new_response C (envelope_response env))
                (\<lambda>r'. serialize_response_envelope C (set_response r' env)))"
  by (auto simp: rewrite_response_bytes_def new_response_def split: result.splits option.splits)

lemma sanitize_node_status_Ok:
  assumes "casper_laws C"
  shows "sanitize_node_status_payload C p = Ok p' \<longleftrightarrow>
    (\<exists>st. from_bytes (status_codec C) p = Ok (st, [])
        \<and> to_bytes (status_codec C) (st\<lparr>peers := []\<rparr>) = Ok p')"
  by (auto simp: sanitize_node_status_payload_def and_then_Ok_iff split: if_splits prod.splits)

lemma sanitize_node_status_decodes:
  assumes "casper_laws C" and "sanitize_node_status_payload C p = Ok p'"
  shows "\<exists>st. from_bytes (status_codec C) p' = Ok (st, []) \<and> peers st = []"
proof -
  from assms(2) obtain st where "to_bytes (status_codec C) (st\<lparr>peers := []\<rparr>) = Ok p'"
    unfolding sanitize_node_status_Ok [OF assms(1)] by blast
  from lossless_codec.decode_encode [OF casper_lawsD(3) [OF assms(1)] this] show ?thesis by auto
qed

lemma rewrite_payload_shape:
  assumes "t \<noteq> RT_Peers" and "rewrite_payload C t p = Ok r"
  shows "\<exists>p'. r = from_raw_bytes C t p' \<and> (t = RT_NodeStatus \<longrightarrow> sanitize_node_status_payload C p = Ok p')"
proof (cases "t = RT_NodeStatus")
  case True
  then show ?thesis using assms(2) by (auto simp: and_then_Ok_iff)
next
  case False
  then show ?thesis using assms
    by (auto simp: rewrite_payload_eq roundtrip_response_def and_then_Ok_iff split: option.splits)
qed

lemma new_response_hides_peers:
  assumes laws: "casper_laws C" and new: "new_response C r = Ok r'"
  shows "hides_peers C r'"
proof (cases "\<exists>t. is_success C r \<and> Option.bind (returned_data_type_tag C r) (response_type_of C) = Some t")
  case True
  then obtain t where t: "rewrite_payload C t (response_payload C r) = Ok r'"
    using new by (auto simp: new_response_def split: option.splits)
  show ?thesis
  proof (cases "t = RT_Peers")
    case True
    then show ?thesis using t laws by (auto simp: hides_peers_def casper_lawsD)
  next
    case False
    from rewrite_payload_shape [OF this t] obtain p' where r': "r' = from_raw_bytes C t p'"
      and st: "t = RT_NodeStatus \<longrightarrow> sanitize_node_status_payload C (response_payload C r) = Ok p'" by blast
    show ?thesis
      using False st sanitize_node_status_decodes [OF laws]
      by (auto simp: hides_peers_def r' casper_lawsD [OF laws])
  qed
next
  case False
  then show ?thesis
    using new by (auto simp: new_response_def hides_peers_def split: option.splits if_splits)
qed

lemma new_response_raw:
  assumes "casper_laws C"
  shows "new_response C (from_raw_bytes C t p) = rewrite_payload C t p"
  using casper_lawsD(6,7) [OF assms, of t p] casper_lawsD(8) [OF assms, of t p]
  by (auto simp: new_response_def Option.bind_eq_Some_conv)

lemma new_response_idem:
  assumes laws: "casper_laws C" and new: "new_response C r = Ok r'"
  shows "new_response C r' = Ok r'"
proof (cases "\<exists>t. is_success C r \<and> Option.bind (returned_data_type_tag C r) (response_type_of C) = Some t")
  case True
  then obtain t where t: "rewrite_payload C t (response_payload C r) = Ok r'"
    using new by (auto simp: new_response_def split: option.splits)
  note raw = new_response_raw [OF laws]
  consider "t = RT_Peers" | "t = RT_NodeStatus" | "t \<noteq> RT_Peers" "t \<noteq> RT_NodeStatus" by blast
  then show ?thesis
  proof cases
    case 1
    then show ?thesis using t laws by (auto simp: new_response_def casper_lawsD)
  next
    case 2
    then obtain p' where r': "r' = from_raw_bytes C RT_NodeStatus p'"
      and p': "sanitize_node_status_payload C (response_payload C r) = Ok p'"
      using t by (auto simp: and_then_Ok_iff)
    then obtain st where "to_bytes (status_codec C) (st\<lparr>peers := []\<rparr>) = Ok p'"
      by (auto simp: sanitize_node_status_Ok [OF laws])
    then have "sanitize_node_status_payload C p' = Ok p'"
      using lossless_codec.decode_encode [OF casper_lawsD(3) [OF laws]]
      by (auto simp: sanitize_node_status_Ok [OF laws])
    then show ?thesis by (simp add: r' raw)
  next
    case 3
    then show ?thesis
      using t lossless_codec.roundtrip_idem [OF casper_lawsD(4) [OF laws]]
      by (auto simp: rewrite_payload_eq raw roundtrip_response_def and_then_Ok_iff split: option.splits)
  qed
next
  case False
  then have "r' = r" using new by (auto simp: new_response_def split: option.splits if_splits)
  then show ?thesis using new by simp
qed

lemma rewrite_hides_peers_env:
  assumes "casper_laws C" and "rewrite_response_bytes C bs = Ok out"
  shows "\<exists>env. serialize_response_envelope C env = Ok out \<and> hides_peers C (envelope_response env)"
  using assms new_response_hides_peers [OF assms(1)]
  by (auto simp: rewrite_response_bytes_eq and_then_Ok_iff)

section \<open>A sample wire format\<close>

text \<open>
  A small instance of the parameter: a response is an error code, an optional type tag and a payload
  behind a one-byte length, a request follows the response in the same way, and two node statuses have
  an encoding.
\<close>

type_synonym sample_response = "u8 \<times> u8 option \<times> bytes"

definition all_types :: "ResponseType list" where
  "all_types =
     [RT_Peers, RT_NodeStatus, RT_BlockHeaderV1, RT_BlockHeader, RT_BlockBodyV1, RT_BlockBody,
      RT_ApprovalsHashesV1, RT_ApprovalsHashes, RT_BlockSignaturesV1, RT_BlockSignatures, RT_Deploy,
      RT_Transaction, RT_ExecutionResultV1, RT_ExecutionResult, RT_WasmV1Result, RT_Transfers,
      RT_FinalizedDeployApprovals, RT_FinalizedApprovals, RT_BlockWithSignatures,
      RT_TransactionWithExecutionInfo, RT_LastProgress, RT_ReactorState, RT_NetworkName,
      RT_ConsensusValidatorChanges, RT_BlockSynchronizerStatus, RT_AvailableBlockRange,
      RT_NextUpgrade, RT_ConsensusStatus, RT_ChainspecRawBytes, RT_Uptime,
      RT_HighestBlockSequenceCheckResult, RT_SpeculativeExecutionResult, RT_GlobalStateQueryResult,
      RT_StoredValues, RT_GetTrieFullResult, RT_DictionaryQueryResult, RT_BalanceResponse, RT_Reward,
      RT_ProtocolVersion, RT_ContractPackageWithProof, RT_ContractInformation, RT_AccountInformation,
      RT_PackageWithProof, RT_AddressableEntityInformation]"

definition type_index :: "ResponseType \<Rightarrow> nat" where
  "type_index t = length (takeWhile (\<lambda>u. u \<noteq> t) all_types)"

fun sample_put :: "bytes \<Rightarrow> (bytes, bytesrepr_error) result" where
  "sample_put bs = (if length bs < 256 then Ok (word_of_nat (length bs) # bs) else Err (OtherError ''too long''))"

fun sample_get :: "bytes \<Rightarrow> (bytes \<times> bytes, bytesrepr_error) result" where
  "sample_get [] = Err (OtherError ''early end'')"
| "sample_get (n # bs) =
     (if unat n \<le> length bs then Ok (take (unat n) bs, drop (unat n) bs) else Err (OtherError ''early end''))"

fun sample_response_to :: "sample_response \<Rightarrow> (bytes, bytesrepr_error) result" where
  "sample_response_to (code, tag, p) =
     and_then (sample_put p)
       (\<lambda>bs. Ok ([code] @ (case tag of None \<Rightarrow> [0, 0] | Some t \<Rightarrow> [1, t]) @ bs))"

fun sample_response_from :: "bytes \<Rightarrow> (sample_response \<times> bytes, bytesrepr_error) result" where
  "sample_response_from (code # has # t # bs) =
     and_then (sample_get bs) (\<lambda>(p, rest). Ok ((code, if has = 0 then None else Some t, p), rest))"
| "sample_response_from _ = Err (OtherError ''early end'')"

definition sample_rr_to :: "sample_response \<times> bytes \<Rightarrow> (bytes, bytesrepr_error) result" where
  "sample_rr_to rr =
     and_then (sample_response_to (fst rr)) (\<lambda>a. and_then (sample_put (snd rr)) (\<lambda>b. Ok (a @ b)))"

definition sample_rr_from :: "bytes \<Rightarrow> ((sample_response \<times> bytes) \<times> bytes, bytesrepr_error) result" where
  "sample_rr_from bs =
     and_then (sample_response_from bs)
       (\<lambda>(r, rest). and_then (sample_get rest) (\<lambda>(q, rest'). Ok ((r, q), rest')))"

fun sample_status_to :: "unit NodeStatus \<Rightarrow> (bytes, bytesrepr_error) result" where
  "sample_status_to st =
     (if peers st = [] then Ok [0]
      else if peers st = [(''tls:01'', ''10.0.0.1:35000'')] then Ok [1]
      else Err (OtherError ''unencodable''))"

fun sample_status_from :: "bytes \<Rightarrow> (unit NodeStatus \<times> bytes, bytesrepr_error) result" where
  "sample_status_from (n # rest) =
     (if n = 0 then Ok (\<lparr>peers = [], status_rest = ()\<rparr>, rest)
      else Ok (\<lparr>peers = [(''tls:01'', ''10.0.0.1:35000'')], status_rest = ()\<rparr>, rest))"
| "sample_status_from [] = Err (OtherError ''early end'')"

definition sample_error_number :: "ErrorCode \<Rightarrow> u8" where
  "sample_error_number e =
     (case e of FunctionDisabled \<Rightarrow> 1 | UnsupportedRequest \<Rightarrow> 2 | BadRequest \<Rightarrow> 3 | InternalError \<Rightarrow> 4)"

definition sample_casper :: "(sample_response, sample_response \<times> bytes, unit, bytes) casper" where
  "sample_casper =
     \<lparr>header_from_bytes = (\<lambda>bs. case bs of
          v # t # i # rest \<Rightarrow> Ok (\<lparr>hdr_version = ucast v, hdr_type_tag = t, hdr_id = ucast i\<rparr>, rest)
        | _ \<Rightarrow> Err (OtherError ''early end'')),
      HEADER_VERSION = 1,
      command_tag = (\<lambda>t. if t < 3 then Some t else None),
      command_try_from = (\<lambda>t rest. if t = 0
          then (case rest of i # key \<Rightarrow> Ok (Get_Information i key) | [] \<Rightarrow> Err (OtherError ''early end''))
          else Ok Other_Command),
      information_tag = (\<lambda>t. if t < 20 then Some t else None),
      information_try_from = (\<lambda>t key. if t = 4 then Ok Peers_request else Ok Other_Information),
      new_error = (\<lambda>e. (sample_error_number e, None, [])),
      from_raw_bytes = (\<lambda>t p. (0, Some (word_of_nat (type_index t)), p)),
      is_success = (\<lambda>r. fst r = 0),
      resp_error_code = (\<lambda>r. ucast (fst r)),
      response_payload = (\<lambda>r. snd (snd r)),
      returned_data_type_tag = (\<lambda>r. fst (snd r)),
      response_type_of = (\<lambda>t. if unat t < length all_types then Some (all_types ! unat t) else None),
      response_codec = \<lparr>from_bytes = sample_response_from, to_bytes = sample_response_to\<rparr>,
      rr_new = Pair, rr_request = snd, rr_response = fst, rr_response_ref = fst,
      rr_codec = \<lparr>from_bytes = sample_rr_from, to_bytes = sample_rr_to\<rparr>,
      status_codec = \<lparr>from_bytes = sample_status_from, to_bytes = sample_status_to\<rparr>,
      typed_codec = (\<lambda>_. \<lparr>from_bytes = (\<lambda>bs. Ok (bs, [])), to_bytes = Ok\<rparr>),
      message_payload = (\<lambda>p. p),
      error_string = (\<lambda>_. ''bytesrepr error'')\<rparr>"

lemma sample_get_put: "sample_put p = Ok bs \<Longrightarrow> sample_get (bs @ rest) = Ok (p, rest)"
  by (auto simp: unat_of_nat take_bit_eq_mod split: if_splits)

lemma sample_response_rest:
  "sample_response_to r = Ok bs \<Longrightarrow> sample_response_from (bs @ rest) = Ok (r, rest)"
  by (cases r)
     (auto simp: and_then_Ok_iff sample_get_put simp del: sample_put.simps sample_get.simps
       split: option.splits)

lemma sample_rr_rest: "sample_rr_to rr = Ok bs \<Longrightarrow> sample_rr_from bs = Ok (rr, [])"
  using sample_get_put [of _ _ "[]"]
  by (cases rr)
     (auto simp: sample_rr_to_def sample_rr_from_def and_then_Ok_iff sample_response_rest
       simp del: sample_put.simps sample_get.simps sample_response_to.simps sample_response_from.simps)

lemma type_index_all: "unat (word_of_nat (type_index t) :: u8) = type_index t \<and> type_index t < length all_types
    \<and> all_types ! type_index t = t"
proof -
  have mem: "t \<in> set all_types" by (cases t) (simp_all add: all_types_def)
  then have "dropWhile (\<lambda>u. u \<noteq> t) all_types \<noteq> []" by (auto simp: dropWhile_eq_Nil_conv)
  moreover have "length all_types = type_index t + length (dropWhile (\<lambda>u. u \<noteq> t) all_types)"
    unfolding type_index_def length_append [symmetric] by simp
  ultimately have lt: "type_index t < length all_types" by simp
  have "length all_types = 44" by (simp add: all_types_def)
  then have "type_index t < 256" using lt by simp
  moreover have "all_types ! type_index t = t"
    using nth_length_takeWhile [of "\<lambda>u. u \<noteq> t" all_types] lt by (simp add: type_index_def)
  ultimately show ?thesis using lt by (simp add: unat_of_nat take_bit_eq_mod)
qed

lemma sample_casper_laws: "casper_laws sample_casper"
proof -
  have "lossless_codec \<lparr>from_bytes = sample_rr_from, to_bytes = sample_rr_to\<rparr>"
    by unfold_locales (simp add: sample_rr_rest)
  moreover have "lossless_codec \<lparr>from_bytes = sample_response_from, to_bytes = sample_response_to\<rparr>"
    using sample_response_rest [where rest = "[]"] by unfold_locales simp
  moreover have "lossless_codec \<lparr>from_bytes = sample_status_from, to_bytes = sample_status_to\<rparr>"
    by unfold_locales (auto split: if_splits)
  moreover have "lossless_codec \<lparr>from_bytes = (\<lambda>bs. Ok (bs, [])), to_bytes = Ok\<rparr>"
    by unfold_locales simp
  ultimately show ?thesis
    using type_index_all
    by (simp add: casper_laws_def sample_casper_def sample_error_number_def split: ErrorCode.splits)
qed

section \<open>Properties\<close>

text \<open>C18: no client learns about peers. Whatever the node answers, the bytes handed to a client are the
  encoding of the node's envelope (the echoed request is kept) around a response that is an error, or a
  success that is not a peer list and, when it is a node status, one that decodes to an empty peer list;
  with an echoed request, decoding the bytes gives that very envelope.\<close>

theorem rewrite_hides_peers:
  assumes "casper_laws C" and "rewrite_response_bytes C bs = Ok out"
  shows "\<exists>env r'. parse_response_envelope C bs = Ok env
    \<and> serialize_response_envelope C (set_response r' env) = Ok out
    \<and> hides_peers C r'
    \<and> (\<forall>q r. env = WithRequest q r \<longrightarrow> parse_response_envelope C out = Ok (WithRequest q r'))"
proof -
  from assms(2) obtain env r' where p: "parse_response_envelope C bs = Ok env"
    and n: "new_response C (envelope_response env) = Ok r'"
    and s: "serialize_response_envelope C (set_response r' env) = Ok out"
    by (auto simp: rewrite_response_bytes_eq and_then_Ok_iff)
  have "hides_peers C r'" using new_response_hides_peers [OF assms(1) n] .
  moreover have "\<forall>q r. env = WithRequest q r \<longrightarrow> parse_response_envelope C out = Ok (WithRequest q r')"
    using parse_serialized [OF assms(1)] s by auto
  ultimately show ?thesis using p s by blast
qed

lemmas sample_eval = sample_casper_def rewrite_response_bytes_def parse_response_envelope_def
  sample_rr_from_def sample_rr_to_def sanitize_node_status_payload_def roundtrip_response_def
  roundtrip_payload_def all_types_def type_index_def sample_error_number_def OpaquePayload_codec_def

lemma sample_rewrite_status:
  "rewrite_response_bytes sample_casper [0, 1, 1, 1, 1, 2, 7, 8] = Ok [0, 1, 1, 1, 0, 2, 7, 8]"
  by (simp add: sample_eval)

theorem rewrite_hides_peers_witness:
  "\<exists>r'. serialize_response_envelope sample_casper (WithRequest [7, 8] r') = Ok [0, 1, 1, 1, 0, 2, 7, 8]
     \<and> hides_peers sample_casper r'"
  using rewrite_hides_peers [OF sample_casper_laws sample_rewrite_status]
  by (auto simp: parse_response_envelope_def sample_casper_def sample_rr_from_def)

text \<open>C19: everything else passes unchanged, with an echoed request or without. The bytes of an error response,
  of a success without type and payload, and of a success whose payload is a proper encoding of its
  declared type (any bytes for the opaque kinds) are returned as they came: both when they echo a request,
  whatever that is, and when they are a bare response (bytes that do not also decode as a response with an
  echoed request, which is how the code tells the two apart).\<close>

theorem rewrite_transparent:
  assumes "casper_laws C"
    and "to_bytes (rr_codec C) (rr_new C r q) = Ok bs
      \<or> (to_bytes (response_codec C) r = Ok bs \<and> \<not> is_ok (from_bytes (rr_codec C) bs))"
    and "\<not> is_success C r
      \<or> (returned_data_type_tag C r = None \<and> response_payload C r = [])
      \<or> (\<exists>t p. r = from_raw_bytes C t p \<and> t \<noteq> RT_Peers \<and> t \<noteq> RT_NodeStatus
            \<and> (\<forall>T. declared_payload t = Some T \<longrightarrow> (\<exists>v. to_bytes (typed_codec C T) v = Ok p)))"
  shows "rewrite_response_bytes C bs = Ok bs"
proof -
  have "new_response C r = Ok r"
    using assms(3)
  proof (elim disjE exE conjE)
    fix t p
    assume r: "r = from_raw_bytes C t p" and t: "t \<noteq> RT_Peers" "t \<noteq> RT_NodeStatus"
      and v: "\<forall>T. declared_payload t = Some T \<longrightarrow> (\<exists>v. to_bytes (typed_codec C T) v = Ok p)"
    have "rewrite_payload C t p = Ok (from_raw_bytes C t p)"
      using v lossless_codec.roundtrip_canonical [OF casper_lawsD(4) [OF assms(1)]]
      by (auto simp: rewrite_payload_eq [OF t] roundtrip_response_def split: option.splits)
    then show ?thesis by (simp add: r new_response_raw [OF assms(1)])
  qed (simp_all add: new_response_def)
  moreover obtain env where "serialize_response_envelope C env = Ok bs" "parse_response_envelope C bs = Ok env"
      "envelope_response env = r"
    using assms(2)
  proof (elim disjE conjE)
    assume "to_bytes (rr_codec C) (rr_new C r q) = Ok bs"
    then have s: "serialize_response_envelope C (WithRequest q r) = Ok bs" by simp
    show thesis by (rule that [OF s parse_serialized [OF assms(1) s]]) simp
  next
    assume "to_bytes (response_codec C) r = Ok bs" "\<not> is_ok (from_bytes (rr_codec C) bs)"
    then show thesis by (intro that [of "Response r"]) (simp_all add: parse_bare [OF assms(1)])
  qed
  ultimately show ?thesis using set_response_simps(3) [of env] by (simp add: rewrite_response_bytes_eq)
qed

theorem rewrite_transparent_witness:
  "rewrite_response_bytes sample_casper [0, 1, 9, 2, 5, 6, 1, 9] = Ok [0, 1, 9, 2, 5, 6, 1, 9]
   \<and> rewrite_response_bytes sample_casper [3, 0, 0, 0] = Ok [3, 0, 0, 0]"
proof
  show "rewrite_response_bytes sample_casper [0, 1, 9, 2, 5, 6, 1, 9] = Ok [0, 1, 9, 2, 5, 6, 1, 9]"
    by (rule rewrite_transparent [OF sample_casper_laws, where r = "from_raw_bytes sample_casper RT_BlockSignatures [5, 6]" and q = "[9]"])
       (auto simp: sample_casper_def sample_rr_to_def type_index_def all_types_def)
  show "rewrite_response_bytes sample_casper [3, 0, 0, 0] = Ok [3, 0, 0, 0]"
    by (rule rewrite_transparent [OF sample_casper_laws, where r = "(3, None, [])" and q = "[]"])
       (simp_all add: sample_casper_def sample_rr_from_def)
qed

text \<open>Rewriting twice is rewriting once: what the proxy returned for a response with an echoed request
  is a fixed point, so that a proxy in front of a proxy changes nothing more.\<close>

theorem rewrite_idempotent:
  assumes "casper_laws C" and "rewrite_response_bytes C bs = Ok out"
    and "parse_response_envelope C bs = Ok (WithRequest q r)"
  shows "rewrite_response_bytes C out = Ok out"
proof -
  from assms(2,3) obtain r' where n: "new_response C r = Ok r'"
    and s: "serialize_response_envelope C (WithRequest q r') = Ok out"
    by (auto simp: rewrite_response_bytes_eq and_then_Ok_iff)
  show ?thesis
    using s new_response_idem [OF assms(1) n] parse_serialized [OF assms(1) s]
    by (simp add: rewrite_response_bytes_eq)
qed

theorem rewrite_idempotent_witness:
  "rewrite_response_bytes sample_casper [0, 1, 1, 1, 0, 2, 7, 8] = Ok [0, 1, 1, 1, 0, 2, 7, 8]"
  by (rule rewrite_idempotent [OF sample_casper_laws sample_rewrite_status, of "[7, 8]" "(0, Some 1, [1])"])
     (simp add: parse_response_envelope_def sample_casper_def sample_rr_from_def)

end
