(* ===== verification/Binary_Send.thy ===== *)
theory Binary_Send
  imports Binary_Pool Binary_Rewrite
begin

text \<open>
  What a call of \<open>BinaryPool::send\<close> guarantees: which requests reach the node, how they are framed, what
  the client gets back, what is counted, and that no permit is lost. A sample TCP (one byte stream,
  with a stale stream that breaks) carries the witnesses.
\<close>

section \<open>Frames\<close>

definition frame :: "bytes \<Rightarrow> bytes" where
  "frame p = to_le_bytes (word_of_nat (length p)) @ p"

definition unframe :: "bytes \<Rightarrow> (bytes \<times> bytes) option" where
  "unframe bs =
     (let n = unat (from_le_bytes (take LENGTH_BYTES bs)); rest = drop LENGTH_BYTES bs
      in if length bs < LENGTH_BYTES \<or> length rest < n then None else Some (take n rest, drop n rest))"

lemma unframe_frame: "length p < 2 ^ 32 \<Longrightarrow> unframe (frame p @ rest) = Some (p, rest)"
  by (simp add: unframe_def frame_def LENGTH_BYTES_def from_to_le_bytes unat_of_nat take_bit_eq_mod)

lemma frame_of_parts:
  assumes "length b4 = LENGTH_BYTES" and "length p = unat (from_le_bytes b4)"
  shows "frame p = b4 @ p"
  using assms by (simp add: frame_def LENGTH_BYTES_def to_from_le_bytes)

text \<open>
  The documented behaviour of \<open>write_all\<close>, \<open>flush\<close> and \<open>read_exact\<close> when they succeed, for a view of the
  world as the bytes sent on the stream and the bytes still to be received.
\<close>

definition byte_stream :: "('w, 's) tcp \<Rightarrow> 's \<Rightarrow> ('w \<Rightarrow> bytes) \<Rightarrow> ('w \<Rightarrow> bytes) \<Rightarrow> bool" where
  "byte_stream T s sent incoming \<longleftrightarrow>
     (\<forall>b w w'. write_all T s b w = (Ok (), w') \<longrightarrow> sent w' = sent w @ b \<and> incoming w' = incoming w)
   \<and> (\<forall>w w'. flush T s w = (Ok (), w') \<longrightarrow> sent w' = sent w \<and> incoming w' = incoming w)
   \<and> (\<forall>n w bs w'. read_exact T s n w = (Ok bs, w') \<longrightarrow>
        length bs = n \<and> incoming w = bs @ incoming w' \<and> sent w' = sent w)"

lemma io_Ok: "io m w = (Ok a, w') \<longleftrightarrow> m w = (Ok a, w')"
  by (auto simp: io_def split: prod.splits)

lemma io_Err: "io m w = (Err e, w') \<longleftrightarrow> (\<exists>x. m w = (Err x, w') \<and> e = Io x)"
  by (auto simp: io_def map_err_Err_iff split: prod.splits)

lemma bind_io_eq_Err:
  "bind_io m f w = (Err e, w'') \<longleftrightarrow>
     m w = (Err e, w'') \<or> (\<exists>a w'. m w = (Ok a, w') \<and> f a w' = (Err e, w''))"
  by (auto simp: bind_io_def split: prod.splits result.splits)

lemma send_and_receive_Ok:
  assumes "send_and_receive C T s p w = (Ok r, w')"
  obtains w1 w2 w3 w4 b4 where
    "write_all T s (to_le_bytes (word_of_nat (length (message_payload C p)))) w = (Ok (), w1)"
    "write_all T s (message_payload C p) w1 = (Ok (), w2)" "flush T s w2 = (Ok (), w3)"
    "read_exact T s LENGTH_BYTES w3 = (Ok b4, w4)" "read_exact T s (unat (from_le_bytes b4)) w4 = (Ok r, w')"
  using assms by (auto simp: send_and_receive_def Let_def bind_io_eq_Ok io_Ok)

lemma send_and_receive_Err: "send_and_receive C T s p w = (Err e, w') \<Longrightarrow> \<exists>x. e = Io x"
  by (auto simp: send_and_receive_def Let_def bind_io_eq_Err io_Err)

lemma reconnect_Err: "reconnect T address conn w = (Err e, w') \<Longrightarrow> \<exists>x. e = Io x"
  by (auto simp: reconnect_def bind_io_eq_Err io_Err)

lemma exchange_Err: "exchange_with_retry C T address conn p w = (Err e, conn', w') \<Longrightarrow> \<exists>x. e = Io x"
  by (auto simp: exchange_with_retry_def dest: send_and_receive_Err reconnect_Err
      split: prod.splits if_splits result.splits)

section \<open>Capacity\<close>

text \<open>The permits a pool can still hand out or has in its idle connections.\<close>

definition capacity :: "'s BinaryPool \<Rightarrow> nat" where
  "capacity P = semaphore P + length (pool_conns P)"

lemma get_connection_spec:
  assumes "get_connection T P w = (r, P', w')"
  shows "pool_network P' = pool_network P \<and> pool_address P' = pool_address P
    \<and> (case r of
         None \<Rightarrow> P' = P \<and> w' = w \<and> capacity P = 0
       | Some (Ok conn) \<Rightarrow>
           capacity P = Suc (capacity P')
           \<and> P' = (if pool_conns P = [] then P\<lparr>semaphore := semaphore P - 1\<rparr>
                   else P\<lparr>pool_conns := butlast (pool_conns P)\<rparr>)
       | Some (Err e) \<Rightarrow> P' = P \<and> (\<exists>x. e = Io x) \<and> pool_conns P = [] \<and> 0 < semaphore P)"
  using assms
  by (auto simp: get_connection_eq capacity_def Let_def io_Err split: if_splits prod.splits result.splits)

lemma get_connection_Ok:
  assumes "get_connection T P w = (Some (Ok conn), P1, w1)"
  shows "capacity P = Suc (capacity P1)"
    and "pool_conns P = [] \<Longrightarrow> P1 = P\<lparr>semaphore := semaphore P - 1\<rparr> \<and> 0 < semaphore P"
    and "pool_conns P \<noteq> [] \<Longrightarrow> P1 = P\<lparr>pool_conns := butlast (pool_conns P)\<rparr>"
  using assms
  by (auto simp: get_connection_eq capacity_def Let_def split: if_splits prod.splits result.splits)

lemma finish_exchange_spec:
  assumes "finish_exchange C q result conn P log = (r, P', log')"
  shows "P' = (if is_ok r then return_connection conn P else drop_connection P)
    \<and> log' = log @ (if is_ok r then [Inc binary_responses_total [pool_network P, ''ok'']]
              else if is_ok result then [] else [Inc binary_responses_total [pool_network P, ''error'']])"
  using assms by (auto simp: finish_exchange_def metric_defs emit_def split: result.splits)

lemma capacity_finished [simp]:
  "capacity (return_connection conn P) = Suc (capacity P)"
  "capacity (drop_connection P) = Suc (capacity P)"
  by (simp_all add: capacity_def return_connection_def drop_connection_def)

section \<open>The ways a call can go\<close>

text \<open>The requests that are forwarded, and the replies to the others.\<close>

definition admitted :: "('resp, 'rr, 'st, 'val) casper \<Rightarrow> bytes \<Rightarrow> bool" where
  "admitted C q =
     (case parse_request C q of
        Err _ \<Rightarrow> False
      | Ok parsed \<Rightarrow> length q \<le> MAX_MESSAGE_SIZE_BYTES \<and> information_request parsed \<noteq> Some Peers_request)"

definition local_reply :: "('resp, 'rr, 'st, 'val) casper \<Rightarrow> bytes \<Rightarrow> (bytes, BinaryError) result" where
  "local_reply C q =
     (case parse_request C q of
        Err err \<Rightarrow> build_error_response C (request_error_code err) q
      | Ok parsed \<Rightarrow>
          if MAX_MESSAGE_SIZE_BYTES < length q
          then Err (RequestTooLarge MAX_MESSAGE_SIZE_BYTES (length q))
          else build_error_response C FunctionDisabled q)"

lemma send_local:
  assumes "\<not> admitted C q"
  shows "send C T P q log w =
    (Some (local_reply C q), P,
     log @ [Inc binary_inflight_requests [pool_network P],
            Inc binary_responses_total [pool_network P, ''error''],
            Dec binary_inflight_requests [pool_network P]], w)"
  using assms
  by (auto simp: send_def send_inner_def admitted_def local_reply_def metric_defs emit_def Let_def
      split: result.splits if_splits)

lemma send_forwarded:
  assumes "admitted C q"
  shows "send C T P q log w =
    (case get_connection T P w of
       (None, P1, w1) \<Rightarrow> (None, P1, log @ [Inc binary_inflight_requests [pool_network P]], w1)
     | (Some connection_result, P1, w1) \<Rightarrow>
         (let log1 = log @ [Inc binary_inflight_requests [pool_network P],
                Observe binary_queue_wait_seconds [pool_network P1] (tcp_clock T w1 - tcp_clock T w)]
          in case connection_result of
               Err e \<Rightarrow> (Some (Err e), P1, log1 @
                 [Inc binary_responses_total [pool_network P1, ''error''],
                  Dec binary_inflight_requests [pool_network P]], w1)
             | Ok conn \<Rightarrow>
                 (case exchange_with_retry C T (pool_address P1) conn q w1 of
                    (result, conn', w2) \<Rightarrow>
                      (case finish_exchange C q result conn' P1 log1 of
                         (r, P2, log2) \<Rightarrow>
                           (Some r, P2, log2 @ [Dec binary_inflight_requests [pool_network P]], w2)))))"
proof -
  obtain parsed where "parse_request C q = Ok parsed" "\<not> MAX_MESSAGE_SIZE_BYTES < length q"
      "information_request parsed \<noteq> Some Peers_request"
    using assms by (auto simp: admitted_def split: result.splits)
  then show ?thesis
    by (simp add: send_def send_inner_def metric_defs emit_def Let_def
        split: result.splits prod.splits option.splits)
qed

lemma send_cases:
  assumes "send C T P q log w = (r, P', log', w')"
  obtains
    (declined) "\<not> admitted C q" "r = Some (local_reply C q)" "P' = P" "w' = w"
      "log' = log @ [Inc binary_inflight_requests [pool_network P],
         Inc binary_responses_total [pool_network P, ''error''], Dec binary_inflight_requests [pool_network P]]"
  | (waiting) "admitted C q" "r = None" "P' = P" "w' = w" "capacity P = 0"
      "log' = log @ [Inc binary_inflight_requests [pool_network P]]"
  | (unreachable) x d where "admitted C q" "r = Some (Err (Io x))" "P' = P"
      "pool_conns P = []" "0 < semaphore P"
      "log' = log @ [Inc binary_inflight_requests [pool_network P],
         Observe binary_queue_wait_seconds [pool_network P] d,
         Inc binary_responses_total [pool_network P, ''error''], Dec binary_inflight_requests [pool_network P]]"
  | (exchanged) conn P1 w1 result conn' r' d where "admitted C q"
      "get_connection T P w = (Some (Ok conn), P1, w1)"
      "exchange_with_retry C T (pool_address P) conn q w1 = (result, conn', w')"
      "r = Some r'" "fst (finish_exchange C q result conn' P1 []) = r'"
      "P' = (if is_ok r' then return_connection conn' P1 else drop_connection P1)"
      "log' = log @ [Inc binary_inflight_requests [pool_network P],
         Observe binary_queue_wait_seconds [pool_network P] d]
         @ (if is_ok r' then [Inc binary_responses_total [pool_network P, ''ok'']]
            else if is_ok result then [] else [Inc binary_responses_total [pool_network P, ''error'']])
         @ [Dec binary_inflight_requests [pool_network P]]"
proof (cases "admitted C q")
  case False
  then show thesis using assms by (intro declined) (auto simp: send_local)
next
  case adm: True
  obtain cr P1 w1 where g: "get_connection T P w = (cr, P1, w1)" by (metis prod_cases3)
  note gs = get_connection_spec [OF g]
  show thesis
  proof (cases cr)
    case None
    then show thesis using assms adm g gs by (intro waiting) (auto simp: send_forwarded)
  next
    case (Some res)
    show thesis
    proof (cases res)
      case (Err e)
      then show thesis using assms adm g gs Some by (auto simp: send_forwarded Let_def intro: unreachable)
    next
      case (Ok conn)
      let ?log1 = "log @ [Inc binary_inflight_requests [pool_network P],
                Observe binary_queue_wait_seconds [pool_network P] (tcp_clock T w1 - tcp_clock T w)]"
      obtain result conn' w2 where e: "exchange_with_retry C T (pool_address P) conn q w1 = (result, conn', w2)"
        by (metis prod_cases3)
      obtain r' P2 log2 where f: "finish_exchange C q result conn' P1 ?log1 = (r', P2, log2)"
        by (metis prod_cases3)
      have r': "fst (finish_exchange C q result conn' P1 []) = r'"
        using f by (auto simp: finish_exchange_def split: result.splits)
      show thesis
        using assms adm g gs Some Ok e f finish_exchange_spec [OF f] r'
        by (intro exchanged [of conn P1 w1 result conn' r' "tcp_clock T w1 - tcp_clock T w"])
           (auto simp: send_forwarded Let_def)
    qed
  qed
qed

section \<open>Replies and permits\<close>

lemma send_reply_hides_peers:
  assumes "casper_laws C" and "send C T P q log w = (Some (Ok out), P', log', w')"
  shows "\<exists>env. serialize_response_envelope C env = Ok out \<and> hides_peers C (envelope_response env)"
proof -
  have err: "\<exists>env. serialize_response_envelope C env = Ok out \<and> hides_peers C (envelope_response env)"
    if "build_error_response C code q = Ok out" for code
    using that by (intro exI [of _ "WithRequest q (new_error C code)"])
      (simp add: build_error_response_def hides_peers_def casper_lawsD [OF assms(1)])
  from assms(2) show ?thesis
  proof (cases rule: send_cases)
    case declined
    then show ?thesis using err by (auto simp: local_reply_def split: result.splits if_splits)
  next
    case (exchanged conn P1 w1 result conn' r' d)
    then have "(\<exists>bs. rewrite_response_bytes C bs = Ok out) \<or> (\<exists>code. build_error_response C code q = Ok out)"
      by (auto simp: finish_exchange_def split: result.splits)
    then show ?thesis
      using err rewrite_hides_peers_env [OF assms(1)] by blast
  qed simp_all
qed

lemma send_capacity:
  assumes "send C T P q log w = (r, P', log', w')"
  shows "capacity P' = capacity P \<and> (r = None \<longrightarrow> capacity P = 0 \<and> P' = P \<and> w' = w)"
  using assms
proof (cases rule: send_cases)
  case (exchanged conn P1 w1 result conn' r' d)
  then show ?thesis using get_connection_spec [OF exchanged(2)] by simp
qed simp_all

lemma send_local_reply:
  "send C T P q log w = (Some r, P', log', w') \<Longrightarrow> admitted C q \<or> r = local_reply C q"
  by (cases "admitted C q") (simp_all add: send_local)

section \<open>A sample TCP\<close>

text \<open>
  The world is the bytes sent, the bytes still to come and the number of connections made; a connection
  gets its number as its stream, and stream 99 is stale: writing to it breaks.
\<close>

definition sample_tcp :: "(bytes \<times> bytes \<times> nat, nat) tcp" where
  "sample_tcp =
     \<lparr>tcp_connect = (\<lambda>_ w. case w of (out, inc, n) \<Rightarrow> (Ok n, out, inc, Suc n)),
      write_all = (\<lambda>s b w. if s = 99 then (Err \<lparr>io_kind = BrokenPipe, io_message = ''broken pipe''\<rparr>, w)
                     else case w of (out, inc, n) \<Rightarrow> (Ok (), out @ b, inc, n)),
      flush = (\<lambda>s w. (Ok (), w)),
      read_exact = (\<lambda>s k w. case w of (out, inc, n) \<Rightarrow>
          if k \<le> length inc then (Ok (take k inc), out, drop k inc, n)
          else (Err \<lparr>io_kind = UnexpectedEof, io_message = ''early eof''\<rparr>, w)),
      tcp_clock = (\<lambda>_. 0)\<rparr>"

lemma sample_byte_stream: "byte_stream sample_tcp s fst (\<lambda>w. fst (snd w))"
  by (auto simp: byte_stream_def sample_tcp_def split: if_splits)

lemmas send_eval = sample_casper_def sample_tcp_def send_and_receive_def io_def bind_io_def Let_def
  LENGTH_BYTES_def to_le_bytes_def from_le_bytes_def exchange_with_retry_def reconnect_def

lemma sample_admitted: "admitted sample_casper [1, 0, 7, 5]"
  by (simp add: admitted_def parse_request_def sample_casper_def MAX_MESSAGE_SIZE_BYTES_def)

text \<open>A node status is asked for over a stale connection; the node answers with its peers.\<close>

definition sample_pool :: "nat BinaryPool" where
  "sample_pool = (fresh_pool ''main'' ''node:7779'' 2)\<lparr>semaphore := 1, pool_conns := [\<lparr>stream = 99\<rparr>]\<rparr>"

definition sample_answer :: bytes where
  "sample_answer = [0, 1, 1, 1, 1, 2, 7, 8]"

lemma sample_get_connection:
  "get_connection sample_tcp sample_pool w = (Some (Ok \<lparr>stream = 99\<rparr>), sample_pool\<lparr>pool_conns := []\<rparr>, w)"
  by (simp add: get_connection_eq sample_pool_def)

lemma sample_first:
  "send_and_receive sample_casper sample_tcp 99 q w
     = (Err (Io \<lparr>io_kind = BrokenPipe, io_message = ''broken pipe''\<rparr>), w)"
  by (simp add: send_eval)

lemma sample_reconnect:
  "reconnect sample_tcp a conn ([], frame sample_answer, 0) = (Ok \<lparr>stream = 0\<rparr>, [], frame sample_answer, Suc 0)"
  by (simp add: reconnect_def bind_io_def io_def sample_tcp_def)

lemma sample_second:
  "send_and_receive sample_casper sample_tcp 0 [1, 0, 7, 5] ([], frame sample_answer, Suc 0)
     = (Ok sample_answer, frame [1, 0, 7, 5], [], Suc 0)"
  by (simp add: frame_def sample_answer_def send_eval)

lemma sample_send:
  "\<exists>P' log' w'. send sample_casper sample_tcp sample_pool [1, 0, 7, 5] [] ([], frame sample_answer, 0)
     = (Some (Ok [0, 1, 1, 1, 0, 2, 7, 8]), P', log', w')"
  using sample_admitted sample_rewrite_status [folded sample_answer_def]
  by (simp add: send_forwarded sample_get_connection exchange_with_retry_def sample_first
      sample_reconnect sample_second finish_exchange_def Let_def)

section \<open>Properties\<close>

text \<open>C2: no reply of \<open>send\<close> tells a client about peers: bytes that \<open>send\<close> returns are the encoding of an
  envelope whose response is an error or hides the peers, whatever the request was, whatever the node
  answered and whether or not the call had to reconnect.\<close>

theorem send_hides_peers:
  assumes "casper_laws C" and "send C T P q log w = (Some (Ok out), P', log', w')"
  shows "\<exists>env. serialize_response_envelope C env = Ok out \<and> hides_peers C (envelope_response env)"
  using assms by (rule send_reply_hides_peers)

theorem send_hides_peers_witness:
  "\<exists>out P' log' w' env. send sample_casper sample_tcp sample_pool [1, 0, 7, 5] [] ([], frame sample_answer, 0)
       = (Some (Ok out), P', log', w')
     \<and> serialize_response_envelope sample_casper env = Ok out
     \<and> hides_peers sample_casper (envelope_response env)"
proof -
  obtain P' log' w' where
    "send sample_casper sample_tcp sample_pool [1, 0, 7, 5] [] ([], frame sample_answer, 0)
       = (Some (Ok [0, 1, 1, 1, 0, 2, 7, 8]), P', log', w')"
    using sample_send by blast
  from send_hides_peers [OF sample_casper_laws this] this show ?thesis by blast
qed

text \<open>C28: a request that is not to be forwarded (it does not parse, is longer than 4 MiB, or asks for
  peers) never touches the pool or the network: the call returns at once with the pool and the world as
  they were, the reply is the error the code prescribes for its case, and it is counted as one error.\<close>

theorem send_declines_locally:
  assumes "\<not> admitted C q"
  shows "\<exists>log'. send C T P q log w = (Some (local_reply C q), P, log', w)
    \<and> counter binary_responses_total [pool_network P, ''error''] log'
      = counter binary_responses_total [pool_network P, ''error''] log + 1
    \<and> (\<forall>parsed. parse_request C q = Ok parsed \<and> information_request parsed = Some Peers_request
          \<and> length q \<le> MAX_MESSAGE_SIZE_BYTES \<longrightarrow>
        local_reply C q = build_error_response C FunctionDisabled q)"
  using assms by (auto simp: send_local local_reply_def counter_def)

theorem send_declines_locally_witness:
  "\<exists>log'. send sample_casper sample_tcp sample_pool [1, 0, 7, 4] [] ([], [], 0)
      = (Some (Ok [1, 0, 0, 0, 4, 1, 0, 7, 4]), sample_pool, log', ([], [], 0))"
proof -
  have p: "parse_request sample_casper [1, 0, 7, 4] =
      Ok \<lparr>header = \<lparr>hdr_version = 1, hdr_type_tag = 0, hdr_id = 7\<rparr>, information_request = Some Peers_request\<rparr>"
    by (simp add: parse_request_def sample_casper_def)
  then have "\<not> admitted sample_casper [1, 0, 7, 4]" by (simp add: admitted_def)
  from send_declines_locally [OF this, of sample_tcp sample_pool "[]" "([], [], 0)"] p show ?thesis
    by (auto simp: local_reply_def MAX_MESSAGE_SIZE_BYTES_def build_error_response_def sample_casper_def
        sample_rr_to_def sample_error_number_def)
qed

text \<open>C10: a call never loses or invents a permit. A call that runs alone leaves permits and idle connections
  together as many as they were, whether it was declined, failed to connect, failed in the exchange (the
  connection is closed and its permit released) or succeeded (the connection goes back to the pool); when
  it waits, there was neither a permit nor an idle connection and nothing has changed. With other calls in
  between, each step on its own keeps the balance in any pool it meets: looking for an idle connection takes
  one out if there is one; waiting then depends on the permits alone, however many connections have become
  idle since; and a permit is used up only by a connection that was opened.\<close>

theorem send_keeps_capacity:
  assumes "send C T P q log w = (r, P', log', w')"
  shows "capacity P' = capacity P \<and> (r = None \<longrightarrow> capacity P = 0 \<and> P' = P \<and> w' = w)
    \<and> (case take_idle P2 of
         (None, P3) \<Rightarrow> pool_conns P2 = [] \<and> P3 = P2
       | (Some conn, P3) \<Rightarrow> semaphore P3 = semaphore P2 \<and> pool_conns P2 = pool_conns P3 @ [conn])
    \<and> (case open_connection T P2 w2 of
         (None, P3, w3) \<Rightarrow> semaphore P2 = 0 \<and> P3 = P2 \<and> w3 = w2
       | (Some (Ok conn), P3, w3) \<Rightarrow> semaphore P2 = Suc (semaphore P3) \<and> pool_conns P3 = pool_conns P2
       | (Some (Err e), P3, w3) \<Rightarrow> 0 < semaphore P2 \<and> P3 = P2)"
proof (intro conjI)
  show "case open_connection T P2 w2 of
         (None, P3, w3) \<Rightarrow> semaphore P2 = 0 \<and> P3 = P2 \<and> w3 = w2
       | (Some (Ok conn), P3, w3) \<Rightarrow> semaphore P2 = Suc (semaphore P3) \<and> pool_conns P3 = pool_conns P2
       | (Some (Err e), P3, w3) \<Rightarrow> 0 < semaphore P2 \<and> P3 = P2"
    by (auto simp: open_connection_def Let_def split: prod.split result.split)
qed (use send_capacity [OF assms] in \<open>auto simp: take_idle_def\<close>)

theorem send_keeps_capacity_witness:
  "capacity (fst (snd (send sample_casper sample_tcp sample_pool [1, 0, 7, 5] [] ([], [], 0)))) = 2"
proof -
  obtain r P' log' w' where s: "send sample_casper sample_tcp sample_pool [1, 0, 7, 5] [] ([], [], 0) = (r, P', log', w')"
    by (metis prod_cases4)
  show ?thesis using send_keeps_capacity [OF s] s by (simp add: capacity_def sample_pool_def)
qed

text \<open>C29: outcomes are counted once. A call that has returned has added exactly one to the outcome \<open>ok\<close>
  when a forwarded request was answered and exactly one to \<open>error\<close> when it was declined or failed,
  with one exception: when the node's answer cannot be rewritten and the error reply cannot be encoded
  either, nothing is counted. The gauge of requests in flight is back where it was, and a call that
  still waits holds one unit of it.\<close>

theorem send_accounts:
  assumes "send C T P q log w = (r, P', log', w')"
  shows "counter binary_responses_total [pool_network P, ''ok''] log' =
      counter binary_responses_total [pool_network P, ''ok''] log
        + (if admitted C q \<and> (\<exists>out. r = Some (Ok out)) then 1 else 0)
    \<and> counter binary_responses_total [pool_network P, ''error''] log' =
      counter binary_responses_total [pool_network P, ''error''] log
        + (if admitted C q then (if \<exists>x. r = Some (Err (Io x)) then 1 else 0) else 1)
    \<and> (admitted C q \<and> (\<exists>e. r = Some (Err e)) \<longrightarrow> (\<exists>x. r = Some (Err (Io x))) \<or> (\<exists>m. r = Some (Err (ResponseEncoding m))))
    \<and> level binary_inflight_requests ls log' =
      level binary_inflight_requests ls log + (if r = None then (if ls = [pool_network P] then 1 else 0) else 0)
    \<and> (log_ok log' \<longleftrightarrow> log_ok log)"
  using assms
proof (cases rule: send_cases)
  case declined
  then show ?thesis by (simp add: counter_def level_def log_ok_def)
next
  case waiting
  then show ?thesis by (simp add: counter_def level_def log_ok_def)
next
  case (unreachable x d)
  then show ?thesis by (simp add: counter_def level_def log_ok_def)
next
  case (exchanged conn P1 w1 result conn' r' d)
  have kinds: "(\<exists>out. r' = Ok out) \<or> (is_ok result \<and> (\<exists>m. r' = Err (ResponseEncoding m)))
      \<or> (\<not> is_ok result \<and> (\<exists>x. r' = Err (Io x)))"
    using exchanged(5) exchange_Err [of C T "pool_address P" conn q w1] exchanged(3)
    by (auto simp: finish_exchange_def build_error_response_def map_err_Err_iff split: result.splits)
  then show ?thesis
    using exchanged(1,4,7) by (auto simp: counter_def level_def log_ok_def)
qed

theorem send_accounts_witness:
  "\<exists>r P' log' w'. send sample_casper sample_tcp sample_pool [1, 0, 7, 5] [] ([], frame sample_answer, 0)
       = (Some r, P', log', w')
     \<and> counter binary_responses_total [''main'', ''ok''] log' = 1
     \<and> counter binary_responses_total [''main'', ''error''] log' = 0
     \<and> level binary_inflight_requests [''main''] log' = 0"
proof -
  obtain P' log' w' where
    s: "send sample_casper sample_tcp sample_pool [1, 0, 7, 5] [] ([], frame sample_answer, 0)
       = (Some (Ok [0, 1, 1, 1, 0, 2, 7, 8]), P', log', w')"
    using sample_send by blast
  have "pool_network sample_pool = ''main''" by (simp add: sample_pool_def fresh_pool_def)
  with send_accounts [OF s, of "[''main'']"] sample_admitted
  have "counter binary_responses_total [''main'', ''ok''] log' = 1
     \<and> counter binary_responses_total [''main'', ''error''] log' = 0
     \<and> level binary_inflight_requests [''main''] log' = 0" by simp
  with s show ?thesis by blast
qed

text \<open>C22: the exchange is framed losslessly. For a request of at most 4 MiB, a successful exchange has
  put on the stream one frame that a reader splits back into exactly the request, has consumed exactly
  one frame of the incoming bytes, and returns its contents.\<close>

theorem exchange_framed:
  assumes "casper_laws C" and "byte_stream T s sent incoming" and "length q \<le> MAX_MESSAGE_SIZE_BYTES"
    and "send_and_receive C T s q w = (Ok resp, w')"
  shows "\<exists>out. sent w' = sent w @ out \<and> (\<forall>rest. unframe (out @ rest) = Some (q, rest))
    \<and> unframe (incoming w) = Some (resp, incoming w')"
proof -
  have m: "message_payload C q = q" by (rule casper_lawsD(11) [OF assms(1)])
  obtain w1 w2 w3 w4 b4 where
    "write_all T s (to_le_bytes (word_of_nat (length q))) w = (Ok (), w1)"
    "write_all T s q w1 = (Ok (), w2)" "flush T s w2 = (Ok (), w3)"
    "read_exact T s LENGTH_BYTES w3 = (Ok b4, w4)" "read_exact T s (unat (from_le_bytes b4)) w4 = (Ok resp, w')"
    by (rule send_and_receive_Ok [OF assms(4), unfolded m])
  then have io: "sent w' = sent w @ frame q" "incoming w = b4 @ resp @ incoming w'"
      "length b4 = LENGTH_BYTES" "length resp = unat (from_le_bytes b4)"
    using assms(2) unfolding byte_stream_def frame_def by (metis append.assoc)+
  have "length q < 2 ^ 32" using assms(3) by (simp add: MAX_MESSAGE_SIZE_BYTES_def)
  moreover have "length resp < 2 ^ 32" using io(4) unsigned_less [of "from_le_bytes b4"] by simp
  ultimately show ?thesis
    using io unframe_frame frame_of_parts [OF io(3,4)] by (metis append.assoc)
qed

theorem exchange_framed_witness:
  "\<exists>out. frame [1, 0, 7, 5] = [] @ out \<and> unframe (frame sample_answer) = Some (sample_answer, [])"
  using exchange_framed [OF sample_casper_laws sample_byte_stream _ sample_second]
  by (simp add: MAX_MESSAGE_SIZE_BYTES_def)

text \<open>A stale pooled connection is replaced. When the idle connection fails with one of the four
  retryable kinds and the node accepts a new connection and answers on it, the client gets that answer
  (rewritten) and the pool keeps the new connection in place of the stale one.\<close>

theorem send_replaces_stale:
  assumes "admitted C q" and "pool_conns P = conns @ [conn]"
    and "send_and_receive C T (stream conn) q w = (Err (Io x), w1)"
    and "io_kind x \<in> {UnexpectedEof, ConnectionReset, ConnectionAborted, BrokenPipe}"
    and "tcp_connect T (pool_address P) w1 = (Ok s, w2)"
    and "send_and_receive C T s q w2 = (Ok bs, w3)"
    and "rewrite_response_bytes C bs = Ok out"
  shows "\<exists>log'. send C T P q log w = (Some (Ok out), P\<lparr>pool_conns := conns @ [conn\<lparr>stream := s\<rparr>]\<rparr>, log', w3)"
  using assms
  by (auto simp: send_forwarded get_connection_eq exchange_with_retry_def reconnect_def bind_io_def io_def
      finish_exchange_def return_connection_def Let_def)

theorem send_replaces_stale_witness:
  "\<exists>log'. send sample_casper sample_tcp sample_pool [1, 0, 7, 5] [] ([], frame sample_answer, 0)
     = (Some (Ok [0, 1, 1, 1, 0, 2, 7, 8]), sample_pool\<lparr>pool_conns := [\<lparr>stream = 0\<rparr>]\<rparr>, log',
        (frame [1, 0, 7, 5], [], 1))"
  using send_replaces_stale [OF sample_admitted _ _ _ _ sample_second,
      where P = sample_pool and conns = "[]" and conn = "\<lparr>stream = 99\<rparr>" and w = "([], frame sample_answer, 0)"
        and out = "[0, 1, 1, 1, 0, 2, 7, 8]" and log = "[]"]
    sample_rewrite_status
  by (simp add: sample_first sample_pool_def sample_answer_def) (simp add: sample_tcp_def)

end
