(* ===== verification/Binary_Log.thy ===== *)
theory Binary_Log
  imports Binary_Send
begin

text \<open>
  \<open>log_binary_response\<close> of \<open>src/binary_proxy.rs\<close>: what \<open>send\<close> writes to the log about a reply before it
  returns the connection. A record of the log is the macro that is called with its fields; where the
  records go is the subscriber's business. The function decodes the reply once more, so that its records
  say what a client would decode.
\<close>

section \<open>The records\<close>

record response_summary =
  response_success :: bool
  response_error_code :: u16
  response_payload_type :: "u8 option"
  response_payload_len :: nat
  response_request_len :: "nat option"

datatype log_record =
    WarnTrailing string "u16 option" nat
  | WarnUndecodable string "u16 option" string
  | DebugResponse string "u16 option" response_summary

definition summary :: "('resp, 'rr, 'st, 'val) casper \<Rightarrow> 'resp \<Rightarrow> nat option \<Rightarrow> response_summary" where
  "summary C resp request_len =
     \<lparr>response_success = is_success C resp,
      response_error_code = resp_error_code C resp,
      response_payload_type = returned_data_type_tag C resp,
      response_payload_len = length (response_payload C resp),
      response_request_len = request_len\<rparr>"

definition warn_trailing :: "string \<Rightarrow> u16 option \<Rightarrow> bytes \<Rightarrow> log_record list" where
  "warn_trailing address request_id remainder =
     (if remainder \<noteq> [] then [WarnTrailing address request_id (length remainder)] else [])"

definition log_binary_response ::
  "('resp, 'rr, 'st, 'val) casper \<Rightarrow> string \<Rightarrow> u16 option \<Rightarrow> bytes \<Rightarrow> log_record list" where
  "log_binary_response C address request_id response_bytes =
     (case from_bytes (rr_codec C) response_bytes of
        Ok (rr, remainder) \<Rightarrow>
          warn_trailing address request_id remainder
          @ [DebugResponse address request_id
               (summary C (rr_response_ref C rr) (Some (length (rr_request C rr))))]
      | Err _ \<Rightarrow>
          (case from_bytes (response_codec C) response_bytes of
             Err err \<Rightarrow> [WarnUndecodable address request_id (error_string C err)]
           | Ok (resp, remainder) \<Rightarrow>
               warn_trailing address request_id remainder
               @ [DebugResponse address request_id (summary C resp None)]))"

section \<open>What is logged about an encoded envelope\<close>

fun is_debug :: "log_record \<Rightarrow> bool" where
  "is_debug (DebugResponse _ _ _) = True"
| "is_debug _ = False"

lemma is_debug_trailing [simp]: "filter is_debug (warn_trailing a i r) = []"
  by (simp add: warn_trailing_def)

lemma log_with_request:
  assumes "casper_laws C" and "serialize_response_envelope C (WithRequest q r) = Ok bs"
  shows "log_binary_response C address i bs = [DebugResponse address i (summary C r (Some (length q)))]"
proof -
  have "to_bytes (rr_codec C) (rr_new C r q) = Ok bs" using assms(2) by simp
  from lossless_codec.decode_encode [OF casper_lawsD(1) [OF assms(1)] this]
  show ?thesis by (simp add: log_binary_response_def warn_trailing_def casper_lawsD [OF assms(1)])
qed

lemma log_without_request:
  assumes "casper_laws C" and "serialize_response_envelope C (Response r) = Ok bs"
    and "\<not> is_ok (from_bytes (rr_codec C) bs)"
  shows "log_binary_response C address i bs = [DebugResponse address i (summary C r None)]"
proof -
  have "to_bytes (response_codec C) r = Ok bs" using assms(2) by simp
  from lossless_codec.decode_encode [OF casper_lawsD(2) [OF assms(1)] this] assms(3)
  show ?thesis by (cases "from_bytes (rr_codec C) bs") (simp_all add: log_binary_response_def warn_trailing_def)
qed

lemma log_ambiguous:
  assumes "is_ok (from_bytes (rr_codec C) bs)"
  shows "\<exists>s. filter is_debug (log_binary_response C address i bs) = [DebugResponse address i s]"
  using assms by (cases "from_bytes (rr_codec C) bs") (auto simp: log_binary_response_def split: prod.splits)

section \<open>Properties\<close>

text \<open>The log tells the truth about every reply. A reply that \<open>send\<close> returns is logged with exactly one
  debug record; when it echoes its request, that record is the whole output, with no warning, and its
  fields are the success flag, error code, type and lengths of the response the client gets, which
  hides the peers. The same holds for a reply without
  an echoed request unless its bytes also decode as one with a request.\<close>

theorem send_logs_reply:
  assumes "casper_laws C" and "send C T P q log w = (Some (Ok out), P', log', w')"
  shows "\<exists>env. serialize_response_envelope C env = Ok out \<and> hides_peers C (envelope_response env)
    \<and> (\<exists>s. filter is_debug (log_binary_response C address i out) = [DebugResponse address i s])
    \<and> (case env of
         WithRequest request r \<Rightarrow>
           log_binary_response C address i out = [DebugResponse address i (summary C r (Some (length request)))]
       | Response r \<Rightarrow>
           is_ok (from_bytes (rr_codec C) out)
           \<or> log_binary_response C address i out = [DebugResponse address i (summary C r None)])"
proof -
  obtain env where env: "serialize_response_envelope C env = Ok out" "hides_peers C (envelope_response env)"
    using send_reply_hides_peers [OF assms] by blast
  show ?thesis
  proof (cases env)
    case (WithRequest request r)
    then show ?thesis using env log_with_request [OF assms(1), of request r out] by (intro exI [of _ env]) simp
  next
    case (Response r)
    then have plain: "is_ok (from_bytes (rr_codec C) out)
        \<or> log_binary_response C address i out = [DebugResponse address i (summary C r None)]"
      using env(1) log_without_request [OF assms(1), of r out] by blast
    then have "\<exists>s. filter is_debug (log_binary_response C address i out) = [DebugResponse address i s]"
      using log_ambiguous [of C out address i] by auto
    with plain Response env show ?thesis by (intro exI [of _ env]) simp
  qed
qed

lemma sample_reply_log:
  "log_binary_response sample_casper ''node:7779'' (Some 7) [0, 1, 1, 1, 0, 2, 7, 8] =
     [DebugResponse ''node:7779'' (Some 7)
        \<lparr>response_success = True, response_error_code = 0, response_payload_type = Some 1,
         response_payload_len = 1, response_request_len = Some 2\<rparr>]"
  by (simp add: log_binary_response_def sample_casper_def sample_rr_from_def warn_trailing_def summary_def)

theorem send_logs_reply_witness:
  "\<exists>P' log' w'. send sample_casper sample_tcp sample_pool [1, 0, 7, 5] [] ([], frame sample_answer, 0)
       = (Some (Ok [0, 1, 1, 1, 0, 2, 7, 8]), P', log', w')
     \<and> (\<exists>s. filter is_debug (log_binary_response sample_casper ''node:7779'' (Some 7) [0, 1, 1, 1, 0, 2, 7, 8])
          = [DebugResponse ''node:7779'' (Some 7) s] \<and> response_request_len s = Some 2)"
proof -
  obtain P' log' w' where s:
    "send sample_casper sample_tcp sample_pool [1, 0, 7, 5] [] ([], frame sample_answer, 0)
       = (Some (Ok [0, 1, 1, 1, 0, 2, 7, 8]), P', log', w')"
    using sample_send by blast
  obtain sm where sm: "filter is_debug
      (log_binary_response sample_casper ''node:7779'' (Some 7) [0, 1, 1, 1, 0, 2, 7, 8])
      = [DebugResponse ''node:7779'' (Some 7) sm]"
    using send_logs_reply [OF sample_casper_laws s, of "''node:7779''" "Some 7"] by blast
  then have "response_request_len sm = Some 2" unfolding sample_reply_log by auto
  with s sm show ?thesis by blast
qed

end
