(* ===== verification/Pool_Machine.thy ===== *)
theory Pool_Machine
  imports Binary_Send
begin

text \<open>
  Many calls of \<open>BinaryPool::send\<close> at once. The state is what they share, the permits of the semaphore and
  the idle connections, and where each call stands between \<open>get_connection\<close> and the end of \<open>send\<close>
  (\<open>src/binary_proxy.rs\<close>, lines 99 to 218). A step is one access of one call to the shared state:
  looking into the pool, taking a permit, the result of connecting, returning the connection, dropping
  it. A call that found the pool empty waits for a permit and does not look into the pool again.

  The exchange on a connection, and the reconnect and the retry after a retryable error, touch none of the
  shared state: they are what a call does while it is \<open>Using\<close> its connection. A reconnect keeps the permit
  and opens the new stream before it drops the old one, so for that moment a call has a second socket beside
  the one its peer has closed; the two count as its one connection here.
\<close>

section \<open>Calls and steps\<close>

datatype call = Arriving | Waiting | Connecting | Using | Finished

record pool_state =
  permits :: nat
  idle :: nat
  calls :: "call list"

definition pool_init :: "nat \<Rightarrow> pool_state \<Rightarrow> bool" where
  "pool_init limit s \<longleftrightarrow> permits s = limit \<and> idle s = 0 \<and> set (calls s) \<subseteq> {Arriving}"

text \<open>The steps of a call as long as nothing fails; a connection that was replaced by \<open>reconnect\<close> is given back
  as any other.\<close>

inductive good_step :: "pool_state \<Rightarrow> pool_state \<Rightarrow> bool" where
  take_idle: "i < length (calls s) \<Longrightarrow> calls s ! i = Arriving \<Longrightarrow> idle s = Suc n \<Longrightarrow>
     good_step s (s\<lparr>idle := n, calls := (calls s)[i := Using]\<rparr>)"
| pool_empty: "i < length (calls s) \<Longrightarrow> calls s ! i = Arriving \<Longrightarrow> idle s = 0 \<Longrightarrow>
     good_step s (s\<lparr>calls := (calls s)[i := Waiting]\<rparr>)"
| acquire_permit: "i < length (calls s) \<Longrightarrow> calls s ! i = Waiting \<Longrightarrow> permits s = Suc n \<Longrightarrow>
     good_step s (s\<lparr>permits := n, calls := (calls s)[i := Connecting]\<rparr>)"
| connected: "i < length (calls s) \<Longrightarrow> calls s ! i = Connecting \<Longrightarrow>
     good_step s (s\<lparr>calls := (calls s)[i := Using]\<rparr>)"
| give_back: "i < length (calls s) \<Longrightarrow> calls s ! i = Using \<Longrightarrow>
     good_step s (s\<lparr>idle := Suc (idle s), calls := (calls s)[i := Finished]\<rparr>)"

text \<open>A failed connect and a failed exchange release the permit.\<close>

inductive failing_step :: "pool_state \<Rightarrow> pool_state \<Rightarrow> bool" where
  connect_failed: "i < length (calls s) \<Longrightarrow> calls s ! i = Connecting \<Longrightarrow>
     failing_step s (s\<lparr>permits := Suc (permits s), calls := (calls s)[i := Finished]\<rparr>)"
| exchange_failed: "i < length (calls s) \<Longrightarrow> calls s ! i = Using \<Longrightarrow>
     failing_step s (s\<lparr>permits := Suc (permits s), calls := (calls s)[i := Finished]\<rparr>)"

definition pool_step :: "pool_state \<Rightarrow> pool_state \<Rightarrow> bool" where
  "pool_step s t \<longleftrightarrow> good_step s t \<or> failing_step s t"

inductive_cases good_stepE: "good_step s t"
inductive_cases failing_stepE: "failing_step s t"

section \<open>Permits are conserved\<close>

definition tally :: "call \<Rightarrow> call list \<Rightarrow> nat" where
  "tally c cs = count_list cs c"

definition open_connections :: "pool_state \<Rightarrow> nat" where
  "open_connections s = idle s + tally Connecting (calls s) + tally Using (calls s)"

definition conserved :: "nat \<Rightarrow> pool_state \<Rightarrow> bool" where
  "conserved limit s \<longleftrightarrow> permits s + open_connections s = limit"

lemma tally_update_add:
  "i < length cs \<Longrightarrow>
     tally c (cs[i := d]) + (if cs ! i = c then 1 else 0) = tally c cs + (if d = c then 1 else 0)"
  unfolding tally_def
proof (induction cs arbitrary: i)
  case (Cons x cs)
  show ?case
  proof (cases i)
    case (Suc j)
    then have "j < length cs" using Cons.prems by simp
    from Cons.IH [OF this] show ?thesis by (cases "d = c"; cases "cs ! j = c") (simp_all add: Suc)
  qed simp
qed simp

lemma tally_update:
  assumes "i < length cs" and "cs ! i = b" and "b \<noteq> d"
  shows "tally c (cs[i := d]) = (if c = d then Suc (tally c cs) else if c = b then tally c cs - 1 else tally c cs)"
  using tally_update_add [OF assms(1), of c d] assms(2,3) by (auto split: if_splits)

lemma tally_pos: "i < length cs \<Longrightarrow> 0 < tally (cs ! i) cs"
  using tally_update_add [of i cs "cs ! i" "cs ! i"]
  by (metis count_list_0_iff nth_mem tally_def not_gr_zero)

lemma tally_initial: "set cs \<subseteq> {Arriving} \<Longrightarrow> c \<noteq> Arriving \<Longrightarrow> tally c cs = 0"
  by (auto simp: tally_def count_list_0_iff)

lemma conserved_good: "good_step s t \<Longrightarrow> conserved limit s \<Longrightarrow> conserved limit t"
proof (induction rule: good_step.induct)
  case (connected i s)
  then show ?case using tally_pos [of i "calls s"]
    by (simp add: conserved_def open_connections_def tally_update)
next
  case (give_back i s)
  then show ?case using tally_pos [of i "calls s"]
    by (simp add: conserved_def open_connections_def tally_update)
qed (simp_all add: conserved_def open_connections_def tally_update)

lemma conserved_failing: "failing_step s t \<Longrightarrow> conserved limit s \<Longrightarrow> conserved limit t"
proof (induction rule: failing_step.induct)
  case (connect_failed i s)
  then show ?case using tally_pos [of i "calls s"]
    by (simp add: conserved_def open_connections_def tally_update)
next
  case (exchange_failed i s)
  then show ?case using tally_pos [of i "calls s"]
    by (simp add: conserved_def open_connections_def tally_update)
qed

interpretation pool: invariant_system "pool_init limit" pool_step "conserved limit"
  by unfold_locales
     (auto simp: pool_init_def conserved_def open_connections_def tally_initial pool_step_def
       dest: conserved_good [unfolded conserved_def open_connections_def]
         conserved_failing [unfolded conserved_def open_connections_def])

section \<open>Starvation\<close>

text \<open>Without a failure, permits only go down, so that a call that waits at zero permits waits for ever.\<close>

lemma good_step_permits: "good_step s t \<Longrightarrow> permits t \<le> permits s"
  by (induction rule: good_step.induct) simp_all

lemma good_step_waiting:
  "good_step s t \<Longrightarrow> permits s = 0 \<Longrightarrow> i < length (calls s) \<Longrightarrow> calls s ! i = Waiting \<Longrightarrow>
     permits t = 0 \<and> i < length (calls t) \<and> calls t ! i = Waiting"
  by (induction rule: good_step.induct) (auto simp: nth_list_update)

lemma good_steps_waiting:
  "steps good_step s t \<Longrightarrow> permits s = 0 \<Longrightarrow> i < length (calls s) \<Longrightarrow> calls s ! i = Waiting \<Longrightarrow>
     i < length (calls t) \<and> calls t ! i = Waiting"
proof (induction rule: steps.induct)
  case (steps_step s t u)
  from good_step_waiting [OF steps_step(1) steps_step.prems] show ?case using steps_step.IH by simp
qed simp

lemma steps_good_pool: "steps good_step s t \<Longrightarrow> steps pool_step s t"
proof (induction rule: steps.induct)
  case (steps_step s t u)
  have "pool_step s t" using steps_step(1) unfolding pool_step_def ..
  then show ?case using steps_step.IH by (rule steps.steps_step)
qed (rule steps_refl)

text \<open>All calls find the pool empty before the first connection exists.\<close>

lemma wait_one:
  "good_step \<lparr>permits = p, idle = 0, calls = pre @ Arriving # post\<rparr>
     \<lparr>permits = p, idle = 0, calls = pre @ Waiting # post\<rparr>"
  using pool_empty [of "length pre" "\<lparr>permits = p, idle = 0, calls = pre @ Arriving # post\<rparr>"] by simp

lemma all_wait:
  "steps good_step \<lparr>permits = p, idle = 0, calls = replicate k Waiting @ replicate m Arriving @ rest\<rparr>
     \<lparr>permits = p, idle = 0, calls = replicate (k + m) Waiting @ rest\<rparr>"
proof (induction m arbitrary: k)
  case 0
  then show ?case by (simp add: steps_refl)
next
  case (Suc m)
  have "replicate k Waiting @ Waiting # (replicate m Arriving @ rest) =
      replicate (Suc k) Waiting @ replicate m Arriving @ rest"
    by (simp add: replicate_app_Cons_same)
  with wait_one [of p "replicate k Waiting" "replicate m Arriving @ rest"] Suc.IH [of "Suc k"]
  show ?case using steps_step by (fastforce simp del: replicate_Suc simp add: replicate_Suc [of m])
qed

text \<open>One waiting call gets a permit, connects, is answered and returns its connection to the pool.\<close>

lemma serve_one:
  "steps good_step \<lparr>permits = Suc p, idle = n, calls = pre @ Waiting # post\<rparr>
     \<lparr>permits = p, idle = Suc n, calls = pre @ Finished # post\<rparr>"
proof -
  let ?i = "length pre"
  let ?s = "\<lparr>permits = Suc p, idle = n, calls = pre @ Waiting # post\<rparr>"
  let ?t = "\<lparr>permits = p, idle = n, calls = pre @ Connecting # post\<rparr>"
  let ?u = "\<lparr>permits = p, idle = n, calls = pre @ Using # post\<rparr>"
  have "good_step ?s ?t" using acquire_permit [of ?i ?s p] by simp
  moreover have "good_step ?t ?u" using connected [of ?i ?t] by simp
  moreover have "good_step ?u \<lparr>permits = p, idle = Suc n, calls = pre @ Finished # post\<rparr>"
    using give_back [of ?i ?u] by simp
  ultimately show ?thesis by (blast intro: steps.intros)
qed

lemma serve_many:
  "steps good_step \<lparr>permits = p + k, idle = n, calls = replicate j Finished @ replicate k Waiting @ rest\<rparr>
     \<lparr>permits = p, idle = n + k, calls = replicate (j + k) Finished @ rest\<rparr>"
proof (induction k arbitrary: n j)
  case 0
  then show ?case by (simp add: steps_refl)
next
  case (Suc k)
  have "steps good_step \<lparr>permits = Suc (p + k), idle = n,
        calls = replicate j Finished @ Waiting # (replicate k Waiting @ rest)\<rparr>
      \<lparr>permits = p + k, idle = Suc n, calls = replicate j Finished @ Finished # (replicate k Waiting @ rest)\<rparr>"
    by (rule serve_one)
  moreover have "replicate j Finished @ Finished # (replicate k Waiting @ rest) =
      replicate (Suc j) Finished @ replicate k Waiting @ rest"
    by (simp add: replicate_app_Cons_same)
  ultimately show ?case using Suc.IH [of "Suc n" "Suc j"] by (auto intro: steps_trans)
qed

section \<open>No starvation below the limit\<close>

text \<open>The number of calls that have started and not ended.\<close>

definition in_flight :: "pool_state \<Rightarrow> nat" where
  "in_flight s = tally Waiting (calls s) + tally Connecting (calls s) + tally Using (calls s)"

text \<open>Steps of a system in which a call only starts when fewer than \<open>limit\<close> are in flight.\<close>

definition bounded_step :: "nat \<Rightarrow> pool_state \<Rightarrow> pool_state \<Rightarrow> bool" where
  "bounded_step limit s t \<longleftrightarrow> pool_step s t \<and> in_flight t \<le> limit"

definition waiters_served :: "nat \<Rightarrow> pool_state \<Rightarrow> bool" where
  "waiters_served limit s \<longleftrightarrow> conserved limit s \<and> tally Waiting (calls s) \<le> permits s"

lemma waiters_served_good:
  assumes "good_step s t" and "waiters_served limit s" and "in_flight t \<le> limit"
  shows "waiters_served limit t"
proof -
  have c: "conserved limit t" using conserved_good [OF assms(1)] assms(2) by (simp add: waiters_served_def)
  from assms(1) have "tally Waiting (calls t) \<le> permits t"
  proof cases
    case (pool_empty i)
    then show ?thesis using c assms(3)
      by (simp add: conserved_def open_connections_def in_flight_def tally_update)
  qed (use assms(2) in \<open>auto simp: waiters_served_def tally_update\<close>)
  then show ?thesis using c by (simp add: waiters_served_def)
qed

lemma waiters_served_failing:
  assumes "failing_step s t" and "waiters_served limit s"
  shows "waiters_served limit t"
proof -
  have c: "conserved limit t" using conserved_failing [OF assms(1)] assms(2) by (simp add: waiters_served_def)
  from assms(1) have "tally Waiting (calls t) \<le> permits t"
    by cases (use assms(2) in \<open>simp_all add: waiters_served_def tally_update\<close>)
  then show ?thesis using c by (simp add: waiters_served_def)
qed

interpretation bounded: invariant_system "pool_init limit" "bounded_step limit" "waiters_served limit"
proof unfold_locales
  fix s
  assume "pool_init limit s"
  then show "waiters_served limit s"
    using pool.inv_init [of limit s] by (simp add: waiters_served_def pool_init_def tally_initial)
next
  fix s t
  assume "waiters_served limit s" and "bounded_step limit s t"
  then show "waiters_served limit t"
    using waiters_served_good waiters_served_failing by (auto simp: bounded_step_def pool_step_def)
qed

section \<open>A call of send as steps\<close>

text \<open>The shared state of a pool, with the calls that use it.\<close>

definition pool_view :: "'s BinaryPool \<Rightarrow> call list \<Rightarrow> pool_state" where
  "pool_view P cs = \<lparr>permits = semaphore P, idle = length (pool_conns P), calls = cs\<rparr>"

lemma good_first: "good_step s t \<Longrightarrow> steps pool_step t u \<Longrightarrow> steps pool_step s u"
  using steps_step [of pool_step] unfolding pool_step_def by blast

lemma failing_first: "failing_step s t \<Longrightarrow> steps pool_step t u \<Longrightarrow> steps pool_step s u"
  using steps_step [of pool_step] unfolding pool_step_def by blast

lemma view_take_idle:
  "good_step \<lparr>permits = p, idle = Suc n, calls = pre @ Arriving # post\<rparr>
     \<lparr>permits = p, idle = n, calls = pre @ Using # post\<rparr>"
  using take_idle [of "length pre" "\<lparr>permits = p, idle = Suc n, calls = pre @ Arriving # post\<rparr>"] by simp

lemma view_acquire:
  "good_step \<lparr>permits = Suc p, idle = n, calls = pre @ Waiting # post\<rparr>
     \<lparr>permits = p, idle = n, calls = pre @ Connecting # post\<rparr>"
  using acquire_permit [of "length pre" "\<lparr>permits = Suc p, idle = n, calls = pre @ Waiting # post\<rparr>"] by simp

lemma view_connected:
  "good_step \<lparr>permits = p, idle = n, calls = pre @ Connecting # post\<rparr>
     \<lparr>permits = p, idle = n, calls = pre @ Using # post\<rparr>"
  using connected [of "length pre" "\<lparr>permits = p, idle = n, calls = pre @ Connecting # post\<rparr>"] by simp

lemma view_end:
  "good_step \<lparr>permits = p, idle = n, calls = pre @ Using # post\<rparr>
     \<lparr>permits = p, idle = Suc n, calls = pre @ Finished # post\<rparr>"
  "failing_step \<lparr>permits = p, idle = n, calls = pre @ Using # post\<rparr>
     \<lparr>permits = Suc p, idle = n, calls = pre @ Finished # post\<rparr>"
  "failing_step \<lparr>permits = p, idle = n, calls = pre @ Connecting # post\<rparr>
     \<lparr>permits = Suc p, idle = n, calls = pre @ Finished # post\<rparr>"
  using give_back [of "length pre" "\<lparr>permits = p, idle = n, calls = pre @ Using # post\<rparr>"]
    exchange_failed [of "length pre" "\<lparr>permits = p, idle = n, calls = pre @ Using # post\<rparr>"]
    connect_failed [of "length pre" "\<lparr>permits = p, idle = n, calls = pre @ Connecting # post\<rparr>"]
  by simp_all

lemma view_get_connection:
  assumes "get_connection T P w = (Some (Ok conn), P1, w1)"
  shows "steps pool_step (pool_view P (pre @ Arriving # post)) (pool_view P1 (pre @ Using # post))"
proof (cases "pool_conns P = []")
  case True
  with get_connection_Ok(2) [OF assms] obtain p where p: "semaphore P = Suc p" and "P1 = P\<lparr>semaphore := p\<rparr>"
    by (cases "semaphore P") simp_all
  then have P1: "pool_view P1 cs = \<lparr>permits = p, idle = 0, calls = cs\<rparr>" for cs
    using True by (simp add: pool_view_def)
  have P0: "pool_view P cs = \<lparr>permits = Suc p, idle = 0, calls = cs\<rparr>" for cs
    using True p by (simp add: pool_view_def)
  show ?thesis
    unfolding P0 P1
    by (rule good_first [OF wait_one], rule good_first [OF view_acquire], rule good_first [OF view_connected],
        rule steps_refl)
next
  case False
  then have "length (pool_conns P) = Suc (length (butlast (pool_conns P)))" by simp
  then have P0: "pool_view P cs = \<lparr>permits = semaphore P, idle = Suc (length (butlast (pool_conns P))), calls = cs\<rparr>" for cs
    by (simp add: pool_view_def)
  have P1: "pool_view P1 cs = \<lparr>permits = semaphore P, idle = length (butlast (pool_conns P)), calls = cs\<rparr>" for cs
    using get_connection_Ok(3) [OF assms False] by (simp add: pool_view_def)
  show ?thesis unfolding P0 P1 by (rule good_first [OF view_take_idle steps_refl])
qed

section \<open>Properties\<close>

text \<open>C6: the pool bounds the connections to the node. In every interleaving of any number of calls, with
  any failures, the connections that are open, being opened or idle are never more than the configured
  size (at least one), and together with the free permits they are exactly that many.\<close>

theorem upstream_connections_bounded:
  assumes "reach (pool_init (semaphore (fresh_pool network address n))) pool_step s"
  shows "permits s + open_connections s = unat (max n 1) \<and> open_connections s \<le> unat (max n 1)"
proof -
  have "semaphore (fresh_pool network address n) = unat (max n 1)" by (simp add: fresh_pool_def)
  then have "conserved (unat (max n 1)) s" using pool.inv_reach assms by metis
  then show ?thesis by (simp add: conserved_def)
qed

theorem upstream_connections_bounded_witness:
  "open_connections \<lparr>permits = 4, idle = 0, calls = [Waiting, Arriving]\<rparr> \<le> 4"
proof -
  let ?i = "\<lparr>permits = 4, idle = 0, calls = [] @ Arriving # [Arriving]\<rparr>"
  have "reach (pool_init (semaphore (fresh_pool ''n'' ''a'' 4))) pool_step ?i"
    by (rule reach_init) (simp add: pool_init_def fresh_pool_def max_def word_le_nat_alt)
  then have "reach (pool_init (semaphore (fresh_pool ''n'' ''a'' 4))) pool_step
      \<lparr>permits = 4, idle = 0, calls = [] @ Waiting # [Arriving]\<rparr>"
    by (rule reach_step) (simp only: pool_step_def wait_one simp_thms)
  from upstream_connections_bounded [OF this] show ?thesis by (simp add: max_def word_le_nat_alt)
qed

text \<open>While at most as many calls are in flight as the pool is large, no call waits in vain: a call
  that waits for a permit finds one free and can take it at once.\<close>

theorem no_starvation_below_limit:
  assumes "reach (pool_init limit) (bounded_step limit) s"
    and "i < length (calls s)" and "calls s ! i = Waiting"
  shows "\<exists>t. good_step s t \<and> i < length (calls t) \<and> calls t ! i = Connecting"
proof -
  have "waiters_served limit s" using bounded.inv_reach assms(1) by blast
  moreover have "0 < tally Waiting (calls s)" using tally_pos [OF assms(2)] assms(3) by simp
  ultimately obtain n where "permits s = Suc n" by (cases "permits s") (auto simp: waiters_served_def)
  from acquire_permit [OF assms(2,3) this] show ?thesis using assms(2) by auto
qed

theorem no_starvation_below_limit_witness:
  "\<exists>t. good_step \<lparr>permits = 1, idle = 0, calls = [Waiting, Arriving]\<rparr> t
     \<and> 0 < length (calls t) \<and> calls t ! 0 = Connecting"
proof -
  let ?i = "\<lparr>permits = 1, idle = 0, calls = [] @ Arriving # [Arriving]\<rparr>"
  let ?s = "\<lparr>permits = 1, idle = 0, calls = [] @ Waiting # [Arriving]\<rparr>"
  have "reach (pool_init 1) (bounded_step 1) ?i" by (rule reach_init) (simp add: pool_init_def)
  moreover have "bounded_step 1 ?i ?s"
    unfolding bounded_step_def pool_step_def using wait_one [of 1 "[]" "[Arriving]"]
    by (simp add: in_flight_def tally_def)
  ultimately have "reach (pool_init 1) (bounded_step 1) ?s" by (rule reach_step)
  from no_starvation_below_limit [OF this, of 0] show ?thesis by simp
qed

text \<open>C26: above that number a call can starve although connections are idle. For every configured size and
  any number \<open>m\<close> of later calls there is a reachable state in which all connections of the pool are idle,
  no call is using one, and a call waits for a permit; and as long as no connection fails it goes on
  waiting, whatever the later calls do, because returning a connection to the pool keeps its permit and
  a waiting call does not look into the pool again.\<close>

theorem idle_pool_starves_waiter:
  "\<exists>s. reach (pool_init (semaphore (fresh_pool network address n))) pool_step s
     \<and> idle s = unat (max n 1) \<and> permits s = 0 \<and> 0 < idle s
     \<and> calls s = replicate (unat (max n 1)) Finished @ Waiting # replicate m Arriving
     \<and> (\<forall>t. steps good_step s t \<longrightarrow> calls t ! unat (max n 1) = Waiting)"
proof -
  let ?k = "unat (max n 1)"
  let ?i = "\<lparr>permits = ?k, idle = 0, calls = replicate (Suc ?k) Arriving @ replicate m Arriving\<rparr>"
  let ?s = "\<lparr>permits = 0, idle = ?k, calls = replicate ?k Finished @ Waiting # replicate m Arriving\<rparr>"
  have "pool_init (semaphore (fresh_pool network address n)) ?i"
    by (auto simp: pool_init_def fresh_pool_def)
  moreover have "steps good_step ?i ?s"
  proof -
    have eq: "replicate (Suc ?k) Waiting @ replicate m Arriving = replicate ?k Waiting @ Waiting # replicate m Arriving"
      by (simp add: replicate_app_Cons_same)
    have "steps good_step ?i \<lparr>permits = ?k, idle = 0, calls = replicate ?k Waiting @ Waiting # replicate m Arriving\<rparr>"
      using all_wait [of ?k 0 "Suc ?k" "replicate m Arriving"] unfolding eq [symmetric] by simp
    moreover have "steps good_step
        \<lparr>permits = ?k, idle = 0, calls = replicate ?k Waiting @ Waiting # replicate m Arriving\<rparr> ?s"
      using serve_many [of 0 ?k 0 0 "Waiting # replicate m Arriving"] by simp
    ultimately show ?thesis by (rule steps_trans)
  qed
  ultimately have r: "reach (pool_init (semaphore (fresh_pool network address n))) pool_step ?s"
    using reach_steps [OF steps_good_pool reach_init] by blast
  have pos: "0 < ?k" by (metis max.cobounded2 unat_gt_0 word_le_0_iff zero_neq_one)
  have "\<forall>t. steps good_step ?s t \<longrightarrow> calls t ! ?k = Waiting"
    using good_steps_waiting [of ?s _ ?k] by (simp add: nth_append)
  with r pos show ?thesis by (intro exI [of _ ?s]) simp
qed

theorem idle_pool_starves_waiter_witness:
  "\<exists>s. reach (pool_init (semaphore (fresh_pool ''n'' ''a'' 4))) pool_step s
     \<and> idle s = 4 \<and> permits s = 0 \<and> calls s ! 4 = Waiting
     \<and> (\<forall>t. steps good_step s t \<longrightarrow> calls t ! 4 = Waiting)"
proof -
  have k: "unat (max 4 (1 :: usize)) = 4" by (simp add: max_def word_le_nat_alt)
  show ?thesis
    using idle_pool_starves_waiter [of "''n''" "''a''" 4 0] unfolding k by (metis steps_refl)
qed

text \<open>C21: the detailed \<open>send\<close> refines the machine. A forwarded call of \<open>send\<close> that runs on its own moves the
  shared state of the pool exactly along steps of the machine, from the arrival of the call to its end,
  or to the point where it waits.\<close>

theorem send_refines_machine:
  assumes "admitted C q" and "send C T P q log w = (r, P', log', w')"
  shows "steps pool_step (pool_view P (pre @ Arriving # post))
    (pool_view P' (pre @ (if r = None then Waiting else Finished) # post))"
  using assms(2)
proof (cases rule: send_cases)
  case waiting
  then have "pool_view P cs = \<lparr>permits = 0, idle = 0, calls = cs\<rparr>" for cs
    by (simp add: pool_view_def capacity_def)
  then show ?thesis unfolding waiting(2,3) by (simp only: simp_thms if_True) (rule good_first [OF wait_one steps_refl])
next
  case (unreachable x d)
  then obtain p where "pool_view P cs = \<lparr>permits = Suc p, idle = 0, calls = cs\<rparr>" for cs
    by (cases "semaphore P") (auto simp: pool_view_def)
  then show ?thesis unfolding unreachable(2,3)
    by (simp only: option.distinct if_False)
       (rule good_first [OF wait_one good_first [OF view_acquire failing_first [OF view_end(3) steps_refl]]])
next
  case (exchanged conn P1 w1 result conn' r' d)
  have "steps pool_step (pool_view P1 (pre @ Using # post)) (pool_view P' (pre @ Finished # post))"
  proof (cases "is_ok r'")
    case True
    then have "pool_view P' cs = \<lparr>permits = semaphore P1, idle = Suc (length (pool_conns P1)), calls = cs\<rparr>" for cs
      by (simp add: exchanged(6) pool_view_def return_connection_def)
    then show ?thesis unfolding pool_view_def [of P1] using good_first [OF view_end(1) steps_refl] by metis
  next
    case False
    then have "pool_view P' cs = \<lparr>permits = Suc (semaphore P1), idle = length (pool_conns P1), calls = cs\<rparr>" for cs
      by (simp add: exchanged(6) pool_view_def drop_connection_def)
    then show ?thesis unfolding pool_view_def [of P1] using failing_first [OF view_end(2) steps_refl] by metis
  qed
  from steps_trans [OF view_get_connection [OF exchanged(2)] this] show ?thesis by (simp add: exchanged(4))
qed (use assms(1) in simp)

theorem send_refines_machine_witness:
  "\<exists>P'. steps pool_step \<lparr>permits = 1, idle = 1, calls = [Arriving]\<rparr> (pool_view (P' :: nat BinaryPool) [Finished])"
proof -
  obtain P' log' w' where
    "send sample_casper sample_tcp sample_pool [1, 0, 7, 5] [] ([], frame sample_answer, 0)
       = (Some (Ok [0, 1, 1, 1, 0, 2, 7, 8]), P', log', w')"
    using sample_send by blast
  from send_refines_machine [OF sample_admitted this, of "[]" "[]"]
  have "steps pool_step (pool_view sample_pool [Arriving]) (pool_view P' [Finished])" by simp
  moreover have "pool_view sample_pool [Arriving] = \<lparr>permits = 1, idle = 1, calls = [Arriving]\<rparr>"
    by (simp add: pool_view_def sample_pool_def)
  ultimately show ?thesis by metis
qed

end
