(* ===== verification/Pool_Progress.thy ===== *)
theory Pool_Progress
  imports Pool_Machine
begin

text \<open>
  Where the interleavings of \<open>Pool_Machine\<close> end. Every step of a call brings it closer to its end, so that
  a system with finitely many calls runs out of steps; the states in which it then stands still are
  characterised, for the machine as it is and for clients that keep within the size of the pool.
\<close>

section \<open>A machine whose steps use up work\<close>

text \<open>
  The contract of a machine that terminates: a measure that every step lowers. Then every state has a run to
  a state in which nothing can move.
\<close>

locale draining =
  fixes step :: "'s \<Rightarrow> 's \<Rightarrow> bool"
    and work :: "'s \<Rightarrow> nat"
  assumes step_works: "step s t \<Longrightarrow> work t < work s"
begin

lemma run_ends: "\<exists>t. steps step s t \<and> (\<nexists>u. step t u)"
proof (induction s rule: measure_induct_rule [of work])
  case (less s)
  show ?case
  proof (cases "\<exists>u. step s u")
    case True
    then obtain u where u: "step s u" by blast
    from less.IH [OF step_works [OF u]] obtain t where "steps step u t" "\<nexists>v. step t v" by blast
    with u show ?thesis by (blast intro: steps_step)
  qed (blast intro: steps_refl)
qed

end

section \<open>The work left in a pool\<close>

fun rank :: "call \<Rightarrow> nat" where
  "rank Arriving = 4"
| "rank Waiting = 3"
| "rank Connecting = 2"
| "rank Using = 1"
| "rank Finished = 0"

definition work_left :: "pool_state \<Rightarrow> nat" where
  "work_left s = sum_list (map rank (calls s))"

lemma rank_update:
  assumes "i < length cs" and "rank c < rank (cs ! i)"
  shows "sum_list (map rank (cs[i := c])) < sum_list (map rank cs)"
  using assms
proof (induction cs arbitrary: i)
  case (Cons d cs)
  then show ?case by (cases i) auto
qed simp

lemma good_step_works: "good_step s t \<Longrightarrow> work_left t < work_left s"
  by (induction rule: good_step.induct) (auto simp: work_left_def intro!: rank_update)

lemma failing_step_works: "failing_step s t \<Longrightarrow> work_left t < work_left s"
  by (induction rule: failing_step.induct) (auto simp: work_left_def intro!: rank_update)

interpretation pool_run: draining pool_step work_left
  by unfold_locales (auto simp: pool_step_def dest: good_step_works failing_step_works)

interpretation bounded_run: draining "bounded_step limit" work_left for limit
  by unfold_locales (auto simp: bounded_step_def intro: pool_run.step_works)

section \<open>Where a run stands still\<close>

lemma stuck_calls:
  assumes "\<nexists>t. pool_step s t" and "c \<in> set (calls s)"
  shows "c = Finished \<or> (c = Waiting \<and> permits s = 0)"
proof -
  obtain i where i: "i < length (calls s)" "calls s ! i = c" using assms(2) by (auto simp: in_set_conv_nth)
  show ?thesis
  proof (cases c)
    case Arriving
    then show ?thesis using i assms(1) take_idle [of i s] pool_empty [of i s]
      by (cases "idle s") (auto simp: pool_step_def)
  next
    case Waiting
    then show ?thesis using i assms(1) acquire_permit [of i s]
      by (cases "permits s") (auto simp: pool_step_def)
  next
    case Connecting
    then show ?thesis using i assms(1) connected [of i s] by (auto simp: pool_step_def)
  next
    case Using
    then show ?thesis using i assms(1) give_back [of i s] by (auto simp: pool_step_def)
  qed simp
qed

lemma tally_0: "c \<notin> set cs \<Longrightarrow> tally c cs = 0"
  by (simp add: tally_def count_list_0_iff)

text \<open>An idle connection was left by a call that has ended.\<close>

definition idle_earned :: "pool_state \<Rightarrow> bool" where
  "idle_earned s \<longleftrightarrow> idle s \<le> tally Finished (calls s)"

interpretation earned: invariant_system "pool_init limit" pool_step idle_earned for limit
proof unfold_locales
  fix s
  assume "pool_init limit s"
  then show "idle_earned s" by (simp add: pool_init_def idle_earned_def)
next
  fix s t
  assume inv: "idle_earned s" and "pool_step s t"
  then consider "good_step s t" | "failing_step s t" by (auto simp: pool_step_def)
  then show "idle_earned t"
  proof cases
    case 1
    then show ?thesis using inv by cases (auto simp: idle_earned_def tally_update)
  next
    case 2
    then show ?thesis using inv by cases (auto simp: idle_earned_def tally_update)
  qed
qed

lemma stuck_idle:
  assumes "reach (pool_init limit) pool_step s" and "\<nexists>t. pool_step s t" and "Waiting \<in> set (calls s)"
  shows "permits s = 0 \<and> idle s = limit \<and> limit \<le> tally Finished (calls s)"
proof -
  note calls = stuck_calls [OF assms(2)]
  have "Connecting \<notin> set (calls s)" "Using \<notin> set (calls s)" using calls by blast+
  moreover have "conserved limit s" by (rule pool.inv_reach [OF assms(1)])
  ultimately have "permits s + idle s = limit" by (simp add: conserved_def open_connections_def tally_0)
  moreover have "permits s = 0" using calls [OF assms(3)] by simp
  ultimately show ?thesis using earned.inv_reach [OF assms(1)] by (simp add: idle_earned_def)
qed

section \<open>Clients within the limit\<close>

lemma in_flight_init: "pool_init limit s \<Longrightarrow> in_flight s = 0"
  by (simp add: pool_init_def in_flight_def tally_initial)

lemma in_flight_reach: "reach (pool_init limit) (bounded_step limit) s \<Longrightarrow> in_flight s \<le> limit"
  by (induction rule: reach.induct) (simp_all add: in_flight_init bounded_step_def)

text \<open>A call in flight can always make a step that starts no other call.\<close>

lemma in_flight_step:
  assumes "waiters_served limit s" and "c \<in> set (calls s)" and "c \<in> {Waiting, Connecting, Using}"
  shows "\<exists>t. good_step s t \<and> in_flight t \<le> in_flight s"
proof -
  obtain i where i: "i < length (calls s)" "calls s ! i = c" using assms(2) by (auto simp: in_set_conv_nth)
  note pos = tally_pos [OF i(1), unfolded i(2)]
  from assms(3) consider "c = Waiting" | "c = Connecting" | "c = Using" by blast
  then show ?thesis
  proof cases
    case 1
    with assms(1) pos obtain n where "permits s = Suc n" by (cases "permits s") (auto simp: waiters_served_def)
    from acquire_permit [OF i(1) i(2) [unfolded 1] this] show ?thesis
      using i 1 pos by (intro exI conjI) (auto simp: in_flight_def tally_update)
  next
    case 2
    from connected [OF i(1) i(2) [unfolded 2]] show ?thesis
      using i 2 pos by (intro exI conjI) (auto simp: in_flight_def tally_update)
  next
    case 3
    from give_back [OF i(1) i(2) [unfolded 3]] show ?thesis
      using i 3 pos by (intro exI conjI) (auto simp: in_flight_def tally_update)
  qed
qed

lemma arriving_step:
  assumes "i < length (calls s)" and "calls s ! i = Arriving"
  shows "\<exists>t. good_step s t \<and> in_flight t = Suc (in_flight s)"
proof (cases "idle s")
  case 0
  from pool_empty [OF assms this] show ?thesis
    using assms by (intro exI conjI) (auto simp: in_flight_def tally_update)
next
  case (Suc n)
  from take_idle [OF assms this] show ?thesis
    using assms by (intro exI conjI) (auto simp: in_flight_def tally_update)
qed

lemma bounded_stuck:
  assumes "waiters_served limit s" and "\<nexists>t. bounded_step limit s t" and "0 < limit"
    and "in_flight s \<le> limit"
  shows "set (calls s) \<subseteq> {Finished}"
proof -
  have no: "c \<notin> {Waiting, Connecting, Using}" if "c \<in> set (calls s)" for c
    using in_flight_step [OF assms(1) that] assms(2,4)
    by (auto simp: bounded_step_def pool_step_def dest: le_trans)
  then have "Waiting \<notin> set (calls s)" "Connecting \<notin> set (calls s)" "Using \<notin> set (calls s)" by blast+
  then have "in_flight s = 0" by (simp add: in_flight_def tally_0)
  then have "Arriving \<notin> set (calls s)"
    using arriving_step [of _ s] assms(2,3) by (force simp: bounded_step_def pool_step_def in_set_conv_nth)
  show ?thesis
  proof
    fix c
    assume "c \<in> set (calls s)"
    then show "c \<in> {Finished}" using no [of c] \<open>Arriving \<notin> set (calls s)\<close> by (cases c rule: call.exhaust) auto
  qed
qed

lemma tally_two: "c \<noteq> d \<Longrightarrow> tally c cs + tally d cs \<le> length cs"
  by (induction cs) (auto simp: tally_def)

lemma tally_mem: "0 < tally c cs \<longleftrightarrow> c \<in> set cs"
  using count_list_0_iff [of cs c] by (auto simp: tally_def)

lemma new_semaphore: "semaphore (fresh_pool network address n) = unat (max n 1)"
  by (simp add: fresh_pool_def)

lemma bounded_steps_reach:
  "steps (bounded_step limit) s t \<Longrightarrow> length (calls t) = length (calls s)"
proof (induction rule: steps.induct)
  case (steps_step s t u)
  have "length (calls t) = length (calls s)"
    using steps_step(1) unfolding bounded_step_def pool_step_def
    by (auto elim: good_stepE failing_stepE)
  then show ?case using steps_step.IH by simp
qed simp

section \<open>Properties\<close>

text \<open>C17: where the calls of a pool end. In a reachable state from which no call can move, every call has
  returned, or the ones that have not all wait for a permit while every connection of the pool lies
  idle; then at least as many calls as the pool is large have returned. So the only way to get stuck is
  the starvation of waiting calls, and it needs more calls than the pool has connections.\<close>

theorem pool_stuck_states:
  assumes "reach (pool_init (semaphore (fresh_pool network address n))) pool_step s"
    and "\<nexists>t. pool_step s t"
  shows "set (calls s) \<subseteq> {Finished}
    \<or> (set (calls s) = {Finished, Waiting} \<and> permits s = 0 \<and> idle s = unat (max n 1)
       \<and> unat (max n 1) \<le> tally Finished (calls s) \<and> unat (max n 1) < length (calls s))"
proof (cases "Waiting \<in> set (calls s)")
  case True
  note stuck = stuck_idle [OF assms True, unfolded new_semaphore]
  have "0 < unat (max n 1)" using unat_max_1 [of n] by simp
  then have f: "Finished \<in> set (calls s)" using stuck tally_mem [of Finished "calls s"] by simp
  have "0 < tally Waiting (calls s)" using True by (simp add: tally_mem)
  then have len: "unat (max n 1) < length (calls s)"
    using stuck tally_two [of Finished Waiting "calls s"] by simp
  have "set (calls s) = {Finished, Waiting}" using stuck_calls [OF assms(2)] True f by auto
  with stuck len show ?thesis by blast
next
  case False
  then show ?thesis using stuck_calls [OF assms(2)] by auto
qed

lemma starved_stuck: "\<not> pool_step \<lparr>permits = 0, idle = 1, calls = [Finished, Waiting]\<rparr> t"
  unfolding pool_step_def
  by (auto elim!: good_stepE failing_stepE simp: less_Suc_eq)

theorem pool_stuck_states_witness:
  "let s = \<lparr>permits = 0, idle = 1, calls = [Finished, Waiting]\<rparr>
   in (\<nexists>t. pool_step s t) \<and> set (calls s) = {Finished, Waiting} \<and> idle s = unat (max 1 (1 :: usize))"
proof -
  let ?i = "\<lparr>permits = 1, idle = 0, calls = [Arriving, Arriving]\<rparr>"
  let ?s = "\<lparr>permits = 0, idle = 1, calls = [Finished, Waiting]\<rparr>"
  have "steps good_step ?i \<lparr>permits = 1, idle = 0, calls = [Waiting, Waiting]\<rparr>"
    using all_wait [of 1 0 2 "[]"] by (simp add: numeral_2_eq_2)
  moreover have "steps good_step \<lparr>permits = 1, idle = 0, calls = [Waiting, Waiting]\<rparr> ?s"
    using serve_many [of 0 1 0 0 "[Waiting]"] by simp
  ultimately have "steps pool_step ?i ?s" by (intro steps_good_pool) (rule steps_trans)
  moreover have "reach (pool_init (semaphore (fresh_pool ''n'' ''a'' 1))) pool_step ?i"
    by (rule reach_init) (simp add: pool_init_def new_semaphore)
  ultimately have "reach (pool_init (semaphore (fresh_pool ''n'' ''a'' 1))) pool_step ?s"
    by (rule reach_steps)
  from pool_stuck_states [OF this] starved_stuck show ?thesis by (auto simp: Let_def)
qed

text \<open>C12: within the size of the pool every call ends. When the clients start a call only while fewer than
  \<open>n\<close> (at least one) are in flight, then in every interleaving, with any failures, a state in which nothing
  can move has answered every call, no call ever waits without a free permit, and such a state is reached.\<close>

theorem bounded_calls_all_return:
  assumes "reach (pool_init (semaphore (fresh_pool network address n)))
      (bounded_step (semaphore (fresh_pool network address n))) s"
  shows "tally Waiting (calls s) \<le> permits s
    \<and> ((\<nexists>t. bounded_step (unat (max n 1)) s t) \<longrightarrow> set (calls s) \<subseteq> {Finished})
    \<and> (\<exists>t. steps (bounded_step (unat (max n 1))) s t \<and> length (calls t) = length (calls s)
         \<and> set (calls t) \<subseteq> {Finished})"
proof -
  let ?k = "unat (max n 1)"
  have r: "reach (pool_init ?k) (bounded_step ?k) s" using assms unfolding new_semaphore .
  have pos: "0 < ?k" using unat_max_1 [of n] by simp
  have stuck: "set (calls t) \<subseteq> {Finished}"
    if "reach (pool_init ?k) (bounded_step ?k) t" "\<nexists>u. bounded_step ?k t u" for t
    using bounded_stuck [OF bounded.inv_reach [OF that(1)] that(2) pos in_flight_reach [OF that(1)]] .
  obtain t where t: "steps (bounded_step ?k) s t" "\<nexists>u. bounded_step ?k t u"
    using bounded_run.run_ends by blast
  have "set (calls t) \<subseteq> {Finished}" by (rule stuck [OF reach_steps [OF t(1) r] t(2)])
  moreover have "tally Waiting (calls s) \<le> permits s"
    using bounded.inv_reach [OF r] by (simp add: waiters_served_def)
  ultimately show ?thesis using stuck [OF r] t(1) bounded_steps_reach [OF t(1)] by blast
qed

theorem bounded_calls_all_return_witness:
  "\<exists>t. steps (bounded_step 4) \<lparr>permits = 4, idle = 0, calls = [Arriving, Arriving, Arriving]\<rparr> t
     \<and> length (calls t) = 3 \<and> set (calls t) \<subseteq> {Finished}"
proof -
  let ?s = "\<lparr>permits = 4, idle = 0, calls = [Arriving, Arriving, Arriving]\<rparr>"
  have k: "unat (max 4 (1 :: usize)) = 4" by (simp add: max_def word_le_nat_alt)
  have "reach (pool_init (semaphore (fresh_pool ''n'' ''a'' 4)))
      (bounded_step (semaphore (fresh_pool ''n'' ''a'' 4))) ?s"
    by (rule reach_init) (simp add: pool_init_def new_semaphore k)
  from bounded_calls_all_return [OF this] show ?thesis unfolding k by auto
qed

end
