(* ===== verification/Database.thy ===== *)
theory Database
  imports Metrics
begin

text \<open>
  \<open>src/models.rs\<close> and \<open>src/db.rs\<close>: the rows of the two tables, the runtime configuration of a
  network, the choice of the backend from the database URL, migrations, loading of the networks and
  the connection-pool metrics. Diesel and its pool are parameters (\<open>diesel\<close>): what a checkout, a
  migration run or a query returns, over a world \<open>'w\<close> they may change.
\<close>

section \<open>Rows and configurations (models.rs)\<close>

record NetworkRow =
  nr_network_name :: string
  nr_chain_name :: string

record ConfigRow =
  cr_network_name :: string
  cr_rest :: string
  cr_sse :: string
  cr_rpc :: string
  cr_binary :: string
  cr_gossip :: string

record NetworkConfig =
  nc_network_name :: string
  nc_chain_name :: string
  nc_rest :: string
  nc_sse :: string
  nc_rpc :: string
  nc_binary :: string
  nc_gossip :: string

definition from_rows :: "NetworkRow \<Rightarrow> ConfigRow \<Rightarrow> NetworkConfig" where
  "from_rows network config =
     \<lparr>nc_network_name = nr_network_name network,
      nc_chain_name = nr_chain_name network,
      nc_rest = cr_rest config,
      nc_sse = cr_sse config,
      nc_rpc = cr_rpc config,
      nc_binary = cr_binary config,
      nc_gossip = cr_gossip config\<rparr>"

section \<open>The backend (db.rs)\<close>

datatype DbBackend = Sqlite | Postgres

datatype 'p DbPool = SqlitePool 'p | PostgresPool 'p

datatype db_error = InvalidInput string | PoolError string | MigrationError string | QueryError string

definition backend_from_url :: "string \<Rightarrow> (DbBackend, db_error) result" where
  "backend_from_url url =
     (let scheme = map_option fst (split_once ''://'' url)
      in case scheme of
           Some s \<Rightarrow>
             if s = ''postgres'' \<or> s = ''postgresql'' then Ok Postgres
             else if s = ''sqlite'' then Ok Sqlite
             else Err (InvalidInput (''unsupported DATABASE_URL scheme: '' @ s))
         | None \<Rightarrow> Ok Sqlite)"

record ('w, 'p, 'c) diesel =
  pool_build :: "DbBackend \<Rightarrow> string \<Rightarrow> ('p, db_error) result"
  pool_get :: "'p \<Rightarrow> ('w, 'c, db_error) action"
  run_pending_migrations :: "'c \<Rightarrow> ('w, unit, db_error) action"
  load_inner_join :: "'c \<Rightarrow> ('w, (NetworkRow \<times> ConfigRow) list, db_error) action"
  pool_state :: "'p \<Rightarrow> 'w \<Rightarrow> u32 \<times> u32"
  db_clock :: "'w \<Rightarrow> nat"

definition init_pool :: "('w, 'p, 'c) diesel \<Rightarrow> string \<Rightarrow> ('p DbPool, db_error) result" where
  "init_pool D url =
     (case backend_from_url url of
        Err e \<Rightarrow> Err e
      | Ok Sqlite \<Rightarrow> (case pool_build D Sqlite url of Err e \<Rightarrow> Err e | Ok p \<Rightarrow> Ok (SqlitePool p))
      | Ok Postgres \<Rightarrow> (case pool_build D Postgres url of Err e \<Rightarrow> Err e | Ok p \<Rightarrow> Ok (PostgresPool p)))"

text \<open>The two arms of each match on the pool run the same code on their own connection type.\<close>

fun inner_pool :: "'p DbPool \<Rightarrow> 'p" where
  "inner_pool (SqlitePool p) = p"
| "inner_pool (PostgresPool p) = p"

definition run_migrations ::
  "('w, 'p, 'c) diesel \<Rightarrow> 'p DbPool \<Rightarrow> mlog \<Rightarrow> 'w \<Rightarrow> (unit, db_error) result \<times> mlog \<times> 'w" where
  "run_migrations D pool log w =
     (let start = db_clock D w;
          (r, log, w) =
            (case pool_get D (inner_pool pool) w of
               (Ok conn, w') \<Rightarrow>
                 (let log = observe_db_pool_wait ''migrations'' (db_clock D w' - start) log;
                      (r, w'') = run_pending_migrations D conn w'
                  in (r, log, w''))
             | (Err e, w') \<Rightarrow> (Err e, log, w'));
          log = (case r of
                   Ok _ \<Rightarrow> increment_db_migration ''success'' log
                 | Err _ \<Rightarrow> increment_db_migration ''failure'' log)
      in (r, log, w))"

definition load_networks ::
  "('w, 'p, 'c) diesel \<Rightarrow> 'p DbPool \<Rightarrow> mlog \<Rightarrow> 'w
     \<Rightarrow> (NetworkConfig list, db_error) result \<times> mlog \<times> 'w" where
  "load_networks D pool log w =
     (let start = db_clock D w
      in case pool_get D (inner_pool pool) w of
           (Err e, w') \<Rightarrow> (Err e, log, w')
         | (Ok conn, w') \<Rightarrow>
             (let log = observe_db_pool_wait ''load_networks'' (db_clock D w' - start) log
              in case load_inner_join D conn w' of
                   (Err e, w'') \<Rightarrow> (Err e, log, w'')
                 | (Ok rows, w'') \<Rightarrow> (Ok (map (\<lambda>(net, cfg). from_rows net cfg) rows), log, w'')))"

definition update_pool_metrics :: "('w, 'p, 'c) diesel \<Rightarrow> 'p \<Rightarrow> 'w \<Rightarrow> mlog \<Rightarrow> mlog" where
  "update_pool_metrics D p w log =
     (let (connections, idle) = pool_state D p w in set_db_pool_stats connections idle log)"

text \<open>One update at once, then one per tick of the interval; \<open>ws\<close> are the worlds at the ticks.\<close>

definition spawn_pool_metrics_inner :: "('w, 'p, 'c) diesel \<Rightarrow> 'p \<Rightarrow> 'w \<Rightarrow> 'w list \<Rightarrow> mlog \<Rightarrow> mlog" where
  "spawn_pool_metrics_inner D p w ws log =
     foldl (\<lambda>log w. update_pool_metrics D p w log) (update_pool_metrics D p w log) ws"

fun spawn_pool_metrics :: "('w, 'p, 'c) diesel \<Rightarrow> 'p DbPool \<Rightarrow> 'w \<Rightarrow> 'w list \<Rightarrow> mlog \<Rightarrow> mlog" where
  "spawn_pool_metrics D (SqlitePool p) w ws log = spawn_pool_metrics_inner D p w ws log"
| "spawn_pool_metrics D (PostgresPool p) w ws log = spawn_pool_metrics_inner D p w ws log"

section \<open>The schema and the query\<close>

text \<open>
  The tables of the migration \<open>0001_create_tables\<close>: \<open>network_name\<close> is the primary key of both, and a
  config row refers to a network row. An inner join returns every matching pair once.
\<close>

definition schema_ok :: "NetworkRow list \<Rightarrow> ConfigRow list \<Rightarrow> bool" where
  "schema_ok nets cfgs \<longleftrightarrow>
     distinct (map nr_network_name nets) \<and> distinct (map cr_network_name cfgs)
     \<and> cr_network_name ` set cfgs \<subseteq> nr_network_name ` set nets"

definition inner_join_of :: "NetworkRow list \<Rightarrow> ConfigRow list \<Rightarrow> (NetworkRow \<times> ConfigRow) list \<Rightarrow> bool" where
  "inner_join_of nets cfgs rows \<longleftrightarrow>
     distinct rows
     \<and> set rows = {(n, c). n \<in> set nets \<and> c \<in> set cfgs \<and> nr_network_name n = cr_network_name c}"

lemma distinct_map_eq: "distinct (map f xs) \<Longrightarrow> x \<in> set xs \<Longrightarrow> y \<in> set xs \<Longrightarrow> f x = f y \<Longrightarrow> x = y"
  by (meson distinct_map inj_onD)

lemma join_names:
  assumes "schema_ok nets cfgs" and "inner_join_of nets cfgs rows"
  shows "distinct (map (\<lambda>(n, c). nr_network_name n) rows)"
    and "(\<lambda>(n, c). nr_network_name n) ` set rows = cr_network_name ` set cfgs"
proof -
  have nets: "distinct (map nr_network_name nets)" and cfgs: "distinct (map cr_network_name cfgs)"
    and sub: "cr_network_name ` set cfgs \<subseteq> nr_network_name ` set nets"
    using assms(1) by (auto simp: schema_ok_def)
  have rows: "distinct rows"
    "set rows = {(n, c). n \<in> set nets \<and> c \<in> set cfgs \<and> nr_network_name n = cr_network_name c}"
    using assms(2) by (auto simp: inner_join_of_def)
  have "inj_on (\<lambda>(n, c). nr_network_name n) (set rows)"
    by (rule inj_onI)
       (auto simp: rows intro: distinct_map_eq [OF nets] distinct_map_eq [OF cfgs])
  with rows(1) show "distinct (map (\<lambda>(n, c). nr_network_name n) rows)" by (simp add: distinct_map)
  show "(\<lambda>(n, c). nr_network_name n) ` set rows = cr_network_name ` set cfgs"
    using sub by (force simp: rows image_iff)
qed

lemma load_networks_rows:
  assumes "schema_ok nets cfgs"
    and "\<And>conn w. fst (load_inner_join D conn w) = Ok rows"
    and "inner_join_of nets cfgs rows"
    and "load_networks D pool log w = (Ok configs, log', w')"
  shows "distinct (map nc_network_name configs)
    \<and> nc_network_name ` set configs = cr_network_name ` set cfgs
    \<and> (\<forall>c \<in> set configs. \<exists>n r. n \<in> set nets \<and> r \<in> set cfgs \<and> c = from_rows n r
         \<and> nr_network_name n = cr_network_name r)"
proof -
  have configs: "configs = map (\<lambda>(net, cfg). from_rows net cfg) rows"
  proof -
    from assms(4) obtain conn w1 w2 rows' where
        "load_inner_join D conn w1 = (Ok rows', w2)"
        "configs = map (\<lambda>(net, cfg). from_rows net cfg) rows'"
      by (auto simp: load_networks_def Let_def split: prod.splits result.splits)
    with assms(2) [of conn w1] show ?thesis by simp
  qed
  have name: "nc_network_name \<circ> (\<lambda>(net, cfg). from_rows net cfg) = (\<lambda>(n, c). nr_network_name n)"
    by (auto simp: from_rows_def fun_eq_iff)
  have "map nc_network_name configs = map (\<lambda>(n, c). nr_network_name n) rows"
    by (simp add: configs name)
  moreover have "nc_network_name ` set configs = (\<lambda>(n, c). nr_network_name n) ` set rows"
    by (simp add: configs image_image from_rows_def case_prod_unfold)
  moreover have "\<forall>c \<in> set configs. \<exists>n r. n \<in> set nets \<and> r \<in> set cfgs \<and> c = from_rows n r
         \<and> nr_network_name n = cr_network_name r"
    using assms(3) by (auto simp: configs inner_join_of_def)
  ultimately show ?thesis using join_names [OF assms(1,3)] by simp
qed

section \<open>Properties\<close>

lemma split_once_append:
  assumes "CHR '':'' \<notin> set a"
  shows "split_once ''://'' (a @ ''://'' @ b) = Some (a, b)"
  using assms by (induction a) auto

lemma split_once_scheme:
  assumes "CHR '':'' \<notin> set a"
  shows "map_option fst (split_once ''://'' url) = Some a \<longleftrightarrow> (\<exists>b. url = a @ ''://'' @ b)"
  using split_once_append [OF assms] split_once_Some [of "''://''" url] by force

text \<open>The backend is chosen by the scheme of the URL: PostgreSQL exactly for \<open>postgres://\<close> and
  \<open>postgresql://\<close>, SQLite for \<open>sqlite://\<close> and for every string with no \<open>://\<close> at all (a plain file
  name), and any other scheme is an error that names it.\<close>

theorem backend_from_url_spec:
  "(backend_from_url url = Ok Postgres \<longleftrightarrow>
      (\<exists>r. url = ''postgres://'' @ r \<or> url = ''postgresql://'' @ r))
   \<and> (backend_from_url url = Ok Sqlite \<longleftrightarrow>
      (\<exists>r. url = ''sqlite://'' @ r) \<or> split_once ''://'' url = None)
   \<and> (backend_from_url url = Err e \<longleftrightarrow>
      (\<exists>s r. split_once ''://'' url = Some (s, r) \<and> s \<notin> {''postgres'', ''postgresql'', ''sqlite''}
        \<and> e = InvalidInput (''unsupported DATABASE_URL scheme: '' @ s)))"
proof -
  have pg: "map_option fst (split_once ''://'' url) = Some ''postgres'' \<longleftrightarrow> (\<exists>r. url = ''postgres://'' @ r)"
    and pq: "map_option fst (split_once ''://'' url) = Some ''postgresql'' \<longleftrightarrow> (\<exists>r. url = ''postgresql://'' @ r)"
    and sq: "map_option fst (split_once ''://'' url) = Some ''sqlite'' \<longleftrightarrow> (\<exists>r. url = ''sqlite://'' @ r)"
    by (subst split_once_scheme; simp)+
  show ?thesis
    unfolding ex_disj_distrib pg [symmetric] pq [symmetric] sq [symmetric]
    by (cases "split_once ''://'' url") (auto simp: backend_from_url_def Let_def)
qed

text \<open>A migration run is counted exactly once, as a success when it returned and as a failure when
  the checkout or the migration failed, and only well-formed metric calls are made.\<close>

theorem run_migrations_counted:
  "case run_migrations D pool log w of (r, log', w') \<Rightarrow>
     counter db_migrations_total [GLOBAL_NETWORK, ''success''] log' =
       counter db_migrations_total [GLOBAL_NETWORK, ''success''] log + (if is_ok r then 1 else 0)
   \<and> counter db_migrations_total [GLOBAL_NETWORK, ''failure''] log' =
       counter db_migrations_total [GLOBAL_NETWORK, ''failure''] log + (if is_ok r then 0 else 1)
   \<and> (log_ok log' \<longleftrightarrow> log_ok log)"
  by (auto simp: run_migrations_def Let_def increment_db_migration_def observe_db_pool_wait_def
      log_ok_emit split: prod.splits result.splits)

text \<open>Loading returns one configuration per config row, under distinct names, with the chain name
  of the network row and the endpoints of the config row of that name.\<close>

theorem load_networks_spec:
  assumes "schema_ok nets cfgs"
    and "\<And>conn w. fst (load_inner_join D conn w) = Ok rows"
    and "inner_join_of nets cfgs rows"
    and "load_networks D pool log w = (Ok configs, log', w')"
  shows "distinct (map nc_network_name configs)
    \<and> nc_network_name ` set configs = cr_network_name ` set cfgs
    \<and> (\<forall>c \<in> set configs. \<exists>n r. n \<in> set nets \<and> r \<in> set cfgs \<and> c = from_rows n r
         \<and> nr_network_name n = cr_network_name r)"
  using assms by (rule load_networks_rows)

theorem load_networks_spec_witness:
  "let n = \<lparr>nr_network_name = ''devnet'', nr_chain_name = ''casper-devnet''\<rparr>;
       m = \<lparr>nr_network_name = ''other'', nr_chain_name = ''casper''\<rparr>;
       c = \<lparr>cr_network_name = ''devnet'', cr_rest = ''r'', cr_sse = ''s'', cr_rpc = ''p'',
            cr_binary = ''b'', cr_gossip = ''g''\<rparr>;
       D = \<lparr>pool_build = (\<lambda>_ _. Ok ()), pool_get = (\<lambda>_ w. (Ok (), w)),
            run_pending_migrations = (\<lambda>_ w. (Ok (), w)),
            load_inner_join = (\<lambda>_ w. (Ok [(n, c)], w)),
            pool_state = (\<lambda>_ _. (0, 0)), db_clock = (\<lambda>w. w)\<rparr> :: (nat, unit, unit) diesel
   in \<exists>configs. load_networks D (SqlitePool ()) [] 0 = (Ok configs, [Observe db_pool_wait_seconds [GLOBAL_NETWORK, ''load_networks''] 0], 0)
        \<and> distinct (map nc_network_name configs) \<and> nc_network_name ` set configs = {''devnet''}"
proof -
  let ?n = "\<lparr>nr_network_name = ''devnet'', nr_chain_name = ''casper-devnet''\<rparr>"
  let ?m = "\<lparr>nr_network_name = ''other'', nr_chain_name = ''casper''\<rparr>"
  let ?c = "\<lparr>cr_network_name = ''devnet'', cr_rest = ''r'', cr_sse = ''s'', cr_rpc = ''p'',
            cr_binary = ''b'', cr_gossip = ''g''\<rparr>"
  let ?D = "\<lparr>pool_build = (\<lambda>_ _. Ok ()), pool_get = (\<lambda>_ w. (Ok (), w)),
            run_pending_migrations = (\<lambda>_ w. (Ok (), w)),
            load_inner_join = (\<lambda>_ w. (Ok [(?n, ?c)], w)),
            pool_state = (\<lambda>_ _. (0, 0)), db_clock = (\<lambda>w. w)\<rparr> :: (nat, unit, unit) diesel"
  have s: "schema_ok [?n, ?m] [?c]" by (simp add: schema_ok_def)
  have j: "inner_join_of [?n, ?m] [?c] [(?n, ?c)]" by (auto simp: inner_join_of_def)
  have l: "load_networks ?D (SqlitePool ()) [] 0 =
      (Ok [from_rows ?n ?c], [Observe db_pool_wait_seconds [GLOBAL_NETWORK, ''load_networks''] 0], 0)"
    by (simp add: load_networks_def observe_db_pool_wait_def emit_def)
  from load_networks_spec [OF s _ j l] l show ?thesis unfolding Let_def by simp
qed

text \<open>The connection gauge is consistent after every update: the three values set are the pool's
  total, its idle count, and their difference, which never wraps below zero.\<close>

theorem set_db_pool_stats_consistent:
  "set_db_pool_stats tot idle log = log @
     [Set db_pool_connections [GLOBAL_NETWORK, ''total''] (int (unat tot)),
      Set db_pool_connections [GLOBAL_NETWORK, ''idle''] (int (unat idle)),
      Set db_pool_connections [GLOBAL_NETWORK, ''in_use''] (int (unat tot - unat idle))]"
proof -
  have "unat (saturating_sub tot idle) = unat tot - unat idle"
    by (auto simp: saturating_sub_def word_less_nat_alt unat_sub_if_size)
  then have "uint (saturating_sub tot idle) = int (unat tot - unat idle)" by (metis uint_nat)
  then show ?thesis by (simp add: set_db_pool_stats_def emit_def Let_def)
qed

end
