(* ===== verification/Schema.thy ===== *)
theory Schema
  imports Database
begin

text \<open>
  The tables behind the networks: \<open>src/schema.rs\<close> declares them for Diesel, the migration
  \<open>migrations/0001_create_tables/up.sql\<close> creates them, and the derived \<open>Queryable\<close> of \<open>src/models.rs\<close> reads
  their rows by position. A stored row gives the value of each column by name, \<open>None\<close> for NULL. The query of
  \<open>load_networks\<close> is the inner join over the declared reference, with the columns of the first table before
  those of the second; a row of the result is decoded column by column, and a NULL in a column that is
  declared as \<open>Text\<close> is an error.
\<close>

section \<open>Declarations\<close>

datatype sql_type = Text | Nullable sql_type

record table_decl =
  tbl_name :: string
  tbl_key :: string
  tbl_columns :: "(string \<times> sql_type) list"

record reference =
  ref_child :: string
  ref_column :: string
  ref_parent :: string

definition config_table :: table_decl where
  "config_table =
     \<lparr>tbl_name = ''config'', tbl_key = ''network_name'',
      tbl_columns = [(''network_name'', Text), (''rest'', Text), (''sse'', Text), (''rpc'', Text),
        (''binary'', Text), (''gossip'', Text)]\<rparr>"

definition network_table :: table_decl where
  "network_table =
     \<lparr>tbl_name = ''network'', tbl_key = ''network_name'',
      tbl_columns = [(''network_name'', Text), (''chain_name'', Text)]\<rparr>"

definition joinable :: reference where
  "joinable = \<lparr>ref_child = ''config'', ref_column = ''network_name'', ref_parent = ''network''\<rparr>"

definition same_query :: "string set" where
  "same_query = {''config'', ''network''}"

text \<open>What the migration creates. Every column is of the SQL type TEXT; the constraints of a column are those
  written after its type.\<close>

datatype constraint = PRIMARY_KEY | NOT_NULL

record sql_table =
  sql_name :: string
  sql_columns :: "(string \<times> constraint list) list"

definition migration_network :: sql_table where
  "migration_network =
     \<lparr>sql_name = ''network'',
      sql_columns = [(''network_name'', [PRIMARY_KEY, NOT_NULL]), (''chain_name'', [NOT_NULL])]\<rparr>"

definition migration_config :: sql_table where
  "migration_config =
     \<lparr>sql_name = ''config'',
      sql_columns = [(''network_name'', [PRIMARY_KEY, NOT_NULL]), (''rest'', [NOT_NULL]), (''sse'', [NOT_NULL]),
        (''rpc'', [NOT_NULL]), (''binary'', [NOT_NULL]), (''gossip'', [NOT_NULL])]\<rparr>"

definition migration_reference :: reference where
  "migration_reference = \<lparr>ref_child = ''config'', ref_column = ''network_name'', ref_parent = ''network''\<rparr>"

text \<open>The declaration Diesel has for a table of the database: its one key, and a nullable type for a column
  without NOT NULL.\<close>

definition column_type :: "constraint list \<Rightarrow> sql_type" where
  "column_type cs = (if NOT_NULL \<in> set cs then Text else Nullable Text)"

definition declares :: "table_decl \<Rightarrow> sql_table \<Rightarrow> bool" where
  "declares T Q \<longleftrightarrow>
     tbl_name T = sql_name Q
   \<and> map fst (filter (\<lambda>(c, cs). PRIMARY_KEY \<in> set cs) (sql_columns Q)) = [tbl_key T]
   \<and> tbl_columns T = map (\<lambda>(c, cs). (c, column_type cs)) (sql_columns Q)"

section \<open>Rows and the query\<close>

type_synonym sql_row = "string \<Rightarrow> string option"

definition select_all :: "table_decl \<Rightarrow> sql_row \<Rightarrow> (sql_type \<times> string option) list" where
  "select_all T row = map (\<lambda>(c, ty). (ty, row c)) (tbl_columns T)"

text \<open>Reading a column of type \<open>Text\<close> into a \<open>String\<close>; only such columns have fields of that type.\<close>

fun read_text :: "sql_type \<times> string option \<Rightarrow> string option" where
  "read_text (Text, v) = v"
| "read_text (Nullable _, v) = None"

text \<open>The derived \<open>Queryable\<close>: the fields of the struct in their order, from the columns in theirs.\<close>

fun NetworkRow_build :: "string list \<Rightarrow> NetworkRow option" where
  "NetworkRow_build [network_name, chain_name] =
     Some \<lparr>nr_network_name = network_name, nr_chain_name = chain_name\<rparr>"
| "NetworkRow_build _ = None"

fun ConfigRow_build :: "string list \<Rightarrow> ConfigRow option" where
  "ConfigRow_build [network_name, rest, sse, rpc, binary, gossip] =
     Some \<lparr>cr_network_name = network_name, cr_rest = rest, cr_sse = sse, cr_rpc = rpc, cr_binary = binary,
           cr_gossip = gossip\<rparr>"
| "ConfigRow_build _ = None"

text \<open>The condition of a join does not hold for NULL.\<close>

definition join_on :: "reference \<Rightarrow> table_decl \<Rightarrow> sql_row list \<Rightarrow> sql_row list \<Rightarrow> (sql_row \<times> sql_row) list" where
  "join_on R parent ps cs =
     filter (\<lambda>(p, c). c (ref_column R) \<noteq> None \<and> c (ref_column R) = p (tbl_key parent)) (List.product ps cs)"

definition decode_row ::
  "(sql_type \<times> string option) list \<times> (sql_type \<times> string option) list \<Rightarrow> (NetworkRow \<times> ConfigRow) option" where
  "decode_row cols =
     (case (Option.bind (those (map read_text (fst cols))) NetworkRow_build,
            Option.bind (those (map read_text (snd cols))) ConfigRow_build) of
        (Some n, Some c) \<Rightarrow> Some (n, c)
      | _ \<Rightarrow> None)"

definition query_networks :: "sql_row list \<Rightarrow> sql_row list \<Rightarrow> (NetworkRow \<times> ConfigRow) list option" where
  "query_networks nets cfgs =
     those (map (\<lambda>(n, c). decode_row (select_all network_table n, select_all config_table c))
              (join_on joinable network_table nets cfgs))"

section \<open>The constraints of the tables\<close>

text \<open>What the database enforces of the rows of a table: NOT NULL in each of them, and no two with the same key.\<close>

definition row_ok :: "sql_table \<Rightarrow> sql_row \<Rightarrow> bool" where
  "row_ok Q r \<longleftrightarrow> list_all (\<lambda>(c, cs). NOT_NULL \<in> set cs \<longrightarrow> r c \<noteq> None) (sql_columns Q)"

definition table_ok :: "sql_table \<Rightarrow> sql_row list \<Rightarrow> bool" where
  "table_ok Q rows \<longleftrightarrow> list_all (row_ok Q) rows
     \<and> list_all (\<lambda>(c, cs). PRIMARY_KEY \<in> set cs \<longrightarrow> distinct (map (\<lambda>r. r c) rows)) (sql_columns Q)"

definition refers :: "reference \<Rightarrow> sql_row list \<Rightarrow> sql_row list \<Rightarrow> bool" where
  "refers R ps cs \<longleftrightarrow> (\<lambda>c. c (ref_column R)) ` set cs \<subseteq> (\<lambda>p. p ''network_name'') ` set ps"

text \<open>A database made by the migration holds to its constraints, its keys and its reference (to the key of
  the network table).\<close>

definition db_ok :: "sql_row list \<Rightarrow> sql_row list \<Rightarrow> bool" where
  "db_ok nets cfgs \<longleftrightarrow>
     table_ok migration_network nets \<and> table_ok migration_config cfgs \<and> refers migration_reference nets cfgs"

text \<open>The rows read by the names of their columns.\<close>

definition column :: "sql_row \<Rightarrow> string \<Rightarrow> string" where
  "column r c = (case r c of Some v \<Rightarrow> v | None \<Rightarrow> [])"

definition network_by_name :: "sql_row \<Rightarrow> NetworkRow" where
  "network_by_name r = \<lparr>nr_network_name = column r ''network_name'', nr_chain_name = column r ''chain_name''\<rparr>"

definition config_by_name :: "sql_row \<Rightarrow> ConfigRow" where
  "config_by_name r =
     \<lparr>cr_network_name = column r ''network_name'', cr_rest = column r ''rest'', cr_sse = column r ''sse'',
      cr_rpc = column r ''rpc'', cr_binary = column r ''binary'', cr_gossip = column r ''gossip''\<rparr>"

lemma column_Some: "r c \<noteq> None \<Longrightarrow> r c = Some (column r c)"
  by (auto simp: column_def)

lemma row_columns:
  "row_ok migration_network n \<longleftrightarrow> n ''network_name'' \<noteq> None \<and> n ''chain_name'' \<noteq> None"
  "row_ok migration_config c \<longleftrightarrow> c ''network_name'' \<noteq> None \<and> c ''rest'' \<noteq> None \<and> c ''sse'' \<noteq> None
     \<and> c ''rpc'' \<noteq> None \<and> c ''binary'' \<noteq> None \<and> c ''gossip'' \<noteq> None"
  by (simp_all add: row_ok_def migration_network_def migration_config_def)

lemma decode_by_name:
  assumes "row_ok migration_network n" and "row_ok migration_config c"
  shows "decode_row (select_all network_table n, select_all config_table c) = Some (network_by_name n, config_by_name c)"
  using assms
  by (auto simp: row_columns decode_row_def select_all_def network_table_def config_table_def network_by_name_def
      config_by_name_def column_def)

text \<open>A row that has a NULL does not decode.\<close>

lemma null_not_decoded:
  assumes "\<not> row_ok migration_network n \<or> \<not> row_ok migration_config c"
  shows "decode_row (select_all network_table n, select_all config_table c) = None"
  using assms
  by (auto simp: row_columns decode_row_def select_all_def network_table_def config_table_def split: option.splits)

lemma those_map_Some: "(\<And>x. x \<in> set xs \<Longrightarrow> f x = Some (g x)) \<Longrightarrow> those (map f xs) = Some (map g xs)"
  by (induction xs) simp_all

lemma those_map_None: "x \<in> set xs \<Longrightarrow> f x = None \<Longrightarrow> those (map f xs) = None"
  by (induction xs) (auto split: option.split)

lemma db_okD:
  assumes "db_ok nets cfgs"
  shows "n \<in> set nets \<Longrightarrow> row_ok migration_network n" and "c \<in> set cfgs \<Longrightarrow> row_ok migration_config c"
    and "distinct (map (\<lambda>r. r ''network_name'') nets)" and "distinct (map (\<lambda>r. r ''network_name'') cfgs)"
    and "(\<lambda>c. c ''network_name'') ` set cfgs \<subseteq> (\<lambda>p. p ''network_name'') ` set nets"
  using assms
  by (auto simp: db_ok_def table_ok_def refers_def list_all_iff migration_network_def migration_config_def
      migration_reference_def)

lemma db_ok_name:
  assumes "db_ok nets cfgs" and "r \<in> set nets \<union> set cfgs"
  shows "r ''network_name'' = Some (column r ''network_name'')"
proof (rule column_Some)
  show "r ''network_name'' \<noteq> None"
    using db_okD(1) [OF assms(1), of r] db_okD(2) [OF assms(1), of r] assms(2)
    unfolding row_columns by blast
qed

lemma query_by_name:
  assumes "db_ok nets cfgs"
  shows "query_networks nets cfgs =
     Some (map (\<lambda>(n, c). (network_by_name n, config_by_name c)) (join_on joinable network_table nets cfgs))"
  unfolding query_networks_def
  by (rule those_map_Some) (auto simp: join_on_def intro!: decode_by_name db_okD(1,2) [OF assms])

lemma db_ok_schema:
  assumes "db_ok nets cfgs"
  shows "schema_ok (map network_by_name nets) (map config_by_name cfgs)"
proof -
  note name = db_ok_name [OF assms]
  have inj: "distinct (map (\<lambda>r. column r ''network_name'') rs)"
    if "distinct (map (\<lambda>r. r ''network_name'') rs)" "set rs \<subseteq> set nets \<union> set cfgs" for rs
  proof -
    have "map (\<lambda>r. r ''network_name'') rs = map Some (map (\<lambda>r. column r ''network_name'') rs)"
      using that(2) name by (simp add: subset_iff)
    with that(1) have "distinct (map Some (map (\<lambda>r. column r ''network_name'') rs))" by (simp only:)
    then show ?thesis unfolding distinct_map [of Some] by (rule conjunct1)
  qed
  have sub: "\<exists>n \<in> set nets. column n ''network_name'' = column c ''network_name''" if "c \<in> set cfgs" for c
  proof -
    from that have "c ''network_name'' \<in> (\<lambda>p. p ''network_name'') ` set nets" by (intro subsetD [OF db_okD(5) [OF assms]] imageI)
    then show ?thesis by (auto simp: column_def)
  qed
  have fields: "map nr_network_name (map network_by_name rs) = map (\<lambda>r. column r ''network_name'') rs"
    "map cr_network_name (map config_by_name rs) = map (\<lambda>r. column r ''network_name'') rs" for rs
    by (simp_all add: network_by_name_def config_by_name_def)
  have "set (map cr_network_name (map config_by_name cfgs)) \<subseteq> set (map nr_network_name (map network_by_name nets))"
    unfolding fields
  proof
    fix x
    assume "x \<in> set (map (\<lambda>r. column r ''network_name'') cfgs)"
    then obtain c where c: "c \<in> set cfgs" "x = column c ''network_name''" by auto
    from sub [OF c(1)] obtain n where n: "n \<in> set nets" "column n ''network_name'' = column c ''network_name''" by blast
    have "x = column n ''network_name''" by (simp only: c(2) n(2))
    then show "x \<in> set (map (\<lambda>r. column r ''network_name'') nets)" unfolding set_map using n(1) by (rule image_eqI)
  qed
  moreover have "distinct (map nr_network_name (map network_by_name nets))"
    "distinct (map cr_network_name (map config_by_name cfgs))"
    unfolding fields
    by (rule inj [OF db_okD(3) [OF assms] Un_upper1], rule inj [OF db_okD(4) [OF assms] Un_upper2])
  ultimately show ?thesis unfolding schema_ok_def by (intro conjI) (simp_all only: set_map)
qed

lemma query_is_join:
  assumes "db_ok nets cfgs"
  shows "inner_join_of (map network_by_name nets) (map config_by_name cfgs)
    (map (\<lambda>(n, c). (network_by_name n, config_by_name c)) (join_on joinable network_table nets cfgs))"
proof -
  note name = db_ok_name [OF assms]
  have inj: "inj_on (\<lambda>r. r ''network_name'') (set nets)" "inj_on (\<lambda>r. r ''network_name'') (set cfgs)"
    and d: "distinct nets" "distinct cfgs"
    using db_okD(3,4) [OF assms] by (simp_all add: distinct_map)
  have same: "c ''network_name'' = n ''network_name'' \<longleftrightarrow> column c ''network_name'' = column n ''network_name''"
    if "n \<in> set nets \<union> set cfgs" "c \<in> set nets \<union> set cfgs" for n c
    unfolding name [OF that(1)] name [OF that(2)] by simp
  have "inj_on (\<lambda>(n, c). (network_by_name n, config_by_name c)) (set nets \<times> set cfgs)"
    by (rule inj_onI)
       (auto simp: network_by_name_def config_by_name_def same intro: inj_onD [OF inj(1)] inj_onD [OF inj(2)])
  then have "inj_on (\<lambda>(n, c). (network_by_name n, config_by_name c)) (set (join_on joinable network_table nets cfgs))"
    by (rule inj_on_subset) (auto simp: join_on_def)
  moreover have "distinct (join_on joinable network_table nets cfgs)"
    using d by (simp add: join_on_def distinct_product)
  moreover have "set (join_on joinable network_table nets cfgs) =
      {(n, c). n \<in> set nets \<and> c \<in> set cfgs \<and> column n ''network_name'' = column c ''network_name''}"
    using name same by (auto simp: join_on_def joinable_def network_table_def)
  ultimately show ?thesis
    by (auto simp: inner_join_of_def distinct_map network_by_name_def config_by_name_def image_iff)
qed

section \<open>Properties\<close>

text \<open>C37: the types of the models fit the tables. The declarations of the schema are those of the tables the
  migration creates, column by column with their NOT NULL constraints and keys, and its reference, and both
  tables may appear in one query. For any contents that the constraints admit the query succeeds: every result
  row decodes, and although the fields are filled by position, each field of the two structs holds the
  column of its own name, for exactly the pairs of rows with the same network name. The constraints are
  needed: one NULL in a joined row, and the whole query fails.\<close>

theorem rows_typed_by_schema:
  "declares network_table migration_network \<and> declares config_table migration_config
   \<and> migration_reference = joinable \<and> {ref_child joinable, ref_parent joinable} \<subseteq> same_query
   \<and> (db_ok nets cfgs \<longrightarrow>
        query_networks nets cfgs =
          Some (map (\<lambda>(n, c). (network_by_name n, config_by_name c))
                  (filter (\<lambda>(n, c). c ''network_name'' = n ''network_name'') (List.product nets cfgs))))
   \<and> ((\<exists>n \<in> set nets. \<exists>c \<in> set cfgs. n ''network_name'' \<noteq> None \<and> n ''network_name'' = c ''network_name''
          \<and> (\<not> row_ok migration_network n \<or> \<not> row_ok migration_config c)) \<longrightarrow>
        query_networks nets cfgs = None)"
proof (intro conjI impI)
  show "declares network_table migration_network" "declares config_table migration_config"
    by (simp_all add: declares_def column_type_def network_table_def config_table_def migration_network_def
        migration_config_def)
next
  assume ok: "db_ok nets cfgs"
  have "join_on joinable network_table nets cfgs =
      filter (\<lambda>(n, c). c ''network_name'' = n ''network_name'') (List.product nets cfgs)"
    unfolding join_on_def joinable_def network_table_def using db_ok_name [OF ok] by (intro filter_cong) auto
  with query_by_name [OF ok] show "query_networks nets cfgs =
      Some (map (\<lambda>(n, c). (network_by_name n, config_by_name c))
              (filter (\<lambda>(n, c). c ''network_name'' = n ''network_name'') (List.product nets cfgs)))" by simp
next
  assume "\<exists>n \<in> set nets. \<exists>c \<in> set cfgs. n ''network_name'' \<noteq> None \<and> n ''network_name'' = c ''network_name''
    \<and> (\<not> row_ok migration_network n \<or> \<not> row_ok migration_config c)"
  then obtain n c where m: "n \<in> set nets" "c \<in> set cfgs" "c ''network_name'' \<noteq> None" "c ''network_name'' = n ''network_name''"
    and bad: "\<not> row_ok migration_network n \<or> \<not> row_ok migration_config c" by metis
  have "(n, c) \<in> set (join_on joinable network_table nets cfgs)"
    using m by (simp add: join_on_def joinable_def network_table_def)
  then show "query_networks nets cfgs = None"
    unfolding query_networks_def by (rule those_map_None) (simp add: null_not_decoded [OF bad])
qed (simp_all add: migration_reference_def joinable_def same_query_def)

text \<open>C38: loading returns the configured networks, read by column name. On a database that holds to the keys
  and the reference of the migration and answers the query as declared, the configurations have distinct
  names, which are those of the config table, and each one carries the chain name of the network row and
  the endpoints of the config row of that name.\<close>

theorem load_networks_by_name:
  assumes "db_ok nets cfgs" and "query_networks nets cfgs = Some rows"
    and "\<And>conn w. fst (load_inner_join D conn w) = Ok rows"
    and "load_networks D pool log w = (Ok configs, log', w')"
  shows "distinct (map nc_network_name configs)
    \<and> (\<lambda>c. Some (nc_network_name c)) ` set configs = (\<lambda>r. r ''network_name'') ` set cfgs
    \<and> (\<forall>c \<in> set configs. \<exists>n \<in> set nets. \<exists>r \<in> set cfgs.
         n ''network_name'' = Some (nc_network_name c) \<and> n ''chain_name'' = Some (nc_chain_name c)
         \<and> r ''network_name'' = Some (nc_network_name c) \<and> r ''rest'' = Some (nc_rest c)
         \<and> r ''sse'' = Some (nc_sse c) \<and> r ''rpc'' = Some (nc_rpc c) \<and> r ''binary'' = Some (nc_binary c)
         \<and> r ''gossip'' = Some (nc_gossip c))"
proof -
  have join: "inner_join_of (map network_by_name nets) (map config_by_name cfgs) rows"
    using query_is_join [OF assms(1)] assms(2) query_by_name [OF assms(1)] by simp
  note spec = load_networks_rows [OF db_ok_schema [OF assms(1)] assms(3) join assms(4)]
  have "\<exists>n \<in> set nets. \<exists>r \<in> set cfgs.
      n ''network_name'' = Some (nc_network_name c) \<and> n ''chain_name'' = Some (nc_chain_name c)
      \<and> r ''network_name'' = Some (nc_network_name c) \<and> r ''rest'' = Some (nc_rest c)
      \<and> r ''sse'' = Some (nc_sse c) \<and> r ''rpc'' = Some (nc_rpc c) \<and> r ''binary'' = Some (nc_binary c)
      \<and> r ''gossip'' = Some (nc_gossip c)" if "c \<in> set configs" for c
  proof -
    from spec that obtain n r where nr: "n \<in> set nets" "r \<in> set cfgs"
      "c = from_rows (network_by_name n) (config_by_name r)"
      "nr_network_name (network_by_name n) = cr_network_name (config_by_name r)" by auto
    with db_okD(1,2) [OF assms(1)] have "row_ok migration_network n" "row_ok migration_config r" by blast+
    with nr show ?thesis
      by (intro bexI [OF _ nr(1)] bexI [OF _ nr(2)])
         (auto simp: from_rows_def network_by_name_def config_by_name_def row_columns column_def)
  qed
  moreover have "(\<lambda>c. Some (nc_network_name c)) ` set configs = (\<lambda>r. r ''network_name'') ` set cfgs"
  proof -
    have "(\<lambda>c. Some (nc_network_name c)) ` set configs = Some ` nc_network_name ` set configs" by (simp add: image_image)
    also have "\<dots> = (\<lambda>r. Some (column r ''network_name'')) ` set cfgs"
      using spec by (simp add: image_image config_by_name_def)
    also have "\<dots> = (\<lambda>r. r ''network_name'') ` set cfgs" using db_ok_name [OF assms(1)] by (intro image_cong) auto
    finally show ?thesis .
  qed
  ultimately show ?thesis using spec by blast
qed

definition row_of :: "(string \<times> string) list \<Rightarrow> sql_row" where
  "row_of cols = map_of cols"

definition sample_nets :: "sql_row list" where
  "sample_nets =
     [row_of [(''network_name'', ''devnet''), (''chain_name'', ''casper-devnet'')],
      row_of [(''network_name'', ''spare''), (''chain_name'', ''casper'')]]"

definition sample_cfgs :: "sql_row list" where
  "sample_cfgs =
     [row_of [(''network_name'', ''devnet''), (''rest'', ''R''), (''sse'', ''S''), (''rpc'', ''P''),
              (''binary'', ''B''), (''gossip'', ''G'')]]"

lemma sample_db_ok: "db_ok sample_nets sample_cfgs"
  by (simp add: db_ok_def table_ok_def row_columns refers_def migration_reference_def
      sample_nets_def sample_cfgs_def row_of_def) (simp add: migration_network_def migration_config_def)

theorem rows_typed_by_schema_witness:
  "query_networks sample_nets sample_cfgs =
     Some [(\<lparr>nr_network_name = ''devnet'', nr_chain_name = ''casper-devnet''\<rparr>,
            \<lparr>cr_network_name = ''devnet'', cr_rest = ''R'', cr_sse = ''S'', cr_rpc = ''P'', cr_binary = ''B'', cr_gossip = ''G''\<rparr>)]
   \<and> query_networks sample_nets [(row_of [(''network_name'', ''devnet'')])] = None"
  using rows_typed_by_schema [of sample_nets sample_cfgs] sample_db_ok
    rows_typed_by_schema [of sample_nets "[row_of [(''network_name'', ''devnet'')]]"]
  by (simp add: sample_nets_def sample_cfgs_def row_of_def network_by_name_def config_by_name_def column_def row_columns)

theorem load_networks_by_name_witness:
  "\<exists>configs :: NetworkConfig list. nc_network_name ` set configs = {''devnet''}
     \<and> (\<forall>c \<in> set configs. nc_chain_name c = ''casper-devnet'' \<and> nc_binary c = ''B'')"
proof -
  let ?rows = "the (query_networks sample_nets sample_cfgs)"
  let ?D = "\<lparr>pool_build = (\<lambda>_ _. Ok ()), pool_get = (\<lambda>_ w. (Ok (), w)),
      run_pending_migrations = (\<lambda>_ w. (Ok (), w)), load_inner_join = (\<lambda>_ w. (Ok ?rows, w)),
      pool_state = (\<lambda>_ _. (0, 0)), db_clock = (\<lambda>w. w)\<rparr> :: (nat, unit, unit) diesel"
  have q: "query_networks sample_nets sample_cfgs = Some ?rows" by (simp add: query_by_name [OF sample_db_ok])
  have d: "fst (load_inner_join ?D conn w) = Ok ?rows" for conn w by simp
  obtain configs log' w' where l: "load_networks ?D (SqlitePool ()) [] 0 = (Ok configs, log', w')"
    by (simp add: load_networks_def)
  note spec = load_networks_by_name [OF sample_db_ok q d l]
  have "nc_chain_name c = ''casper-devnet'' \<and> nc_binary c = ''B''" if c: "c \<in> set configs" for c
  proof -
    obtain n r where "n \<in> set sample_nets" "r \<in> set sample_cfgs" "n ''network_name'' = Some (nc_network_name c)"
      "n ''chain_name'' = Some (nc_chain_name c)" "r ''network_name'' = Some (nc_network_name c)"
      "r ''binary'' = Some (nc_binary c)"
      using bspec [OF conjunct2 [OF conjunct2 [OF spec]] c] by (elim bexE conjE) (rule that)
    note f = this
    have r: "r = hd sample_cfgs" using f(2) by (simp add: sample_cfgs_def)
    have nb: "nc_network_name c = ''devnet''" "nc_binary c = ''B''"
      using f(5,6) by (simp_all add: r sample_cfgs_def row_of_def)
    have "n = sample_nets ! 0 \<or> n = sample_nets ! 1" using f(1) by (auto simp: sample_nets_def)
    moreover have "sample_nets ! 1 \<noteq> n" using f(3) unfolding nb by (auto simp: sample_nets_def row_of_def)
    ultimately have n: "n = sample_nets ! 0" by blast
    show ?thesis using f(4) nb(2) unfolding n by (simp add: sample_nets_def row_of_def)
  qed
  moreover have "Some ` (nc_network_name ` set configs) = Some ` {''devnet''}"
    using conjunct1 [OF conjunct2 [OF spec]] unfolding image_image by (simp add: sample_cfgs_def row_of_def)
  then have "nc_network_name ` set configs = {''devnet''}" by (simp only: inj_image_eq_iff [OF inj_Some])
  ultimately show ?thesis by (intro exI [of _ configs] conjI ballI) simp_all
qed

end
