(* ===== verification/Utf8.thy ===== *)
theory Utf8
  imports Prelude
begin

text \<open>
  The text type of the source language: a \<open>String\<close> is a sequence of Unicode scalar values, held as their
  UTF-8 bytes. \<open>as_bytes\<close> is that encoding and \<open>from_utf8\<close> the checked conversion back, which refuses an
  overlong form, a surrogate, a value above 0x10FFFF, a stray continuation byte and a truncated sequence.
\<close>

definition scalar :: "nat \<Rightarrow> bool" where
  "scalar c \<longleftrightarrow> c < 0xD800 \<or> (0xE000 \<le> c \<and> c < 0x110000)"

type_synonym text_string = "nat list"

definition encode_utf8 :: "nat \<Rightarrow> nat list" where
  "encode_utf8 c =
     (if c < 0x80 then [c]
      else if c < 0x800 then [0xC0 + c div 64, 0x80 + c mod 64]
      else if c < 0x10000 then [0xE0 + c div 4096, 0x80 + c div 64 mod 64, 0x80 + c mod 64]
      else [0xF0 + c div 262144, 0x80 + c div 4096 mod 64, 0x80 + c div 64 mod 64, 0x80 + c mod 64])"

definition continuation :: "nat \<Rightarrow> bool" where
  "continuation b \<longleftrightarrow> 0x80 \<le> b \<and> b < 0xC0"

text \<open>One scalar value and the bytes after it.\<close>

fun decode_one :: "nat list \<Rightarrow> (nat \<times> nat list) option" where
  "decode_one [] = None"
| "decode_one (a # bs) =
     (if a < 0x80 then Some (a, bs)
      else if a < 0xC2 then None
      else if a < 0xE0 then
        (case bs of
           b # r \<Rightarrow> if continuation b then Some ((a - 0xC0) * 64 + (b - 0x80), r) else None
         | _ \<Rightarrow> None)
      else if a < 0xF0 then
        (case bs of
           b # c # r \<Rightarrow>
             (let v = (a - 0xE0) * 4096 + (b - 0x80) * 64 + (c - 0x80)
              in if continuation b \<and> continuation c \<and> 0x800 \<le> v \<and> scalar v then Some (v, r) else None)
         | _ \<Rightarrow> None)
      else
        (case bs of
           b # c # d # r \<Rightarrow>
             (let v = (a - 0xF0) * 262144 + (b - 0x80) * 4096 + (c - 0x80) * 64 + (d - 0x80)
              in if continuation b \<and> continuation c \<and> continuation d \<and> 0x10000 \<le> v \<and> scalar v
                 then Some (v, r) else None)
         | _ \<Rightarrow> None))"

lemma decode_one_shorter: "decode_one bs = Some (c, r) \<Longrightarrow> length r < length bs"
  by (cases bs) (auto simp: Let_def split: if_splits list.splits)

function decode_utf8 :: "nat list \<Rightarrow> text_string option" where
  "decode_utf8 bs =
     (if bs = [] then Some []
      else case decode_one bs of
             None \<Rightarrow> None
           | Some (c, r) \<Rightarrow> map_option (Cons c) (decode_utf8 r))"
  by pat_completeness auto

termination
  by (relation "measure length") (auto dest: decode_one_shorter)

declare decode_utf8.simps [simp del]

definition as_bytes :: "text_string \<Rightarrow> bytes" where
  "as_bytes s = map word_of_nat (concat (map encode_utf8 s))"

definition from_utf8 :: "bytes \<Rightarrow> text_string option" where
  "from_utf8 bs = decode_utf8 (map unat bs)"

section \<open>Round trips\<close>

lemma encode_utf8_byte: "scalar c \<Longrightarrow> b \<in> set (encode_utf8 c) \<Longrightarrow> b < 256"
  by (auto simp: encode_utf8_def scalar_def split: if_splits)

text \<open>The base-64 digits of a value; with them the rest is linear.\<close>

lemma base64_2:
  assumes "y < (64 :: nat)"
  shows "(x * 64 + y) div 64 = x" and "(x * 64 + y) mod 64 = y"
  using assms by simp_all

lemma base64_3:
  assumes "y < (64 :: nat)" and "z < 64"
  shows "(x * 4096 + y * 64 + z) div 4096 = x" and "(x * 4096 + y * 64 + z) div 64 mod 64 = y"
    and "(x * 4096 + y * 64 + z) mod 64 = z"
proof -
  have v: "x * 4096 + y * 64 + z = (x * 64 + y) * 64 + z" by simp
  have d: "(x * 4096 + y * 64 + z) div 64 = x * 64 + y" unfolding v using base64_2 [OF assms(2)] by blast
  then show "(x * 4096 + y * 64 + z) div 64 mod 64 = y" using base64_2 [OF assms(1)] by metis
  have "(x * 4096 + y * 64 + z) div 4096 = (x * 4096 + y * 64 + z) div 64 div 64"
    by (simp flip: div_mult2_eq)
  then show "(x * 4096 + y * 64 + z) div 4096 = x" unfolding d using base64_2 [OF assms(1)] by metis
  show "(x * 4096 + y * 64 + z) mod 64 = z" unfolding v using base64_2 [OF assms(2)] by blast
qed

lemma base64_4:
  assumes "y < (64 :: nat)" and "z < 64" and "t < 64"
  shows "(x * 262144 + y * 4096 + z * 64 + t) div 262144 = x"
    and "(x * 262144 + y * 4096 + z * 64 + t) div 4096 mod 64 = y"
    and "(x * 262144 + y * 4096 + z * 64 + t) div 64 mod 64 = z"
    and "(x * 262144 + y * 4096 + z * 64 + t) mod 64 = t"
proof -
  let ?v = "x * 262144 + y * 4096 + z * 64 + t"
  have v: "?v = (x * 64 + y) * 4096 + z * 64 + t" by simp
  have d: "?v div 4096 = x * 64 + y" unfolding v using base64_3 [OF assms(2,3)] by blast
  then show "?v div 4096 mod 64 = y" using base64_2 [OF assms(1)] by metis
  have "?v div 262144 = ?v div 4096 div 64" by (simp flip: div_mult2_eq)
  then show "?v div 262144 = x" unfolding d using base64_2 [OF assms(1)] by metis
  show "?v div 64 mod 64 = z" "?v mod 64 = t" unfolding v using base64_3 [OF assms(2,3)] by blast+
qed

lemma encode_1: "c < 0x80 \<Longrightarrow> encode_utf8 c = [c]"
  by (simp add: encode_utf8_def)

lemma encode_2:
  assumes "c = x * 64 + y" and "y < 64" and "2 \<le> x" and "x < 32"
  shows "encode_utf8 c = [0xC0 + x, 0x80 + y]"
  using assms(2-4) base64_2 [OF assms(2), of x] unfolding assms(1) by (simp add: encode_utf8_def)

lemma encode_3:
  assumes "c = x * 4096 + y * 64 + z" and "y < 64" and "z < 64" and "0x800 \<le> c" and "x < 16"
  shows "encode_utf8 c = [0xE0 + x, 0x80 + y, 0x80 + z]"
proof -
  have "c < 0x10000" using assms(1-3,5) by linarith
  with assms(4) have "encode_utf8 c = [0xE0 + c div 4096, 0x80 + c div 64 mod 64, 0x80 + c mod 64]"
    by (simp add: encode_utf8_def)
  then show ?thesis using base64_3 [OF assms(2,3), of x] unfolding assms(1) by presburger
qed

lemma encode_4:
  assumes "c = x * 262144 + y * 4096 + z * 64 + t" and "y < 64" and "z < 64" and "t < 64" and "0x10000 \<le> c"
  shows "encode_utf8 c = [0xF0 + x, 0x80 + y, 0x80 + z, 0x80 + t]"
proof -
  have "encode_utf8 c = [0xF0 + c div 262144, 0x80 + c div 4096 mod 64, 0x80 + c div 64 mod 64, 0x80 + c mod 64]"
    using assms(5) by (simp add: encode_utf8_def)
  then show ?thesis using base64_4 [OF assms(2-4), of x] unfolding assms(1) by presburger
qed

lemma scalar_cases [consumes 1, case_names one two three four]:
  assumes "scalar c"
  obtains "c < 0x80"
  | x y where "c = x * 64 + y" "y < 64" "2 \<le> x" "x < 32"
  | x y z where "c = x * 4096 + y * 64 + z" "y < 64" "z < 64" "0x800 \<le> c" "x < 16"
  | x y z t where "c = x * 262144 + y * 4096 + z * 64 + t" "y < 64" "z < 64" "t < 64" "0x10000 \<le> c" "x < 5"
proof -
  define a b d where "a = c div 64" and "b = c div 64 div 64" and "d = c div 64 div 64 div 64"
  define y z t where "y = c mod 64" and "z = a mod 64" and "t = b mod 64"
  have "c = a * 64 + y" "a = b * 64 + z" "b = d * 64 + t"
    by (simp_all add: a_def b_def d_def y_def z_def t_def)
  moreover have "y < 64" "z < 64" "t < 64" by (simp_all add: y_def z_def t_def)
  moreover have "c < 0x110000" using assms by (auto simp: scalar_def)
  ultimately have c: "c = a * 64 + y" "c = b * 4096 + z * 64 + y" "c = d * 262144 + t * 4096 + z * 64 + y"
    "y < 64" "z < 64" "t < 64" "c < 0x110000" by linarith+
  consider "c < 0x80" | "0x80 \<le> c" "c < 0x800" | "0x800 \<le> c" "c < 0x10000" | "0x10000 \<le> c" by linarith
  then show thesis
  proof cases
    case 1
    then show thesis by (rule that(1))
  next
    case 2
    show thesis by (rule that(2) [OF c(1,4)]) (use 2 c in linarith)+
  next
    case 3
    show thesis by (rule that(3) [OF c(2,5,4)]) (use 3 c in linarith)+
  next
    case 4
    show thesis by (rule that(4) [OF c(3,6,5,4)]) (use 4 c in linarith)+
  qed
qed

lemma decode_encode_one:
  assumes "scalar c"
  shows "decode_one (encode_utf8 c @ r) = Some (c, r)"
  using assms
proof (cases rule: scalar_cases)
  case one
  then show ?thesis by (simp add: encode_1)
next
  case (two x y)
  then show ?thesis unfolding encode_2 [OF two] by (simp add: continuation_def)
next
  case (three x y z)
  then show ?thesis using assms unfolding encode_3 [OF three] by (simp add: continuation_def)
next
  case (four x y z t)
  then show ?thesis using assms unfolding encode_4 [OF four(1-5)] by (simp add: continuation_def)
qed

lemma encode_decode_one:
  assumes "decode_one bs = Some (c, r)"
  shows "scalar c \<and> bs = encode_utf8 c @ r"
proof -
  obtain a bs' where bs: "bs = a # bs'" using assms by (cases bs) auto
  note d = assms [unfolded bs decode_one.simps]
  consider "a < 0x80" | "0xC2 \<le> a" "a < 0xE0" | "0xE0 \<le> a" "a < 0xF0" | "0xF0 \<le> a"
    using d by (auto split: if_splits)
  then show ?thesis
  proof cases
    case 1
    then show ?thesis using d by (auto simp: bs encode_1 scalar_def)
  next
    case 2
    with d obtain b where b: "bs' = b # r" "continuation b" "c = (a - 0xC0) * 64 + (b - 0x80)"
      by (auto split: if_splits list.splits)
    have lo: "b - 0x80 < 64" using b(2) unfolding continuation_def by linarith
    have x: "2 \<le> a - 0xC0" "a - 0xC0 < 32" using 2 by linarith+
    have "scalar c" using b(3) lo x unfolding scalar_def by linarith
    moreover have "0xC0 + (a - 0xC0) = a" "0x80 + (b - 0x80) = b" using 2 b(2) unfolding continuation_def by linarith+
    ultimately show ?thesis using encode_2 [OF b(3) lo x] bs b(1) by simp
  next
    case 3
    with d obtain b e where b: "bs' = b # e # r" "continuation b" "continuation e"
        "c = (a - 0xE0) * 4096 + (b - 0x80) * 64 + (e - 0x80)" "0x800 \<le> c" "scalar c"
      by (auto simp: Let_def split: if_splits list.splits)
    have lo: "b - 0x80 < 64" "e - 0x80 < 64" "a - 0xE0 < 16" using 3 b(2,3) unfolding continuation_def by linarith+
    have "0xE0 + (a - 0xE0) = a" "0x80 + (b - 0x80) = b" "0x80 + (e - 0x80) = e"
      using 3 b(2,3) unfolding continuation_def by linarith+
    then show ?thesis using encode_3 [OF b(4) lo(1,2) b(5) lo(3)] bs b(1,6) by simp
  next
    case 4
    with d obtain b e f where b: "bs' = b # e # f # r" "continuation b" "continuation e" "continuation f"
        "c = (a - 0xF0) * 262144 + (b - 0x80) * 4096 + (e - 0x80) * 64 + (f - 0x80)" "0x10000 \<le> c" "scalar c"
      by (auto simp: Let_def split: if_splits list.splits)
    have lo: "b - 0x80 < 64" "e - 0x80 < 64" "f - 0x80 < 64" using b(2-4) unfolding continuation_def by linarith+
    have "0xF0 + (a - 0xF0) = a" "0x80 + (b - 0x80) = b" "0x80 + (e - 0x80) = e" "0x80 + (f - 0x80) = f"
      using 4 b(2-4) unfolding continuation_def by linarith+
    then show ?thesis using encode_4 [OF b(5) lo b(6)] bs b(1,7) by simp
  qed
qed

lemma encode_utf8_not_Nil [simp]: "encode_utf8 c \<noteq> []"
  by (simp add: encode_utf8_def)

lemma decode_utf8_Nil [simp]: "decode_utf8 [] = Some []"
  by (simp add: decode_utf8.simps)

lemma decode_utf8_encode [simp]: "scalar c \<Longrightarrow> decode_utf8 (encode_utf8 c @ r) = map_option (Cons c) (decode_utf8 r)"
  by (subst decode_utf8.simps) (simp add: decode_encode_one)

lemma decode_encode: "list_all scalar s \<Longrightarrow> decode_utf8 (concat (map encode_utf8 s)) = Some s"
  by (induction s) simp_all

lemma encode_decode: "decode_utf8 bs = Some s \<Longrightarrow> list_all scalar s \<and> bs = concat (map encode_utf8 s)"
proof (induction bs arbitrary: s rule: decode_utf8.induct)
  case (1 bs)
  show ?case
  proof (cases "decode_one bs")
    case None
    then show ?thesis using "1.prems" by (subst (asm) decode_utf8.simps) (auto split: if_splits)
  next
    case (Some p)
    then obtain c r where one: "decode_one bs = Some (c, r)" by (cases p) auto
    then have ne: "bs \<noteq> []" by auto
    from "1.prems" one ne obtain t where t: "decode_utf8 r = Some t" "s = c # t"
      by (subst (asm) decode_utf8.simps) auto
    from "1.IH" [OF ne one refl t(1)] t(2) encode_decode_one [OF one] show ?thesis by simp
  qed
qed

lemma from_utf8_iff: "from_utf8 bs = Some s \<longleftrightarrow> list_all scalar s \<and> as_bytes s = bs"
proof
  assume s: "list_all scalar s \<and> as_bytes s = bs"
  then have byte: "\<forall>b \<in> set (concat (map encode_utf8 s)). b < 256"
    by (auto simp: list_all_iff dest: encode_utf8_byte)
  then have "unat (word_of_nat b :: u8) = b" if "b \<in> set (concat (map encode_utf8 s))" for b
    using bspec [OF byte that] by (simp add: unat_of_nat del: set_concat)
  then have "map unat (map word_of_nat (concat (map encode_utf8 s)) :: bytes) = concat (map encode_utf8 s)"
    unfolding map_map by (intro map_idI) simp
  with s show "from_utf8 bs = Some s" by (auto simp: from_utf8_def as_bytes_def decode_encode)
next
  assume "from_utf8 bs = Some s"
  then have s: "list_all scalar s" "map unat bs = concat (map encode_utf8 s)"
    by (auto simp: from_utf8_def dest!: encode_decode)
  then have "as_bytes s = map word_of_nat (map unat bs)" by (simp add: as_bytes_def)
  then show "list_all scalar s \<and> as_bytes s = bs" using s(1) by (simp add: map_idI)
qed

end
