(* ===== verification/Rate_Limit.thy ===== *)
theory Rate_Limit
  imports Prelude
begin

text \<open>
  \<open>src/rate_limit.rs\<close>: the quotas handed to the governor crates for HTTP requests (per client
  address) and for binary-port requests (per connection). The rate limiters themselves are
  third-party code; the constructors that may refuse a quota are parameters.
\<close>

text \<open>A duration in milliseconds (\<open>Duration::from_secs\<close>, \<open>Duration::from_millis\<close>).\<close>

type_synonym millis = u64

definition from_secs :: "u64 \<Rightarrow> millis" where
  "from_secs s = s * 1000"

definition from_millis :: "u64 \<Rightarrow> millis" where
  "from_millis m = m"

definition per_minute_to_period :: "u32 \<Rightarrow> millis" where
  "per_minute_to_period per_minute =
     (if per_minute = 0 then from_secs 60
      else let ms = 60000 div (ucast per_minute :: u64) in from_millis (max ms 1))"

record Quota =
  quota_period :: millis
  quota_burst :: u32

text \<open>
  The parameters: \<open>GovernorConfigBuilder::finish\<close> for a period and a burst size, \<open>Quota::with_period\<close>, each
  \<open>None\<close> when it refuses, and \<open>RateLimiter::direct\<close>. The constructors of a limiter, \<open>direct\<close> and the one
  inside \<open>finish\<close>, may panic; then they give the message. A panic of the source carries the message of the
  \<open>expect\<close> that fails. A limiter is known by its quota.
\<close>

record governor =
  builder_finish :: "millis \<Rightarrow> u32 \<Rightarrow> (Quota option, string) result"
  with_period :: "millis \<Rightarrow> Quota option"
  limiter_direct :: "Quota \<Rightarrow> (Quota, string) result"

definition rate_limit_layer :: "governor \<Rightarrow> u32 \<Rightarrow> u32 \<Rightarrow> (Quota, string) result" where
  "rate_limit_layer G per_minute burst_size =
     (let period = per_minute_to_period per_minute
      in case builder_finish G period (max burst_size 1) of
           Err panic \<Rightarrow> Err panic
         | Ok None \<Rightarrow> Err ''rate limit config should be valid''
         | Ok (Some config) \<Rightarrow> Ok config)"

definition binary_connection_rate_limiter :: "governor \<Rightarrow> u32 \<Rightarrow> u32 \<Rightarrow> (Quota, string) result" where
  "binary_connection_rate_limiter G per_minute burst_size =
     (let period = per_minute_to_period per_minute;
          burst = max burst_size 1
      in if burst = 0 then Err ''non-zero burst''
         else case with_period G period of
                None \<Rightarrow> Err ''rate limit period must be non-zero''
              | Some quota \<Rightarrow> limiter_direct G (quota\<lparr>quota_burst := burst\<rparr>))"

text \<open>
  What the crates document: a quota is refused only for a zero period or a zero burst; the builder
  keeps both values, and \<open>with_period\<close> starts from a burst of one cell. The constructor of a limiter
  computes the time in which a whole burst is replenished, the period times the burst, in nanoseconds, and
  panics when that does not fit into 64 bits.
\<close>

definition replenish_nanos :: "Quota \<Rightarrow> nat" where
  "replenish_nanos q = unat (quota_period q) * 1000000 * unat (quota_burst q)"

definition limiter_fits :: "Quota \<Rightarrow> bool" where
  "limiter_fits q \<longleftrightarrow> replenish_nanos q < 2 ^ 64"

definition governor_documented :: "governor \<Rightarrow> bool" where
  "governor_documented G \<longleftrightarrow>
     (\<forall>p b. p \<noteq> 0 \<longrightarrow> b \<noteq> 0 \<longrightarrow>
        (if limiter_fits \<lparr>quota_period = p, quota_burst = b\<rparr>
         then builder_finish G p b = Ok (Some \<lparr>quota_period = p, quota_burst = b\<rparr>)
         else \<exists>panic. builder_finish G p b = Err panic))
     \<and> (\<forall>p. p \<noteq> 0 \<longrightarrow> with_period G p = Some \<lparr>quota_period = p, quota_burst = 1\<rparr>)
     \<and> (\<forall>q. if limiter_fits q then limiter_direct G q = Ok q else \<exists>panic. limiter_direct G q = Err panic)"

text \<open>A governor as it is documented.\<close>

definition new_limiter :: "Quota \<Rightarrow> (Quota, string) result" where
  "new_limiter q = (if limiter_fits q then Ok q else Err ''Duration is longer than 584 years'')"

definition sample_governor :: governor where
  "sample_governor =
     \<lparr>builder_finish = (\<lambda>p b. if p = 0 \<or> b = 0 then Ok None
        else and_then (new_limiter \<lparr>quota_period = p, quota_burst = b\<rparr>) (\<lambda>q. Ok (Some q))),
      with_period = (\<lambda>p. if p = 0 then None else Some \<lparr>quota_period = p, quota_burst = 1\<rparr>),
      limiter_direct = new_limiter\<rparr>"

text \<open>The quota the two configured numbers stand for.\<close>

definition configured_quota :: "u32 \<Rightarrow> u32 \<Rightarrow> Quota" where
  "configured_quota per_minute burst_size =
     \<lparr>quota_period = per_minute_to_period per_minute, quota_burst = max burst_size 1\<rparr>"

lemma sample_governor_documented: "governor_documented sample_governor"
  by (simp add: governor_documented_def sample_governor_def new_limiter_def)

section \<open>The period\<close>

lemma unat_ucast_u32_u64: "unat (ucast (x :: u32) :: u64) = unat x"
proof -
  have "unat x < 2 ^ 32" using unsigned_less [of x] by simp
  then show ?thesis by (simp add: unsigned_ucast_eq take_bit_eq_mod)
qed

lemma unat_max_u64: "unat (max a b) = max (unat a) (unat b)" for a b :: u64
  by (auto simp: max_def word_le_nat_alt)

lemma unat_period:
  "unat (per_minute_to_period n) = (if n = 0 then 60000 else max (60000 div unat n) 1)"
  by (simp add: per_minute_to_period_def from_secs_def from_millis_def Let_def unat_max_u64
      unat_div_distrib unat_ucast_u32_u64)

lemma period_not_0: "per_minute_to_period n \<noteq> 0"
proof
  assume "per_minute_to_period n = 0"
  then have "unat (per_minute_to_period n) = 0" by simp
  then show False by (simp add: unat_period split: if_splits)
qed

lemma max_1_not_0: "max (b :: u32) 1 \<noteq> 0"
  by (auto simp: max_def word_le_nat_alt)

section \<open>The quota\<close>

lemma unat_configured:
  "unat (quota_period (configured_quota n b)) = (if n = 0 then 60000 else max (60000 div unat n) 1)"
  "unat (quota_burst (configured_quota n b)) = max (unat b) 1"
  by (auto simp: configured_quota_def unat_period max_def word_le_nat_alt)

lemma configured_not_0: "quota_period (configured_quota n b) \<noteq> 0" "quota_burst (configured_quota n b) \<noteq> 0"
  using period_not_0 max_1_not_0 by (simp_all add: configured_quota_def)

text \<open>Below this burst every rate fits, and from this rate on every burst.\<close>

lemma limiter_fits_burst: "unat b \<le> 307445734 \<Longrightarrow> limiter_fits (configured_quota n b)"
proof -
  assume b: "unat b \<le> 307445734"
  have "60000 div unat n \<le> 60000" by (rule div_le_dividend)
  then have "unat (quota_period (configured_quota n b)) \<le> 60000" by (simp add: unat_configured)
  then have "unat (quota_period (configured_quota n b)) * 1000000 * unat (quota_burst (configured_quota n b))
      \<le> 60000 * 1000000 * 307445734"
    using b by (intro mult_le_mono) (simp_all add: unat_configured)
  then show ?thesis by (simp add: limiter_fits_def replenish_nanos_def)
qed

lemma limiter_fits_rate: "14 \<le> unat n \<Longrightarrow> limiter_fits (configured_quota n b)"
proof -
  assume n: "14 \<le> unat n"
  then have "60000 div unat n \<le> 60000 div 14" by (intro div_le_mono2) simp_all
  moreover have "n \<noteq> 0" using n by auto
  ultimately have "unat (quota_period (configured_quota n b)) \<le> 4285" by (simp add: unat_configured)
  moreover have "unat (quota_burst (configured_quota n b)) < 2 ^ 32"
    using unsigned_less [of "quota_burst (configured_quota n b)"] by simp
  then have "unat (quota_burst (configured_quota n b)) \<le> 4294967295" by simp
  ultimately have "unat (quota_period (configured_quota n b)) * 1000000 * unat (quota_burst (configured_quota n b))
      \<le> 4285 * 1000000 * 4294967295" by (intro mult_le_mono) simp_all
  then show ?thesis by (simp add: limiter_fits_def replenish_nanos_def)
qed

lemma rate_limit_layer_documented:
  assumes "governor_documented G"
  shows "if limiter_fits (configured_quota n b) then rate_limit_layer G n b = Ok (configured_quota n b)
    else \<exists>panic. rate_limit_layer G n b = Err panic"
proof -
  have "if limiter_fits (configured_quota n b)
      then builder_finish G (per_minute_to_period n) (max b 1) = Ok (Some (configured_quota n b))
      else \<exists>panic. builder_finish G (per_minute_to_period n) (max b 1) = Err panic"
    using assms period_not_0 [of n] max_1_not_0 [of b] unfolding governor_documented_def configured_quota_def by blast
  then show ?thesis by (auto simp: rate_limit_layer_def Let_def split: if_splits)
qed

lemma binary_limiter_documented:
  assumes "governor_documented G"
  shows "if limiter_fits (configured_quota n b) then binary_connection_rate_limiter G n b = Ok (configured_quota n b)
    else \<exists>panic. binary_connection_rate_limiter G n b = Err panic"
proof -
  have "with_period G (per_minute_to_period n) = Some \<lparr>quota_period = per_minute_to_period n, quota_burst = 1\<rparr>"
    using assms period_not_0 [of n] unfolding governor_documented_def by blast
  then have "binary_connection_rate_limiter G n b = limiter_direct G (configured_quota n b)"
    using max_1_not_0 [of b] by (simp add: binary_connection_rate_limiter_def Let_def configured_quota_def)
  moreover have "if limiter_fits (configured_quota n b) then limiter_direct G (configured_quota n b) = Ok (configured_quota n b)
      else \<exists>panic. limiter_direct G (configured_quota n b) = Err panic"
    using assms unfolding governor_documented_def by blast
  ultimately show ?thesis by simp
qed

section \<open>Properties\<close>

text \<open>C34: the replenishing period is between one millisecond and one minute, and up to 60000 requests
  per minute it grants at least the configured rate and exceeds the exact spacing by less than one
  millisecond per request: \<open>n\<close> periods fit into a minute, and \<open>n\<close> periods of one more millisecond do
  not.\<close>

theorem per_minute_to_period_bounds:
  "1 \<le> unat (per_minute_to_period n) \<and> unat (per_minute_to_period n) \<le> 60000
   \<and> (0 < unat n \<and> unat n \<le> 60000 \<longrightarrow>
        unat n * unat (per_minute_to_period n) \<le> 60000
        \<and> 60000 < unat n * (unat (per_minute_to_period n) + 1))
   \<and> (60000 < unat n \<longrightarrow> unat (per_minute_to_period n) = 1)"
proof -
  consider "n = 0" | "0 < unat n" "unat n \<le> 60000" | "60000 < unat n"
    using unat_gt_0 [of n] by (cases "n = 0"; force)
  then show ?thesis
  proof cases
    case 2
    then have "1 \<le> 60000 div unat n" by (simp add: div_greater_zero_iff Suc_le_eq)
    moreover have "60000 div unat n \<le> 60000" by (rule div_le_dividend)
    moreover have "unat n * (60000 div unat n) \<le> 60000" by (simp add: mult.commute)
    moreover have "60000 < unat n * (60000 div unat n + 1)"
      using 2(1) dividend_less_times_div [of "unat n" 60000] by (simp add: algebra_simps)
    ultimately show ?thesis using 2 by (auto simp: unat_period max_def)
  next
    case 3
    then have "n \<noteq> 0" by auto
    with 3 show ?thesis by (simp add: unat_period)
  qed (simp add: unat_period)
qed

theorem per_minute_to_period_bounds_witness:
  "unat (7 :: u32) * unat (per_minute_to_period 7) \<le> 60000
   \<and> 60000 < unat (7 :: u32) * (unat (per_minute_to_period 7) + 1)"
  using per_minute_to_period_bounds [of 7] by simp

text \<open>What the two limiters come to. For any configured rate and burst the quota has a positive period
  and a burst of at least one cell: a limit of zero still lets one request through per minute. Each
  constructor returns that quota exactly when the time to replenish the whole burst fits into 64 bits of
  nanoseconds, which it does for every rate when the burst is at most 307445734 and for every burst from
  fourteen requests per minute on; otherwise it panics, as both do for one request per minute with the largest
  burst.\<close>

theorem rate_limiters_total:
  assumes "governor_documented G"
  shows "(if limiter_fits (configured_quota n b)
          then rate_limit_layer G n b = Ok (configured_quota n b)
            \<and> binary_connection_rate_limiter G n b = Ok (configured_quota n b)
          else (\<exists>panic. rate_limit_layer G n b = Err panic)
            \<and> (\<exists>panic. binary_connection_rate_limiter G n b = Err panic))
    \<and> quota_period (configured_quota n b) \<noteq> 0 \<and> 1 \<le> quota_burst (configured_quota n b)
    \<and> (unat b \<le> 307445734 \<or> 14 \<le> unat n \<longrightarrow> limiter_fits (configured_quota n b))
    \<and> \<not> limiter_fits (configured_quota 1 (- 1))"
proof -
  have "1 \<le> quota_burst (configured_quota n b)" by (simp add: configured_quota_def)
  moreover have "\<not> limiter_fits (configured_quota 1 (- 1))"
    by (simp add: limiter_fits_def replenish_nanos_def unat_configured unsigned_minus_1_eq_mask mask_eq_exp_minus_1)
  ultimately show ?thesis
    using rate_limit_layer_documented [OF assms, of n b] binary_limiter_documented [OF assms, of n b]
      configured_not_0 [of n b] limiter_fits_burst [of b n] limiter_fits_rate [of n b] by auto
qed

theorem rate_limiters_total_witness:
  "governor_documented sample_governor
   \<and> binary_connection_rate_limiter sample_governor 0 0 = Ok \<lparr>quota_period = 60000, quota_burst = 1\<rparr>
   \<and> (\<exists>panic. binary_connection_rate_limiter sample_governor 1 (- 1) = Err panic)"
proof -
  note t = rate_limiters_total [OF sample_governor_documented]
  have "configured_quota 0 0 = \<lparr>quota_period = 60000, quota_burst = 1\<rparr>"
    by (simp add: configured_quota_def per_minute_to_period_def from_secs_def)
  moreover have "limiter_fits (configured_quota 0 0)" using t [of 0 0] by simp
  ultimately have "binary_connection_rate_limiter sample_governor 0 0 = Ok \<lparr>quota_period = 60000, quota_burst = 1\<rparr>"
    using t [of 0 0] by simp
  then show ?thesis using sample_governor_documented t [of 1 "- 1"] by simp
qed

end
