(* ===== verification/Binary_Socket.thy ===== *)
theory Binary_Socket
  imports "HOL-Library.Sublist" Websocket Binary_Send
begin

text \<open>
  \<open>handle_binary_socket\<close> of \<open>src/handlers.rs\<close>: the loop that takes requests from a websocket client, asks
  the rate limiter of the connection, sends them through the pool and replies. The rate limiter is a
  parameter with a state \<open>'l\<close>. The messages are a list; the loop stands still when the list is used up,
  and also when \<open>send\<close> waits for a permit.
\<close>

section \<open>The loop\<close>

datatype ws_in = BinaryMessage bytes | CloseMessage | OtherMessage | ReceiveError | EndOfStream

text \<open>\<open>check\<close> of the limiter: \<open>Err\<close> tells after how many seconds to come back.\<close>

type_synonym ('l, 'w) limiter = "'l \<Rightarrow> 'w \<Rightarrow> (unit, nat) result \<times> 'l"

definition rate_limited_frame :: "nat \<Rightarrow> ws_out" where
  "rate_limited_frame secs =
     TextFrame (JObject [(''error'', JString ''rate limit exceeded''), (''retry_after_secs'', JInt (int secs))])"

definition send_error_frame :: "BinaryError \<Rightarrow> ws_out" where
  "send_error_frame err = TextFrame (JObject [(''error'', JString (binary_error_display err))])"

record ('s, 'l) socket_state =
  sock_pool :: "'s BinaryPool"
  sock_limiter :: 'l
  sock_log :: mlog
  sock_out :: "ws_out list"

text \<open>A frame whose result is ignored, and one whose failure ends the loop.\<close>

definition reply :: "'w ws_sink \<Rightarrow> ws_out \<Rightarrow> ('s, 'l) socket_state \<times> 'w \<Rightarrow> bool \<times> ('s, 'l) socket_state \<times> 'w" where
  "reply S f sw =
     (case ws_send S f (snd sw) of
        (ok, w) \<Rightarrow> (ok, if ok then (fst sw)\<lparr>sock_out := sock_out (fst sw) @ [f]\<rparr> else fst sw, w))"

datatype outcome = Continue | Break | Blocked

text \<open>One binary message (lines 225 to 260).\<close>

definition handle_binary_message ::
  "('resp, 'rr, 'st, 'val) casper \<Rightarrow> ('w, 's) tcp \<Rightarrow> 'w ws_sink \<Rightarrow> ('l, 'w) limiter \<Rightarrow> string \<Rightarrow> bytes
     \<Rightarrow> ('s, 'l) socket_state \<times> 'w \<Rightarrow> outcome \<times> ('s, 'l) socket_state \<times> 'w" where
  "handle_binary_message C T S check network_name request sw =
     (let st = (fst sw)\<lparr>sock_log := increment_binary_requests network_name (sock_log (fst sw))\<rparr>; w = snd sw
      in case check (sock_limiter st) w of
           (Err secs, l) \<Rightarrow>
             (case reply S (rate_limited_frame secs) (st\<lparr>sock_limiter := l\<rparr>, w) of
                (_, st, w) \<Rightarrow>
                  (Continue, st\<lparr>sock_log := increment_binary_response network_name ''rate_limited'' (sock_log st)\<rparr>, w))
         | (Ok _, l) \<Rightarrow>
             (case send C T (sock_pool st) request (sock_log st) w of
                (r, P, log, w) \<Rightarrow>
                  (let st = st\<lparr>sock_pool := P, sock_limiter := l, sock_log := log\<rparr>
                   in case r of
                        None \<Rightarrow> (Blocked, st, w)
                      | Some (Ok answer) \<Rightarrow>
                          (case reply S (BinaryFrame answer) (st, w) of
                             (ok, st, w) \<Rightarrow> (if ok then Continue else Break, st, w))
                      | Some (Err err) \<Rightarrow>
                          (case reply S (send_error_frame err) (st, w) of (_, st, w) \<Rightarrow> (Continue, st, w)))))"

text \<open>The loop; the flag tells whether it has ended.\<close>

fun binary_loop ::
  "('resp, 'rr, 'st, 'val) casper \<Rightarrow> ('w, 's) tcp \<Rightarrow> 'w ws_sink \<Rightarrow> ('l, 'w) limiter \<Rightarrow> string \<Rightarrow> ws_in list
     \<Rightarrow> ('s, 'l) socket_state \<times> 'w \<Rightarrow> bool \<times> ('s, 'l) socket_state \<times> 'w" where
  "binary_loop C T S check network_name [] sw = (False, sw)"
| "binary_loop C T S check network_name (BinaryMessage request # ms) sw =
     (case handle_binary_message C T S check network_name request sw of
        (Continue, sw) \<Rightarrow> binary_loop C T S check network_name ms sw
      | (Break, sw) \<Rightarrow> (True, sw)
      | (Blocked, sw) \<Rightarrow> (False, sw))"
| "binary_loop C T S check network_name (OtherMessage # ms) sw = binary_loop C T S check network_name ms sw"
| "binary_loop C T S check network_name (CloseMessage # ms) sw = (True, sw)"
| "binary_loop C T S check network_name (ReceiveError # ms) sw = (True, sw)"
| "binary_loop C T S check network_name (EndOfStream # ms) sw = (True, sw)"

definition handle_binary_socket ::
  "('resp, 'rr, 'st, 'val) casper \<Rightarrow> ('w, 's) tcp \<Rightarrow> 'w ws_sink \<Rightarrow> ('l, 'w) limiter \<Rightarrow> string \<Rightarrow> ws_in list
     \<Rightarrow> 's BinaryPool \<Rightarrow> 'l \<Rightarrow> mlog \<Rightarrow> 'w \<Rightarrow> bool \<times> ('s, 'l) socket_state \<times> 'w" where
  "handle_binary_socket C T S check network_name ms P l log w =
     (case binary_connection_guard network_name log of (guard, log) \<Rightarrow>
        (case binary_loop C T S check network_name ms
                (\<lparr>sock_pool = P, sock_limiter = l, sock_log = log, sock_out = []\<rparr>, w) of
           (ended, st, w) \<Rightarrow>
             (ended, if ended then st\<lparr>sock_log := drop_guard guard (sock_log st)\<rparr> else st, w)))"

section \<open>One message\<close>

text \<open>The frame that carries a result of \<open>send\<close>, and the frames that answer a request.\<close>

fun result_frame :: "(bytes, BinaryError) result \<Rightarrow> ws_out" where
  "result_frame (Ok answer) = BinaryFrame answer"
| "result_frame (Err err) = send_error_frame err"

definition answers :: "('resp, 'rr, 'st, 'val) casper \<Rightarrow> bytes \<Rightarrow> ws_out \<Rightarrow> bool" where
  "answers C q f \<longleftrightarrow>
     (\<exists>secs. f = rate_limited_frame secs)
   \<or> (\<exists>r. f = result_frame r
        \<and> (admitted C q \<or> r = local_reply C q)
        \<and> (\<forall>out. r = Ok out \<longrightarrow>
             (\<exists>env. serialize_response_envelope C env = Ok out \<and> hides_peers C (envelope_response env))))"

lemma reply_frame:
  "reply S f (st, w) = (ok, st', w') \<Longrightarrow>
     sock_pool st' = sock_pool st \<and> sock_limiter st' = sock_limiter st \<and> sock_log st' = sock_log st
     \<and> sock_out st' = sock_out st @ (if ok then [f] else [])"
  by (auto simp: reply_def split: prod.splits)

lemma reply_ok: "sink_ok S \<Longrightarrow> reply S f (st, w) = (ok, st', w') \<Longrightarrow> ok"
  using sink_okD [of S f w] by (auto simp: reply_def)

text \<open>What a message does to the log: one request, at most one outcome, no connection gauge.\<close>

definition quiet :: "string \<Rightarrow> mlog \<Rightarrow> bool" where
  "quiet name ops \<longleftrightarrow>
     counter binary_requests_total [name] ops = 0
   \<and> (\<forall>ls. level binary_connections ls ops = 0) \<and> log_ok ops"

lemma send_quiet:
  assumes "send C T P q log w = (r, P', log', w')"
  shows "\<exists>ops. log' = log @ ops \<and> quiet name ops"
  using assms
  by (cases rule: send_cases) (auto simp: quiet_def counter_def level_def log_ok_def split: if_splits)

lemma message_log:
  assumes "handle_binary_message C T S check name q (st, w) = (oc, st', w')"
  shows "\<exists>ops. sock_log st' = sock_log st @ Inc binary_requests_total [name] # ops \<and> quiet name ops"
proof -
  have one: "quiet name [Inc binary_responses_total [name, ''rate_limited'']]"
    by (simp add: quiet_def counter_def level_def log_ok_def)
  show ?thesis
    using assms send_quiet [of C T "sock_pool st" q "sock_log st @ [Inc binary_requests_total [name]]" w _ _ _ _ name] one
    by (auto simp: handle_binary_message_def Let_def increment_binary_requests_def increment_binary_response_def
        emit_def dest!: reply_frame split: prod.splits result.splits option.splits)
qed

lemma reply_answers:
  assumes "casper_laws C" and "send C T P q log w = (Some r, P', log', w')"
  shows "answers C q (result_frame r)"
proof -
  have local: "admitted C q \<or> r = local_reply C q" using send_local_reply [OF assms(2)] .
  have hides: "\<forall>out. r = Ok out \<longrightarrow>
      (\<exists>env. serialize_response_envelope C env = Ok out \<and> hides_peers C (envelope_response env))"
    using send_reply_hides_peers [OF assms(1), of T P q log w _ P' log' w'] assms(2) by auto
  show ?thesis unfolding answers_def by (rule disjI2, rule exI [of _ r], intro conjI refl local hides)
qed

lemma message_answered:
  assumes "casper_laws C" and "handle_binary_message C T S check name q (st, w) = (oc, st', w')"
  shows "capacity (sock_pool st') = capacity (sock_pool st)
    \<and> (oc = Blocked \<longrightarrow> capacity (sock_pool st) = 0 \<and> sock_out st' = sock_out st)
    \<and> (sock_out st' = sock_out st \<or> (\<exists>f. sock_out st' = sock_out st @ [f] \<and> answers C q f))
    \<and> (sink_ok S \<and> oc \<noteq> Blocked \<longrightarrow> oc = Continue \<and> sock_out st' \<noteq> sock_out st)"
proof (cases "check (sock_limiter st) w")
  case (Pair res l)
  let ?log = "increment_binary_requests name (sock_log st)"
  show ?thesis
  proof (cases res)
    case (Err secs)
    let ?st = "st\<lparr>sock_log := ?log, sock_limiter := l\<rparr>"
    obtain ok st2 w2 where p: "reply S (rate_limited_frame secs) (?st, w) = (ok, st2, w2)" by (metis prod_cases3)
    then have "oc = Continue \<and> sock_pool st' = sock_pool st2 \<and> sock_out st' = sock_out st2"
      using assms(2) Pair Err by (auto simp: handle_binary_message_def Let_def)
    moreover have "answers C q (rate_limited_frame secs)" unfolding answers_def by blast
    ultimately show ?thesis using reply_frame [OF p] reply_ok [OF _ p] by auto
  next
    case (Ok u)
    obtain r P' log' w1 where s: "send C T (sock_pool st) q ?log w = (r, P', log', w1)" by (metis prod_cases4)
    note cap = send_capacity [OF s]
    show ?thesis
    proof (cases r)
      case None
      then show ?thesis using assms(2) Pair Ok s cap by (auto simp: handle_binary_message_def Let_def)
    next
      case (Some rr)
      let ?st = "st\<lparr>sock_pool := P', sock_limiter := l, sock_log := log'\<rparr>"
      obtain ok st2 w2 where p: "reply S (result_frame rr) (?st, w1) = (ok, st2, w2)" by (metis prod_cases3)
      have "oc \<noteq> Blocked \<and> st' = st2 \<and> (ok \<longrightarrow> oc = Continue)"
        using assms(2) Pair Ok s Some p
        by (cases rr) (auto simp: handle_binary_message_def Let_def split: prod.splits if_splits)
      then show ?thesis
        using reply_frame [OF p] reply_ok [OF _ p] cap reply_answers [OF assms(1) s [unfolded Some]] by auto
    qed
  qed
qed

section \<open>The whole loop\<close>

text \<open>The requests the client sends before it leaves.\<close>

fun readable :: "ws_in list \<Rightarrow> bytes list" where
  "readable (BinaryMessage q # ms) = q # readable ms"
| "readable (OtherMessage # ms) = readable ms"
| "readable _ = []"

lemma loop_answers:
  assumes "casper_laws C" and "binary_loop C T S check name ms (st, w) = (ended, st', w')"
  shows "capacity (sock_pool st') = capacity (sock_pool st)
    \<and> (\<exists>qs frames. sock_out st' = sock_out st @ frames \<and> subseq qs (readable ms) \<and> list_all2 (answers C) qs frames
         \<and> (sink_ok S \<longrightarrow> (\<exists>n. qs = take n (readable ms)
               \<and> (n < length (readable ms) \<longrightarrow> \<not> ended \<and> capacity (sock_pool st) = 0))))"
  using assms(2)
proof (induction ms arbitrary: st w)
  case (Cons m ms)
  show ?case
  proof (cases m)
    case (BinaryMessage q)
    obtain oc st1 w1 where one: "handle_binary_message C T S check name q (st, w) = (oc, st1, w1)"
      by (metis prod_cases3)
    note a = message_answered [OF assms(1) one]
    from a obtain ps fs where fs: "sock_out st1 = sock_out st @ fs" "list_all2 (answers C) ps fs" "subseq ps [q]"
      and full: "sink_ok S \<and> oc \<noteq> Blocked \<longrightarrow> ps = [q]" and none: "oc = Blocked \<longrightarrow> ps = []"
    proof (cases "sock_out st1 = sock_out st")
      case True
      then show thesis using a by (intro that [of "[]" "[]"]) auto
    next
      case False
      then obtain f where "sock_out st1 = sock_out st @ [f]" "answers C q f" using a by blast
      then show thesis using a by (intro that [of "[f]" "[q]"]) auto
    qed
    show ?thesis
    proof (cases oc)
      case Continue
      then have "binary_loop C T S check name ms (st1, w1) = (ended, st', w')"
        using Cons.prems by (simp add: BinaryMessage one)
      from Cons.IH [OF this] obtain qs frames where
        r: "capacity (sock_pool st') = capacity (sock_pool st1)" "sock_out st' = sock_out st1 @ frames"
          "subseq qs (readable ms)" "list_all2 (answers C) qs frames"
        and t: "sink_ok S \<longrightarrow> (\<exists>n. qs = take n (readable ms)
          \<and> (n < length (readable ms) \<longrightarrow> \<not> ended \<and> capacity (sock_pool st1) = 0))" by blast
      have "subseq (ps @ qs) ([q] @ readable ms)" by (rule list_emb_append_mono [OF fs(3) r(3)])
      moreover have "list_all2 (answers C) (ps @ qs) (fs @ frames)" using fs(2) r(4) by (rule list_all2_appendI)
      moreover have "\<exists>n. ps @ qs = take n (q # readable ms)
          \<and> (n < Suc (length (readable ms)) \<longrightarrow> \<not> ended \<and> capacity (sock_pool st) = 0)" if ok: "sink_ok S"
      proof -
        from t ok obtain n where "qs = take n (readable ms)"
          "n < length (readable ms) \<longrightarrow> \<not> ended \<and> capacity (sock_pool st1) = 0" by blast
        then show ?thesis using full ok Continue a by (intro exI [of _ "Suc n"]) simp
      qed
      ultimately show ?thesis
        using r(1,2) fs(1) a by (intro conjI exI [of _ "ps @ qs"] exI [of _ "fs @ frames"]) (simp_all add: BinaryMessage)
    next
      case Break
      then have st: "st' = st1" "ended" using Cons.prems by (simp_all add: BinaryMessage one)
      have "\<not> sink_ok S" using a Break by blast
      moreover have "subseq ps (q # readable ms)"
        using list_emb_append_mono [OF fs(3), of "[]" "readable ms"] by simp
      ultimately show ?thesis using fs a st by (intro conjI exI [of _ ps] exI [of _ fs]) (simp_all add: BinaryMessage)
    next
      case Blocked
      then have "st' = st1" "\<not> ended" using Cons.prems by (simp_all add: BinaryMessage one)
      then show ?thesis
        using a Blocked by (intro conjI exI [of _ "[]"] exI [of _ "[]"] impI exI [of _ 0]) (simp_all add: BinaryMessage)
    qed
  qed (use Cons in auto)
qed simp

lemma loop_log:
  assumes "binary_loop C T S check name ms (st, w) = (ended, st', w')"
  shows "\<exists>ops. sock_log st' = sock_log st @ ops \<and> (\<forall>ls. level binary_connections ls ops = 0) \<and> log_ok ops
    \<and> counter binary_requests_total [name] ops \<le> length (readable ms)"
  using assms
proof (induction ms arbitrary: st w)
  case (Cons m ms)
  show ?case
  proof (cases m)
    case (BinaryMessage q)
    obtain oc st1 w1 where one: "handle_binary_message C T S check name q (st, w) = (oc, st1, w1)"
      by (metis prod_cases3)
    from message_log [OF one] obtain ops where ops: "sock_log st1 = sock_log st @ Inc binary_requests_total [name] # ops"
      "quiet name ops" by blast
    show ?thesis
    proof (cases oc)
      case Continue
      then have "binary_loop C T S check name ms (st1, w1) = (ended, st', w')"
        using Cons.prems by (simp add: BinaryMessage one)
      from Cons.IH [OF this] ops show ?thesis
        by (auto simp: BinaryMessage quiet_def counter_def level_def log_ok_def)
    qed (use Cons.prems ops in \<open>auto simp: BinaryMessage one quiet_def counter_def level_def log_ok_def\<close>)
  qed (use Cons in auto)
qed simp

section \<open>Properties\<close>

text \<open>C8: the replies of a websocket client answer its requests, in order and none twice. Whatever the client
  takes and whatever the pool has, the frames sent answer different binary messages of those before the
  client leaves, in their order: each tells that the rate limit is exceeded, or carries the reply of the
  pool, which is the error prescribed for the request when that is not forwarded, and never tells about
  peers. For a client that takes its frames no request is passed over: the answered ones are the first
  ones, and when some are left the handler has not ended but waits for a permit of a pool that has none; so
  with a permit every request is answered. (The pool is that of the model of \<open>send\<close>: no other socket uses it
  meanwhile. What a shared pool can do to a waiting call is shown in \<open>Pool_Machine\<close>.) The pool has the
  capacity it had.\<close>

theorem binary_socket_answers:
  assumes "casper_laws C" and "handle_binary_socket C T S check name ms P l log w = (ended, st, w')"
  shows "(\<exists>qs. subseq qs (readable ms) \<and> list_all2 (answers C) qs (sock_out st))
    \<and> (sink_ok S \<longrightarrow>
         (\<exists>n. list_all2 (answers C) (take n (readable ms)) (sock_out st)
            \<and> (n < length (readable ms) \<longrightarrow> \<not> ended \<and> capacity P = 0)))
    \<and> (sink_ok S \<and> 0 < capacity P \<longrightarrow> list_all2 (answers C) (readable ms) (sock_out st))
    \<and> capacity (sock_pool st) = capacity P"
proof -
  let ?st0 = "\<lparr>sock_pool = P, sock_limiter = l, sock_log = snd (binary_connection_guard name log), sock_out = []\<rparr>"
  obtain ended1 st1 w1 where run: "binary_loop C T S check name ms (?st0, w) = (ended1, st1, w1)"
    by (metis prod_cases3)
  have "sock_out st = sock_out st1 \<and> sock_pool st = sock_pool st1 \<and> ended = ended1"
    using assms(2) run by (auto simp: handle_binary_socket_def case_prod_unfold)
  with loop_answers [OF assms(1) run] obtain qs where
    q: "capacity (sock_pool st) = capacity P" "subseq qs (readable ms)" "list_all2 (answers C) qs (sock_out st)"
    and t: "sink_ok S \<longrightarrow> (\<exists>n. qs = take n (readable ms)
      \<and> (n < length (readable ms) \<longrightarrow> \<not> ended \<and> capacity P = 0))" by auto
  have "list_all2 (answers C) (readable ms) (sock_out st)" if "sink_ok S" "0 < capacity P"
    using t q(3) that by (auto simp: not_less)
  with q t show ?thesis by blast
qed

definition sample_sink :: "(bytes \<times> bytes \<times> nat) ws_sink" where
  "sample_sink = \<lparr>ws_send = (\<lambda>f w. (True, w))\<rparr>"

theorem binary_socket_answers_witness:
  "\<exists>ended st w' f. handle_binary_socket sample_casper sample_tcp sample_sink (\<lambda>l w. (Ok (), l)) ''main''
      [BinaryMessage [1, 0, 7, 4], CloseMessage] sample_pool () [] ([], [], 0) = (ended, st, w')
     \<and> sock_out st = [f] \<and> answers sample_casper [1, 0, 7, 4] f"
proof -
  obtain ended st w' where s: "handle_binary_socket sample_casper sample_tcp sample_sink (\<lambda>l w. (Ok (), l)) ''main''
      [BinaryMessage [1, 0, 7, 4], CloseMessage] sample_pool () [] ([], [], 0) = (ended, st, w')"
    by (metis prod_cases3)
  have "0 < capacity sample_pool" by (simp add: capacity_def sample_pool_def)
  with binary_socket_answers [OF sample_casper_laws s]
  have "list_all2 (answers sample_casper) [[1, 0, 7, 4]] (sock_out st)"
    by (simp add: sink_ok_def sample_sink_def)
  then obtain f where "sock_out st = [f]" "answers sample_casper [1, 0, 7, 4] f"
    by (auto simp: list_all2_Cons1)
  with s show ?thesis by blast
qed

text \<open>The gauge of binary connections counts open sockets, whatever the client and the node do: a
  handler that has returned leaves every gauge of connections as it found it, one that still runs holds
  one unit of its network, no more requests are counted than messages were sent, and all metric calls
  are well formed.\<close>

theorem binary_socket_gauge:
  "case handle_binary_socket C T S check name ms P l log w of (ended, st, w') \<Rightarrow>
     level binary_connections ls (sock_log st) =
       level binary_connections ls log + (if ended then 0 else if ls = [name] then 1 else 0)
   \<and> counter binary_requests_total [name] (sock_log st) \<le>
       counter binary_requests_total [name] log + length (readable ms)
   \<and> (log_ok (sock_log st) \<longleftrightarrow> log_ok log)"
proof -
  let ?g = "binary_connection_guard name log"
  let ?st0 = "\<lparr>sock_pool = P, sock_limiter = l, sock_log = snd ?g, sock_out = []\<rparr>"
  obtain ended st w' where run: "binary_loop C T S check name ms (?st0, w) = (ended, st, w')"
    by (metis prod_cases3)
  from loop_log [OF run] obtain ops where ops: "sock_log st = snd ?g @ ops"
      "\<forall>ls. level binary_connections ls ops = 0" "log_ok ops"
      "counter binary_requests_total [name] ops \<le> length (readable ms)"
    by auto
  have res: "handle_binary_socket C T S check name ms P l log w =
      (ended, if ended then st\<lparr>sock_log := drop_guard (fst ?g) (snd ?g @ ops)\<rparr> else st, w')"
    using run ops(1) unfolding handle_binary_socket_def by (cases ?g) simp
  have held: "level binary_connections ls (snd ?g @ ops) = level binary_connections ls log + (if ls = [name] then 1 else 0)"
    using binary_gauge.level_held [of ls name log ops] ops(2) by simp
  have dropped: "level binary_connections ls (drop_guard (fst ?g) (snd ?g @ ops)) = level binary_connections ls log"
    using binary_gauge.scope_neutral [of binary_connections ls name log ops] ops(2) by simp
  have requests: "counter binary_requests_total [name] (drop_guard (fst ?g) (snd ?g @ ops)) =
      counter binary_requests_total [name] log + counter binary_requests_total [name] ops"
      "counter binary_requests_total [name] (snd ?g) = counter binary_requests_total [name] log"
    using binary_gauge.scope_counters [of binary_requests_total "[name]" name log ops]
    by (simp_all add: binary_gauge.acquire_log counter_def)
  show ?thesis
    unfolding res using held dropped requests ops(3,4) by (cases ended) (simp_all add: ops(1))
qed

end
