(* ===== verification/App_State.thy ===== *)
theory App_State
  imports Database Event_Bus Binary_Pool
begin

text \<open>
  The shared state of the handlers (\<open>NetworkState\<close> and \<open>AppState\<close> of \<open>src/state.rs\<close>) and the lookup of
  a network (\<open>get_network\<close> of \<open>src/handlers.rs\<close>). The RPC client is a parameter of the handler that
  uses it, and the metrics are the log that every handler threads.
\<close>

record 's NetworkState =
  net_config :: NetworkConfig
  net_events :: EventBus
  net_binary_pool :: "'s BinaryPool"

record 's AppState =
  app_networks :: "string \<Rightarrow> 's NetworkState option"
  app_binary_rate_limit_per_min :: u32
  app_binary_rate_limit_burst :: u32

definition get_network :: "'s AppState \<Rightarrow> string \<Rightarrow> ('s NetworkState, AppError) result" where
  "get_network state name = ok_or (not_found (''unknown network: '' @ name)) (app_networks state name)"

lemma get_network_simps [simp]:
  "get_network state name = Ok net \<longleftrightarrow> app_networks state name = Some net"
  "get_network state name = Err e \<longleftrightarrow> app_networks state name = None \<and> e = not_found (''unknown network: '' @ name)"
  by (auto simp: get_network_def)

end
