(* ===== verification/Json_Values.thy ===== *)
theory Json_Values
  imports Http_Types
begin

text \<open>
  What reading and writing JSON text keeps of a value (\<open>serde_json\<close> with its default features). A parsed
  value is within the recursion limit, its integers are those of 64 bits and no object has a member twice.
  Writing such a value and reading it again gives the same value up to the order of the members and the
  last digits of numbers with a fraction, which are not kept; when there are none, reading succeeds.
\<close>

section \<open>Values that a parser returns\<close>

lemma member_smaller [termination_simp]:
  "f \<in> set fs \<Longrightarrow> size (snd f) < Suc (size_list (size_prod (\<lambda>x. 0) size) fs)"
  by (induction fs) auto

definition most :: "nat list \<Rightarrow> nat" where
  "most ns = foldr max ns 0"

fun json_depth :: "json \<Rightarrow> nat" where
  "json_depth (JArray vs) = Suc (most (map json_depth vs))"
| "json_depth (JObject fs) = Suc (most (map (\<lambda>f. json_depth (snd f)) fs))"
| "json_depth _ = 0"

fun json_wf :: "json \<Rightarrow> bool" where
  "json_wf (JNumber (IntNum n)) \<longleftrightarrow> - (2 ^ 63) \<le> n \<and> n < 2 ^ 64"
| "json_wf (JArray vs) \<longleftrightarrow> list_all json_wf vs"
| "json_wf (JObject fs) \<longleftrightarrow> distinct (map fst fs) \<and> list_all (\<lambda>f. json_wf (snd f)) fs"
| "json_wf _ \<longleftrightarrow> True"

definition RECURSION_LIMIT :: nat where
  "RECURSION_LIMIT = 127"

definition parsed_value :: "json \<Rightarrow> bool" where
  "parsed_value v \<longleftrightarrow> json_depth v \<le> RECURSION_LIMIT \<and> json_wf v"

fun float_free :: "json \<Rightarrow> bool" where
  "float_free (JNumber (FloatNum _)) \<longleftrightarrow> False"
| "float_free (JArray vs) \<longleftrightarrow> list_all float_free vs"
| "float_free (JObject fs) \<longleftrightarrow> list_all (\<lambda>f. float_free (snd f)) fs"
| "float_free _ \<longleftrightarrow> True"

section \<open>Agreement\<close>

lemma list_all2_member_cong [fundef_cong]:
  "vs = vs' \<Longrightarrow> ws = ws' \<Longrightarrow> (\<And>v w. v \<in> set vs' \<Longrightarrow> w \<in> set ws' \<Longrightarrow> f v w = g v w)
    \<Longrightarrow> list_all2 f vs ws = list_all2 g vs' ws'"
  by (metis (no_types, opaque_lifting) list.rel_mono_strong)

fun json_agrees :: "json \<Rightarrow> json \<Rightarrow> bool" where
  "json_agrees (JNumber (FloatNum _)) (JNumber (FloatNum _)) \<longleftrightarrow> True"
| "json_agrees (JArray vs) w \<longleftrightarrow>
     (case w of
        JArray ws \<Rightarrow> list_all2 json_agrees vs ws
      | _ \<Rightarrow> False)"
| "json_agrees (JObject fs) w \<longleftrightarrow>
     (case w of
        JObject gs \<Rightarrow> fst ` set fs = fst ` set gs
          \<and> list_all (\<lambda>f. list_all (\<lambda>g. fst f = fst g \<longrightarrow> json_agrees (snd f) (snd g)) gs) fs
      | _ \<Rightarrow> False)"
| "json_agrees v w \<longleftrightarrow> v = w"

lemma agrees_member:
  assumes "json_agrees (JObject fs) (JObject gs)" and "obj_get k fs = Some v"
  shows "\<exists>w. obj_get k gs = Some w \<and> json_agrees v w"
proof -
  from assms(2) have f: "(k, v) \<in> set fs" unfolding obj_get_def by (rule map_of_SomeD)
  moreover have "fst ` set fs = fst ` set gs" using assms(1) by simp
  ultimately have "k \<in> fst ` set gs" by force
  then obtain w where w: "map_of gs k = Some w" by (cases "map_of gs k") (auto simp: map_of_eq_None_iff)
  then have "(k, w) \<in> set gs" by (rule map_of_SomeD)
  with f assms(1) have "json_agrees (snd (k, v)) (snd (k, w))"
    unfolding json_agrees.simps json.case list_all_iff by (metis fst_conv)
  then have "json_agrees v w" by simp
  with w show ?thesis by (simp add: obj_get_def)
qed

lemma agrees_no_member: "json_agrees (JObject fs) (JObject gs) \<Longrightarrow> obj_get k gs = None \<longleftrightarrow> obj_get k fs = None"
  by (simp add: obj_get_def map_of_eq_None_iff)

lemma agrees_empty_array [simp]: "json_agrees (JArray []) w \<longleftrightarrow> w = JArray []"
  by (cases w) auto

lemma agrees_object: "json_agrees (JObject fs) w \<Longrightarrow> \<exists>gs. w = JObject gs"
  by (cases w) auto

section \<open>Updating a member\<close>

lemma most_le_iff: "most ns \<le> k \<longleftrightarrow> (\<forall>n \<in> set ns. n \<le> k)"
  by (induction ns) (auto simp: most_def)

lemma depth_object_le: "json_depth (JObject fs) \<le> Suc k \<longleftrightarrow> (\<forall>f \<in> set fs. json_depth (snd f) \<le> k)"
  by (simp add: most_le_iff)

lemma depth_member: "obj_get k fs = Some v \<Longrightarrow> Suc (json_depth v) \<le> json_depth (JObject fs)"
  using depth_object_le [of fs "most (map (\<lambda>f. json_depth (snd f)) fs)"]
  by (force simp: obj_get_def dest: map_of_SomeD)

lemma set_obj_insert: "set (obj_insert k v fs) \<subseteq> insert (k, v) (set fs)"
  unfolding obj_insert_def by (induction fs) auto

lemma depth_insert:
  assumes "json_depth (JObject fs) \<le> Suc n" and "json_depth v \<le> n"
  shows "json_depth (JObject (obj_insert k v fs)) \<le> Suc n"
  using assms set_obj_insert [of k v fs] unfolding depth_object_le by fastforce

lemma wf_member: "obj_get k fs = Some v \<Longrightarrow> json_wf (JObject fs) \<Longrightarrow> json_wf v"
  by (force simp: obj_get_def list_all_iff dest: map_of_SomeD)

lemma wf_insert: "json_wf (JObject fs) \<Longrightarrow> json_wf v \<Longrightarrow> json_wf (JObject (obj_insert k v fs))"
  using set_obj_insert [of k v fs] by (force simp: obj_insert_def list_all_iff distinct_update)

end
