(* ===== verification/Jsonrpc_Proxy.thy ===== *)
theory Jsonrpc_Proxy
  imports App_State Json_Values
begin

text \<open>
  \<open>src/jsonrpc_proxy.rs\<close>: the method allowlist, the proxy handler with all its early returns, the JSON-RPC
  error responses and the sanitising of node statuses. The JSON text format (\<open>serde_json\<close>), the HTTP
  client (\<open>reqwest\<close>) and the response builder are parameters (\<open>rpc_env\<close>) over a world \<open>'w\<close>.
\<close>

section \<open>The upstream\<close>

record upstream =
  upstream_status :: u16
  upstream_headers :: "(string \<times> string) list"

text \<open>
  \<open>http_post url headers body\<close> sends the request; \<open>read_body\<close> reads the body of the response;
  \<open>build_response\<close> says whether the builder accepts a status and a content type.
\<close>

record 'w rpc_env =
  from_slice :: "bytes \<Rightarrow> (json, string) result"
  to_vec :: "json \<Rightarrow> (bytes, string) result"
  http_post :: "string \<Rightarrow> (string \<times> string) list \<Rightarrow> bytes \<Rightarrow> ('w, upstream, string) action"
  read_body :: "upstream \<Rightarrow> ('w, bytes, string) action"
  build_response :: "u16 \<Rightarrow> string option \<Rightarrow> (unit, string) result"
  rpc_clock :: "'w \<Rightarrow> nat"

section \<open>The handler\<close>

definition SUPPORTED_JSONRPC_METHODS :: "string list" where
  "SUPPORTED_JSONRPC_METHODS =
    [''account_put_deploy'', ''account_put_transaction'', ''chain_get_block'', ''chain_get_block_transfers'',
     ''chain_get_era_info_by_switch_block'', ''chain_get_era_summary'', ''chain_get_state_root_hash'',
     ''info_get_chainspec'', ''info_get_deploy'', ''info_get_reward'', ''info_get_status'',
     ''info_get_transaction'', ''info_get_validator_changes'', ''query_balance'', ''query_balance_details'',
     ''query_global_state'', ''speculative_exec'', ''speculative_exec_txn'', ''state_get_account_info'',
     ''state_get_auction_info'', ''state_get_auction_info_v2'', ''state_get_balance'',
     ''state_get_dictionary_item'', ''state_get_entity'', ''state_get_item'', ''state_get_package'',
     ''state_get_trie'']"

definition is_supported_jsonrpc_method :: "string \<Rightarrow> bool" where
  "is_supported_jsonrpc_method meth = list_ex (\<lambda>known. known = meth) SUPPORTED_JSONRPC_METHODS"

definition jsonrpc_error_response :: "json \<Rightarrow> int \<Rightarrow> string \<Rightarrow> http_response" where
  "jsonrpc_error_response i code message =
     \<lparr>resp_status = 200, resp_headers = [(''content-type'', ''application/json'')],
      resp_body = JsonBody (JObject
        [(''jsonrpc'', JString ''2.0''), (''id'', i),
         (''error'', JObject [(''code'', JInt code), (''message'', JString message)])])\<rparr>"

definition sanitize_info_get_status_response :: "'w rpc_env \<Rightarrow> bytes \<Rightarrow> (bytes, AppError) result" where
  "sanitize_info_get_status_response E body =
     (case from_slice E body of
        Err err \<Rightarrow> Err (bad_gateway (''upstream RPC response is not JSON: '' @ err))
      | Ok (JObject members) \<Rightarrow>
          (case obj_get ''result'' members of
             Some (JObject result) \<Rightarrow>
               map_err (\<lambda>err. bad_gateway (''failed to encode JSON-RPC response: '' @ err))
                 (to_vec E (JObject (obj_insert ''result''
                    (JObject (obj_insert ''peers'' (JArray []) result)) members)))
           | _ \<Rightarrow> Ok body)
      | Ok _ \<Rightarrow> Ok body)"

text \<open>The request to the node and its response (lines 102 to 149).\<close>

definition forward_rpc ::
  "'w rpc_env \<Rightarrow> string \<Rightarrow> string \<Rightarrow> bytes \<Rightarrow> bool \<Rightarrow> mlog \<Rightarrow> 'w
     \<Rightarrow> (http_response, AppError) result \<times> mlog \<times> 'w" where
  "forward_rpc E rpc_url network_name body sanitize_status log w =
     (let upstream_start = rpc_clock E w
      in case http_post E rpc_url [(''content-type'', ''application/json'')] body w of
           (Err err, w) \<Rightarrow>
             (let log = increment_rpc_upstream_error network_name log;
                  log = observe_rpc_upstream_duration network_name (rpc_clock E w - upstream_start) log
              in (Err (bad_gateway (''upstream RPC error: '' @ err)), log, w))
         | (Ok up, w) \<Rightarrow>
             (let log = observe_rpc_upstream_duration network_name (rpc_clock E w - upstream_start) log;
                  log = (if is_success_status (upstream_status up) then log
                         else increment_rpc_upstream_non_success network_name (upstream_status up) log)
              in case read_body E up w of
                   (Err err, w) \<Rightarrow> (Err (bad_gateway (''upstream body error: '' @ err)), log, w)
                 | (Ok bytes, w) \<Rightarrow>
                     (case (if sanitize_status then sanitize_info_get_status_response E bytes else Ok bytes) of
                        Err e \<Rightarrow> (Err e, log, w)
                      | Ok bytes \<Rightarrow>
                          (let content_type = map_of (upstream_headers up) ''content-type''
                           in case build_response E (upstream_status up) content_type of
                                Err err \<Rightarrow> (Err (bad_gateway (''response error: '' @ err)), log, w)
                              | Ok _ \<Rightarrow>
                                  (Ok \<lparr>resp_status = upstream_status up,
                                       resp_headers = (case content_type of
                                          Some c \<Rightarrow> [(''content-type'', c)] | None \<Rightarrow> []),
                                       resp_body = RawBody bytes\<rparr>, log, w)))))"

definition rpc_proxy ::
  "'w rpc_env \<Rightarrow> 's AppState \<Rightarrow> string \<Rightarrow> bytes \<Rightarrow> mlog \<Rightarrow> 'w
     \<Rightarrow> (http_response, AppError) result \<times> mlog \<times> 'w" where
  "rpc_proxy E state network_name body log w =
     (case get_network state network_name of
        Err e \<Rightarrow> (Err e, log, w)
      | Ok network \<Rightarrow>
          (case from_slice E body of
             Err _ \<Rightarrow> (Ok (jsonrpc_error_response JNull (-32700) ''Parse error''), log, w)
           | Ok (JObject members) \<Rightarrow>
               (let i = (case obj_get ''id'' members of Some v \<Rightarrow> v | None \<Rightarrow> JNull)
                in case Option.bind (obj_get ''method'' members) as_str of
                     None \<Rightarrow> (Ok (jsonrpc_error_response JNull (-32600) ''Invalid Request''), log, w)
                   | Some meth \<Rightarrow>
                       if \<not> is_supported_jsonrpc_method meth
                       then (Ok (jsonrpc_error_response i (-32601) ''Method not found''), log, w)
                       else forward_rpc E (nc_rpc (net_config network)) network_name body
                              (meth = ''info_get_status'') (increment_jsonrpc_method network_name meth log) w)
           | Ok (JArray _) \<Rightarrow> (Ok (jsonrpc_error_response JNull (-32600) ''Invalid Request''), log, w)
           | Ok _ \<Rightarrow> (Ok (jsonrpc_error_response JNull (-32600) ''Invalid Request''), log, w)))"

section \<open>The ways a request can go\<close>

lemma is_supported_iff: "is_supported_jsonrpc_method m \<longleftrightarrow> m \<in> set SUPPORTED_JSONRPC_METHODS"
  by (auto simp: is_supported_jsonrpc_method_def list_ex_iff)

lemma not_supported [simp]:
  "\<not> is_supported_jsonrpc_method ''info_get_peers''" "\<not> is_supported_jsonrpc_method ''rpc.discover''"
  by (simp_all add: is_supported_jsonrpc_method_def SUPPORTED_JSONRPC_METHODS_def)

text \<open>The method of a request that is one JSON object with a textual method.\<close>

definition requested_method :: "'w rpc_env \<Rightarrow> bytes \<Rightarrow> string option" where
  "requested_method E body =
     (case from_slice E body of
        Ok (JObject members) \<Rightarrow> Option.bind (obj_get ''method'' members) as_str
      | _ \<Rightarrow> None)"

definition request_id :: "'w rpc_env \<Rightarrow> bytes \<Rightarrow> json" where
  "request_id E body =
     (case from_slice E body of
        Ok (JObject members) \<Rightarrow> (case obj_get ''id'' members of Some v \<Rightarrow> v | None \<Rightarrow> JNull)
      | _ \<Rightarrow> JNull)"

definition refusal :: "'w rpc_env \<Rightarrow> bytes \<Rightarrow> http_response" where
  "refusal E body =
     (if \<not> is_ok (from_slice E body) then jsonrpc_error_response JNull (-32700) ''Parse error''
      else case requested_method E body of
        None \<Rightarrow> jsonrpc_error_response JNull (-32600) ''Invalid Request''
      | Some m \<Rightarrow> jsonrpc_error_response (request_id E body) (-32601) ''Method not found'')"

lemma rpc_proxy_eq:
  assumes "app_networks state name = Some net"
  shows "rpc_proxy E state name body log w =
    (case requested_method E body of
       Some m \<Rightarrow>
         if is_supported_jsonrpc_method m
         then forward_rpc E (nc_rpc (net_config net)) name body (m = ''info_get_status'')
                (increment_jsonrpc_method name m log) w
         else (Ok (refusal E body), log, w)
     | None \<Rightarrow> (Ok (refusal E body), log, w))"
proof -
  have n: "get_network state name = Ok net" using assms by simp
  show ?thesis
  proof (cases "from_slice E body")
    case (Ok v)
    then show ?thesis
      by (cases v) (simp_all add: rpc_proxy_def n requested_method_def refusal_def request_id_def Let_def
          split: option.splits)
  next
    case (Err e)
    then show ?thesis by (simp add: rpc_proxy_def n requested_method_def refusal_def)
  qed
qed

lemma rpc_proxy_unknown:
  assumes "app_networks state name = None"
  shows "rpc_proxy E state name body log w = (Err (not_found (''unknown network: '' @ name)), log, w)"
  using assms by (simp add: rpc_proxy_def get_network_def ok_or_def)

text \<open>The environment with a record of the requests sent upstream.\<close>

definition traced :: "'w rpc_env \<Rightarrow> ('w \<times> (string \<times> bytes) list) rpc_env" where
  "traced E =
     \<lparr>from_slice = from_slice E, to_vec = to_vec E,
      http_post = (\<lambda>url headers body wt. case http_post E url headers body (fst wt) of
          (r, w') \<Rightarrow> (r, w', snd wt @ [(url, body)])),
      read_body = (\<lambda>up wt. case read_body E up (fst wt) of (r, w') \<Rightarrow> (r, w', snd wt)),
      build_response = build_response E, rpc_clock = (\<lambda>wt. rpc_clock E (fst wt))\<rparr>"

lemma traced_fields:
  "from_slice (traced E) = from_slice E" "to_vec (traced E) = to_vec E"
  "build_response (traced E) = build_response E"
  by (simp_all add: traced_def)

lemma traced_calls:
  "http_post (traced E) url headers body (w, posts) =
     (fst (http_post E url headers body w), snd (http_post E url headers body w), posts @ [(url, body)])"
  "read_body (traced E) up (w, posts) = (fst (read_body E up w), snd (read_body E up w), posts)"
  "rpc_clock (traced E) (w, posts) = rpc_clock E w"
  by (simp_all add: traced_def case_prod_unfold)

lemma traced_derived [simp]:
  "requested_method (traced E) = requested_method E" "request_id (traced E) = request_id E"
  "refusal (traced E) = refusal E"
  "sanitize_info_get_status_response (traced E) = sanitize_info_get_status_response E"
proof -
  show m: "requested_method (traced E) = requested_method E" and i: "request_id (traced E) = request_id E"
    unfolding requested_method_def request_id_def fun_eq_iff traced_fields by simp_all
  show "refusal (traced E) = refusal E" unfolding refusal_def fun_eq_iff traced_fields m i by simp
  show "sanitize_info_get_status_response (traced E) = sanitize_info_get_status_response E"
    unfolding sanitize_info_get_status_response_def fun_eq_iff traced_fields by simp
qed

lemma forward_traced:
  "snd (snd (snd (forward_rpc (traced E) url name body san log (w, posts)))) = posts @ [(url, body)]
   \<and> fst (forward_rpc (traced E) url name body san log (w, posts)) = fst (forward_rpc E url name body san log w)"
  by (simp add: forward_rpc_def Let_def traced_calls traced_fields split: prod.splits result.splits)

text \<open>
  What \<open>serde_json\<close> keeps of a value. Reading returns values within its limits; writing one of them and
  reading the text again gives a value that agrees with it, and succeeds when no number has a fraction.
\<close>

definition json_faithful :: "'w rpc_env \<Rightarrow> bool" where
  "json_faithful E \<longleftrightarrow>
     (\<forall>bytes v. from_slice E bytes = Ok v \<longrightarrow> parsed_value v)
   \<and> (\<forall>v bytes. parsed_value v \<and> to_vec E v = Ok bytes \<longrightarrow>
        (\<forall>v'. from_slice E bytes = Ok v' \<longrightarrow> json_agrees v v')
        \<and> (float_free v \<longrightarrow> is_ok (from_slice E bytes)))"

text \<open>The members of the result of a JSON-RPC reply, when that is an object.\<close>

definition result_object :: "json \<Rightarrow> (string \<times> json) list option" where
  "result_object v =
     (case v of
        JObject members \<Rightarrow> (case obj_get ''result'' members of Some (JObject result) \<Rightarrow> Some result | _ \<Rightarrow> None)
      | _ \<Rightarrow> None)"

lemma result_object_Some:
  "result_object v = Some result \<longleftrightarrow> (\<exists>members. v = JObject members \<and> obj_get ''result'' members = Some (JObject result))"
  by (auto simp: result_object_def split: json.splits option.splits)

definition without_peers :: "(string \<times> json) list \<Rightarrow> (string \<times> json) list \<Rightarrow> json" where
  "without_peers members result =
     JObject (obj_insert ''result'' (JObject (obj_insert ''peers'' (JArray []) result)) members)"

lemma sanitize_cases:
  assumes "sanitize_info_get_status_response E answer = Ok bytes"
  obtains v members result where "from_slice E answer = Ok v" "v = JObject members"
      "obj_get ''result'' members = Some (JObject result)" "to_vec E (without_peers members result) = Ok bytes"
  | v where "from_slice E answer = Ok v" "result_object v = None" "bytes = answer"
proof -
  obtain v where v: "from_slice E answer = Ok v"
    using assms by (auto simp: sanitize_info_get_status_response_def split: result.splits)
  show thesis
  proof (cases "result_object v")
    case (Some result)
    then obtain members where m: "v = JObject members" "obj_get ''result'' members = Some (JObject result)"
      by (auto simp: result_object_Some)
    with assms v have "to_vec E (without_peers members result) = Ok bytes"
      by (simp add: sanitize_info_get_status_response_def without_peers_def)
    from that(1) [OF v m this] show thesis .
  next
    case None
    with assms v have "bytes = answer"
      by (auto simp: sanitize_info_get_status_response_def result_object_def split: json.splits option.splits)
    from that(2) [OF v None this] show thesis .
  qed
qed

lemma without_peers_parsed:
  assumes "parsed_value (JObject members)" and "obj_get ''result'' members = Some (JObject result)"
  shows "parsed_value (without_peers members result)"
proof -
  have d: "json_depth (JObject members) \<le> Suc 126" and w: "json_wf (JObject members)"
    using assms(1) unfolding parsed_value_def RECURSION_LIMIT_def by linarith+
  have "Suc (json_depth (JObject result)) \<le> Suc 126" using depth_member [OF assms(2)] d by linarith
  then have "json_depth (JObject (obj_insert ''peers'' (JArray []) result)) \<le> Suc 125"
    by (intro depth_insert) (simp_all add: most_def)
  then have "json_depth (without_peers members result) \<le> Suc 126"
    unfolding without_peers_def using d by (intro depth_insert) simp_all
  moreover have "json_wf (without_peers members result)"
    unfolding without_peers_def using w wf_member [OF assms(2) w] by (intro wf_insert) simp_all
  ultimately show ?thesis by (simp add: parsed_value_def RECURSION_LIMIT_def)
qed

lemma float_free_without_peers:
  assumes "float_free (JObject members)" and "obj_get ''result'' members = Some (JObject result)"
  shows "float_free (without_peers members result)"
proof -
  have "float_free (JObject result)" using assms by (force simp: obj_get_def list_all_iff dest!: map_of_SomeD)
  then have "float_free (JObject (obj_insert ''peers'' (JArray []) result))"
    using set_obj_insert [of "''peers''" "JArray []" result] by (force simp: list_all_iff)
  then show ?thesis
    using assms(1) set_obj_insert [of "''result''" "JObject (obj_insert ''peers'' (JArray []) result)" members]
    unfolding without_peers_def by (force simp: list_all_iff)
qed

text \<open>What a client reads of a sanitised answer \<open>v\<close>.\<close>

definition sanitized :: "json \<Rightarrow> json \<Rightarrow> bool" where
  "sanitized v v' \<longleftrightarrow>
     (\<exists>result result'. result_object v = Some result \<and> result_object v' = Some result'
        \<and> obj_get ''peers'' result' = Some (JArray [])
        \<and> (\<forall>k. k \<noteq> ''peers'' \<longrightarrow>
             (case obj_get k result of
                None \<Rightarrow> obj_get k result' = None
              | Some x \<Rightarrow> \<exists>x'. obj_get k result' = Some x' \<and> json_agrees x x')))"

lemma agrees_sanitized:
  assumes "obj_get ''result'' members = Some (JObject result)" and "json_agrees (without_peers members result) v'"
  shows "sanitized (JObject members) v'"
proof -
  let ?result = "obj_insert ''peers'' (JArray []) result"
  obtain members' where m': "v' = JObject members'"
    using assms(2) unfolding without_peers_def by (blast dest: agrees_object)
  from assms(2) obtain r where r: "obj_get ''result'' members' = Some r" "json_agrees (JObject ?result) r"
    unfolding without_peers_def m' by (auto dest: agrees_member [where k = "''result''"] simp del: json_agrees.simps)
  then obtain result' where r': "r = JObject result'" by (blast dest: agrees_object)
  note agree = r(2) [unfolded r']
  have "obj_get ''peers'' result' = Some (JArray [])"
    using agrees_member [OF agree, of "''peers''" "JArray []"] by (simp del: json_agrees.simps)
  moreover have "case obj_get k result of None \<Rightarrow> obj_get k result' = None
      | Some x \<Rightarrow> \<exists>x'. obj_get k result' = Some x' \<and> json_agrees x x'" if "k \<noteq> ''peers''" for k
    using that agrees_member [OF agree, of k] agrees_no_member [OF agree, of k] by (auto split: option.split)
  moreover have "result_object (JObject members) = Some result" "result_object v' = Some result'"
    using assms(1) r(1) by (simp_all add: result_object_Some m' r')
  ultimately show ?thesis unfolding sanitized_def by blast
qed

lemma sanitize_hides_peers:
  assumes "json_faithful E" and "sanitize_info_get_status_response E answer = Ok bytes"
  shows "\<exists>v. from_slice E answer = Ok v
    \<and> (if result_object v = None then bytes = answer
       else (\<forall>v'. from_slice E bytes = Ok v' \<longrightarrow> sanitized v v') \<and> (float_free v \<longrightarrow> is_ok (from_slice E bytes)))"
  using assms(2)
proof (cases rule: sanitize_cases)
  case (1 v members result)
  have p: "parsed_value (without_peers members result)"
    using assms(1) 1 without_peers_parsed by (auto simp: json_faithful_def)
  have "result_object v \<noteq> None" using 1 by (auto simp: result_object_Some)
  moreover have "sanitized v v'" if "from_slice E bytes = Ok v'" for v'
    using assms(1) p 1 that agrees_sanitized unfolding json_faithful_def by blast
  moreover have "float_free v \<longrightarrow> is_ok (from_slice E bytes)"
    using assms(1) p 1 float_free_without_peers unfolding json_faithful_def by blast
  ultimately show ?thesis using 1(1) by auto
qed auto

lemma forward_accounts:
  assumes "forward_rpc E url name body san log w = (r, log', w')"
  shows "counter jsonrpc_method_total ls log' = counter jsonrpc_method_total ls log
    \<and> counter rpc_upstream_errors_total ks log' = counter rpc_upstream_errors_total ks log
      + (if (\<exists>e. fst (http_post E url [(''content-type'', ''application/json'')] body w) = Err e) \<and> ks = [name]
         then 1 else 0)
    \<and> (log_ok log' \<longleftrightarrow> log_ok log)"
  using assms
  by (auto simp: forward_rpc_def Let_def metric_defs log_ok_emit split: prod.splits result.splits if_splits)

section \<open>A sample environment\<close>

text \<open>A few texts and their JSON values; the node answers every request with a status that lists a peer.\<close>

definition sample_rpc :: "nat rpc_env" where
  "sample_rpc =
     \<lparr>from_slice = (\<lambda>b.
          if b = [1] then Ok (JObject [(''id'', JInt 7), (''method'', JString ''info_get_status'')])
          else if b = [3] then Ok (JObject [(''id'', JInt 7), (''method'', JString ''info_get_peers'')])
          else if b = [4] then Ok (JObject [(''result'', JObject [(''peers'', JArray [JString ''10.0.0.1''])])])
          else if b = [5] then Ok (JObject [(''result'', JObject [(''peers'', JArray [])])])
          else if b = [6] then Ok (JObject [(''id'', JInt 8), (''method'', JString ''chain_get_block'')])
          else Err ''expected value''),
      to_vec = (\<lambda>v. if v = JObject [(''result'', JObject [(''peers'', JArray [])])] then Ok [5] else Err ''unencodable''),
      http_post = (\<lambda>_ _ _ w.
          (Ok \<lparr>upstream_status = 200, upstream_headers = [(''content-type'', ''application/json'')]\<rparr>, Suc w)),
      read_body = (\<lambda>_ w. (Ok [4], w)),
      build_response = (\<lambda>_ _. Ok ()),
      rpc_clock = (\<lambda>w. w)\<rparr>"

definition sample_net :: "unit NetworkState" where
  "sample_net =
     \<lparr>net_config = \<lparr>nc_network_name = ''main'', nc_chain_name = ''casper'', nc_rest = '''', nc_sse = '''',
         nc_rpc = ''http://node/rpc'', nc_binary = '''', nc_gossip = ''''\<rparr>,
      net_events = fresh_bus ''main'' 8 8 False,
      net_binary_pool = fresh_pool ''main'' '''' 1\<rparr>"

definition sample_state :: "unit AppState" where
  "sample_state =
     \<lparr>app_networks = [''main'' \<mapsto> sample_net],
      app_binary_rate_limit_per_min = 60, app_binary_rate_limit_burst = 20\<rparr>"

lemma sample_network: "app_networks sample_state ''main'' = Some sample_net"
  by (simp add: sample_state_def)

lemma sample_faithful: "json_faithful sample_rpc"
proof -
  have "parsed_value v" if "from_slice sample_rpc b = Ok v" for b v
    using that unfolding sample_rpc_def parsed_value_def RECURSION_LIMIT_def JInt_def
    by (auto simp: most_def split: if_splits)
  moreover have "from_slice sample_rpc b = Ok v" if "to_vec sample_rpc v = Ok b" for v b
    using that by (auto simp: sample_rpc_def split: if_splits)
  moreover have "json_agrees v v" if "to_vec sample_rpc v = Ok b" for v b
    using that by (auto simp: sample_rpc_def split: if_splits)
  ultimately show ?thesis unfolding json_faithful_def by fastforce
qed

lemma sample_sanitize: "sanitize_info_get_status_response sample_rpc [4] = Ok [5]"
  by (simp add: sanitize_info_get_status_response_def sample_rpc_def obj_get_def obj_insert_def)

section \<open>Properties\<close>

text \<open>C1: what reaches the node is exactly what the allowlist admits. Of every request the proxy sends at
  most one request upstream: when the network is known, the body is one JSON object and its method is
  one of the supported methods, it sends that body unchanged to the RPC address of that network;
  otherwise (an unknown network, a body that is not JSON, a batch, a missing or non-text method, any
  other method, \<open>info_get_peers\<close> and \<open>rpc.discover\<close> among them) it sends nothing. Recording the requests
  does not change the reply.\<close>

theorem rpc_forwards_only_supported:
  "snd (snd (snd (rpc_proxy (traced E) state name body log (w, posts)))) =
     posts @ (case app_networks state name of
                None \<Rightarrow> []
              | Some net \<Rightarrow>
                  (case requested_method E body of
                     None \<Rightarrow> []
                   | Some m \<Rightarrow>
                       if m \<in> set SUPPORTED_JSONRPC_METHODS then [(nc_rpc (net_config net), body)] else []))
   \<and> fst (rpc_proxy (traced E) state name body log (w, posts)) = fst (rpc_proxy E state name body log w)
   \<and> ''info_get_peers'' \<notin> set SUPPORTED_JSONRPC_METHODS \<and> ''rpc.discover'' \<notin> set SUPPORTED_JSONRPC_METHODS"
proof (cases "app_networks state name")
  case None
  then show ?thesis using not_supported by (simp add: rpc_proxy_unknown is_supported_iff)
next
  case (Some net)
  then show ?thesis
    using forward_traced [of E] not_supported
    by (simp add: rpc_proxy_eq is_supported_iff split: option.splits)
qed

text \<open>C31: a request that is not forwarded is answered with a JSON-RPC error over HTTP 200 and leaves the
  metrics alone: \<open>-32700\<close> with a null id when the body is not JSON, \<open>-32600\<close> with a null id for a batch,
  another JSON value or a missing or non-text method, \<open>-32601\<close> with the id of the request when the
  method is not supported; an unknown network is a 404.\<close>

theorem rpc_refusals:
  assumes "app_networks state name = Some net"
    and "\<forall>m. requested_method E body = Some m \<longrightarrow> \<not> is_supported_jsonrpc_method m"
  shows "rpc_proxy E state name body log w = (Ok (refusal E body), log, w)
    \<and> resp_status (refusal E body) = 200
    \<and> (\<forall>vs. from_slice E body = Ok (JArray vs) \<longrightarrow>
         refusal E body = jsonrpc_error_response JNull (-32600) ''Invalid Request'')
    \<and> (\<forall>members i m. from_slice E body = Ok (JObject members) \<and> obj_get ''id'' members = Some i
         \<and> obj_get ''method'' members = Some (JString m) \<longrightarrow>
         refusal E body = jsonrpc_error_response i (-32601) ''Method not found'')"
  using assms
  by (auto simp: rpc_proxy_eq refusal_def requested_method_def request_id_def jsonrpc_error_response_def
      split: option.splits)

theorem rpc_refusals_witness:
  "rpc_proxy sample_rpc sample_state ''main'' [3] [] 0
     = (Ok (jsonrpc_error_response (JInt 7) (-32601) ''Method not found''), [], 0)"
proof -
  have m: "requested_method sample_rpc [3] = Some ''info_get_peers''"
    by (simp add: requested_method_def sample_rpc_def obj_get_def)
  have "\<forall>m. requested_method sample_rpc [3] = Some m \<longrightarrow> \<not> is_supported_jsonrpc_method m"
    by (simp add: m)
  from rpc_refusals [OF sample_network this, of "[]" 0] show ?thesis
    by (simp add: sample_rpc_def obj_get_def)
qed

text \<open>C7: no client learns the peers from \<open>info_get_status\<close>. A successful reply to that method comes from an
  answer of the node that is JSON, and carries its status. When the answer has no result object, as in an
  error reply, the client gets its very bytes. When it has one, whatever the client reads of the reply is
  again a reply with a result object, whose \<open>peers\<close> is the empty array while its other members are those of
  the node (up to the digits of fractional numbers), and the reply can be read when no number of the
  answer has a fraction.\<close>

theorem rpc_status_hides_peers:
  assumes "json_faithful E" and "app_networks state name = Some net"
    and "requested_method E body = Some ''info_get_status''"
    and "rpc_proxy E state name body log w = (Ok resp, log', w')"
  shows "\<exists>up w1 answer v bytes.
      http_post E (nc_rpc (net_config net)) [(''content-type'', ''application/json'')] body w = (Ok up, w1)
    \<and> read_body E up w1 = (Ok answer, w') \<and> from_slice E answer = Ok v
    \<and> resp_status resp = upstream_status up \<and> resp_body resp = RawBody bytes
    \<and> (if result_object v = None then bytes = answer
       else (\<forall>v'. from_slice E bytes = Ok v' \<longrightarrow> sanitized v v') \<and> (float_free v \<longrightarrow> is_ok (from_slice E bytes)))"
proof -
  have sup: "is_supported_jsonrpc_method ''info_get_status''"
    by (simp add: is_supported_jsonrpc_method_def SUPPORTED_JSONRPC_METHODS_def)
  obtain up w1 answer bytes where
    "http_post E (nc_rpc (net_config net)) [(''content-type'', ''application/json'')] body w = (Ok up, w1)"
    "read_body E up w1 = (Ok answer, w')" "resp_status resp = upstream_status up"
    "resp_body resp = RawBody bytes" "sanitize_info_get_status_response E answer = Ok bytes"
    using assms(4) sup
    by (auto simp: rpc_proxy_eq [OF assms(2)] assms(3) forward_rpc_def Let_def
        split: prod.splits result.splits)
  with sanitize_hides_peers [OF assms(1)] show ?thesis by blast
qed

theorem rpc_status_hides_peers_witness:
  "\<exists>resp log' w' bytes v'. rpc_proxy sample_rpc sample_state ''main'' [1] [] 0 = (Ok resp, log', w')
     \<and> resp_body resp = RawBody bytes \<and> from_slice sample_rpc bytes = Ok v'
     \<and> sanitized (JObject [(''result'', JObject [(''peers'', JArray [JString ''10.0.0.1''])])]) v'"
proof -
  have m: "requested_method sample_rpc [1] = Some ''info_get_status''"
    by (simp add: requested_method_def sample_rpc_def obj_get_def)
  obtain resp log' w' where r: "rpc_proxy sample_rpc sample_state ''main'' [1] [] 0 = (Ok resp, log', w')"
    unfolding rpc_proxy_eq [OF sample_network] m
    by (simp add: is_supported_jsonrpc_method_def SUPPORTED_JSONRPC_METHODS_def forward_rpc_def sample_sanitize Let_def)
       (simp add: sample_rpc_def sample_sanitize [unfolded sample_rpc_def] Let_def)
  from rpc_status_hides_peers [OF sample_faithful sample_network m r] obtain up w1 answer v bytes where
    a: "read_body sample_rpc up w1 = (Ok answer, w')" "from_slice sample_rpc answer = Ok v" "resp_body resp = RawBody bytes"
    and s: "if result_object v = None then bytes = answer
       else (\<forall>v'. from_slice sample_rpc bytes = Ok v' \<longrightarrow> sanitized v v')
         \<and> (float_free v \<longrightarrow> is_ok (from_slice sample_rpc bytes))" by blast
  have "answer = [4]" using a(1) by (simp add: sample_rpc_def)
  then have v: "v = JObject [(''result'', JObject [(''peers'', JArray [JString ''10.0.0.1''])])]"
    using a(2) by (simp add: sample_rpc_def)
  then have "result_object v \<noteq> None" "float_free v" by (simp_all add: result_object_def obj_get_def)
  with s obtain v' where "from_slice sample_rpc bytes = Ok v'" "sanitized v v'" by (auto simp: is_ok_iff)
  with r a(3) v show ?thesis by blast
qed

text \<open>C30: any other supported method is passed through: when the node answers, the client gets the status,
  the content type and the exact bytes of the answer, non-success statuses included.\<close>

theorem rpc_passthrough:
  assumes "app_networks state name = Some net" and "requested_method E body = Some m"
    and "is_supported_jsonrpc_method m" and "m \<noteq> ''info_get_status''"
    and "http_post E (nc_rpc (net_config net)) [(''content-type'', ''application/json'')] body w = (Ok up, w1)"
    and "read_body E up w1 = (Ok bytes, w2)"
    and "build_response E (upstream_status up) (map_of (upstream_headers up) ''content-type'') = Ok ()"
  shows "\<exists>log'. rpc_proxy E state name body log w =
    (Ok \<lparr>resp_status = upstream_status up,
         resp_headers = (case map_of (upstream_headers up) ''content-type'' of
            Some c \<Rightarrow> [(''content-type'', c)] | None \<Rightarrow> []),
         resp_body = RawBody bytes\<rparr>, log', w2)"
  using assms by (simp add: rpc_proxy_eq forward_rpc_def Let_def)

theorem rpc_passthrough_witness:
  "\<exists>log'. rpc_proxy sample_rpc sample_state ''main'' [6] [] 0 =
    (Ok \<lparr>resp_status = 200, resp_headers = [(''content-type'', ''application/json'')], resp_body = RawBody [4]\<rparr>, log', 1)"
  using rpc_passthrough [OF sample_network, of sample_rpc "[6]" "''chain_get_block''" 0
      "\<lparr>upstream_status = 200, upstream_headers = [(''content-type'', ''application/json'')]\<rparr>" 1 "[4]" 1 "[]"]
  by (simp add: is_supported_jsonrpc_method_def SUPPORTED_JSONRPC_METHODS_def)
     (simp add: requested_method_def sample_rpc_def obj_get_def)

text \<open>The metrics of the RPC endpoint are exact: a forwarded request counts once under its network and
  method, a transport error once under its network, and nothing else counts; all calls are well
  formed.\<close>

theorem rpc_accounts:
  assumes "rpc_proxy E state name body log w = (r, log', w')"
  shows "(\<forall>ls. counter jsonrpc_method_total ls log' = counter jsonrpc_method_total ls log
      + (case app_networks state name of
           None \<Rightarrow> 0
         | Some net \<Rightarrow>
             (case requested_method E body of
                None \<Rightarrow> 0
              | Some m \<Rightarrow> if is_supported_jsonrpc_method m then (if ls = [name, m] then 1 else 0) else 0)))
    \<and> (\<forall>ls. counter rpc_upstream_errors_total ls log' = counter rpc_upstream_errors_total ls log
      + (if \<exists>net m e. app_networks state name = Some net \<and> requested_method E body = Some m
              \<and> is_supported_jsonrpc_method m \<and> ls = [name]
              \<and> fst (http_post E (nc_rpc (net_config net)) [(''content-type'', ''application/json'')] body w) = Err e
         then 1 else 0))
    \<and> (log_ok log' \<longleftrightarrow> log_ok log)"
proof (cases "\<exists>net m. app_networks state name = Some net \<and> requested_method E body = Some m \<and> is_supported_jsonrpc_method m")
  case True
  then obtain net m where nm: "app_networks state name = Some net" "requested_method E body = Some m"
    "is_supported_jsonrpc_method m" by blast
  then have "forward_rpc E (nc_rpc (net_config net)) name body (m = ''info_get_status'')
      (increment_jsonrpc_method name m log) w = (r, log', w')"
    using assms by (simp add: rpc_proxy_eq)
  from forward_accounts [OF this] nm show ?thesis
    by (auto simp: increment_jsonrpc_method_def log_ok_emit)
next
  case False
  then have "log' = log"
    using assms
    by (cases "app_networks state name") (auto simp: rpc_proxy_unknown rpc_proxy_eq split: option.splits if_splits)
  then show ?thesis using False by (auto split: option.splits)
qed

theorem rpc_accounts_witness:
  "counter jsonrpc_method_total [''main'', ''info_get_status'']
     (fst (snd (rpc_proxy sample_rpc sample_state ''main'' [1] [] 0))) = 1"
proof -
  obtain r log' w' where r: "rpc_proxy sample_rpc sample_state ''main'' [1] [] 0 = (r, log', w')"
    by (metis prod_cases3)
  have m: "requested_method sample_rpc [1] = Some ''info_get_status''"
    by (simp add: requested_method_def sample_rpc_def obj_get_def)
  from rpc_accounts [OF r] sample_network m show ?thesis
    by (simp add: r is_supported_jsonrpc_method_def SUPPORTED_JSONRPC_METHODS_def)
qed

end
