(* ===== verification/Handlers.thy ===== *)
theory Handlers
  imports Event_Streams Rate_Limit Binary_Socket Jsonrpc_Proxy
begin

text \<open>
  \<open>src/handlers.rs\<close>, the rest: the routes, the network root, and the two handlers that upgrade a request
  to a stream. The router of the web framework is a parameter: it matches a path against a pattern with
  the parameter \<open>{network_name}\<close>. What the event bus goes through while a stream runs is given with the
  stream.
\<close>

section \<open>Routes\<close>

datatype endpoint = NetworkRoot | Rpc | Events | Binary

text \<open>
  The method, the path pattern and the handler of each route. A GET route of the framework also takes HEAD
  requests, with the same handler; that their responses have no body is the service's part (\<open>Service\<close>).
\<close>

definition routes :: "(string \<times> string \<times> endpoint) list" where
  "routes =
    [(''GET'', ''/{network_name}/'', NetworkRoot),
     (''POST'', ''/{network_name}/rpc'', Rpc),
     (''GET'', ''/{network_name}/events'', Events),
     (''GET'', ''/{network_name}/binary'', Binary)]"

definition takes_method :: "string \<Rightarrow> string \<Rightarrow> bool" where
  "takes_method route_method meth \<longleftrightarrow> meth = route_method \<or> (route_method = ''GET'' \<and> meth = ''HEAD'')"

text \<open>\<open>path_param pattern path\<close> is the value of \<open>{network_name}\<close> when the path matches.\<close>

definition dispatch ::
  "(string \<Rightarrow> string \<Rightarrow> string option) \<Rightarrow> string \<Rightarrow> string \<Rightarrow> (endpoint \<times> string) option" where
  "dispatch path_param meth path =
     (case find (\<lambda>(m, pat, h). takes_method m meth \<and> path_param pat path \<noteq> None) routes of
        None \<Rightarrow> None
      | Some (m, pat, h) \<Rightarrow> map_option (Pair h) (path_param pat path))"

section \<open>Handlers\<close>

definition network_links :: "'s NetworkState \<Rightarrow> string \<Rightarrow> json" where
  "network_links net network_name =
     JObject
       [(''network_name'', JString (nc_network_name (net_config net))),
        (''chain_name'', JString (nc_chain_name (net_config net))),
        (''rpc'', JString (''/'' @ network_name @ ''/rpc'')),
        (''events'', JString (''/'' @ network_name @ ''/events'')),
        (''binary'', JString (''/'' @ network_name @ ''/binary''))]"

definition network_root :: "'s AppState \<Rightarrow> string \<Rightarrow> (http_response, AppError) result" where
  "network_root state network_name =
     (case get_network state network_name of
        Err e \<Rightarrow> Err e
      | Ok network \<Rightarrow>
          Ok \<lparr>resp_status = 200, resp_headers = [(''content-type'', ''application/json'')],
              resp_body = JsonBody (network_links network network_name)\<rparr>)"

text \<open>
  \<open>MaybeWebSocketUpgrade\<close> turns a failed extraction into \<open>None\<close>; \<open>later\<close> maps the bus of the network to the
  states it is in at the polls of the ApiVersion and when the snapshot is taken.
\<close>

definition maybe_upgrade :: "('u, 'e) result \<Rightarrow> 'u option" where
  "maybe_upgrade extracted = (case extracted of Ok ws \<Rightarrow> Some ws | Err _ \<Rightarrow> None)"

datatype events_reply = SocketFrames bool "ws_out list" | SseFrames bool "sse_frame list"

definition events_handler ::
  "('w ws_sink, 'e) result \<Rightarrow> (EventBus \<Rightarrow> EventBus list \<times> EventBus) \<Rightarrow> 's AppState \<Rightarrow> string \<Rightarrow> u64 option
     \<Rightarrow> select_event list \<Rightarrow> mlog \<Rightarrow> 'w \<Rightarrow> (events_reply, AppError) result \<times> mlog \<times> 'w" where
  "events_handler extracted later state network_name start_from es log w =
     (case get_network state network_name of
        Err e \<Rightarrow> (Err e, log, w)
      | Ok network \<Rightarrow>
          (let (polls, bus) = later (net_events network)
           in case maybe_upgrade extracted of
                Some S \<Rightarrow>
                  (case handle_events_socket S network_name polls bus start_from es log w of
                     (ended, out, log, w) \<Rightarrow> (Ok (SocketFrames ended out), log, w))
              | None \<Rightarrow>
                  (case sse_stream network_name polls bus start_from (live_recvs es) log of
                     (ended, out, log) \<Rightarrow> (Ok (SseFrames ended out), log, w))))"

text \<open>\<open>limiter\<close> builds the per-connection limiter from its quota; a refused quota is a panic.\<close>

definition binary_ws ::
  "('resp, 'rr, 'st, 'val) casper \<Rightarrow> ('w, 's) tcp \<Rightarrow> governor \<Rightarrow> (Quota \<Rightarrow> 'l) \<Rightarrow> ('l, 'w) limiter \<Rightarrow> 'w ws_sink
     \<Rightarrow> 's AppState \<Rightarrow> string \<Rightarrow> ws_in list \<Rightarrow> mlog \<Rightarrow> 'w
     \<Rightarrow> (bool \<times> ('s, 'l) socket_state, AppError + string) result \<times> mlog \<times> 'w" where
  "binary_ws C T G limiter check S state network_name ms log w =
     (case get_network state network_name of
        Err e \<Rightarrow> (Err (Inl e), log, w)
      | Ok network \<Rightarrow>
          (case binary_connection_rate_limiter G (app_binary_rate_limit_per_min state) (app_binary_rate_limit_burst state) of
             Err panic \<Rightarrow> (Err (Inr panic), log, w)
           | Ok quota \<Rightarrow>
               (case handle_binary_socket C T S check network_name ms (net_binary_pool network) (limiter quota) log w of
                  (ended, st, w) \<Rightarrow> (Ok (ended, st), sock_log st, w))))"

section \<open>Paths\<close>

text \<open>
  The documented matching of the router: the parameter takes one non-empty segment. The value is
  percent-decoded, which leaves a segment without \<open>%\<close> as it is.
\<close>

definition router_matches :: "(string \<Rightarrow> string \<Rightarrow> string option) \<Rightarrow> bool" where
  "router_matches path_param \<longleftrightarrow>
     (\<forall>suffix path name. CHR ''%'' \<notin> set path \<longrightarrow>
        (path_param (''/{network_name}/'' @ suffix) path = Some name \<longleftrightarrow>
           path = ''/'' @ name @ ''/'' @ suffix \<and> name \<noteq> [] \<and> CHR ''/'' \<notin> set name))"

text \<open>The label of an endpoint in the metrics.\<close>

fun endpoint_label :: "endpoint \<Rightarrow> string" where
  "endpoint_label NetworkRoot = ''root''"
| "endpoint_label Rpc = ''rpc''"
| "endpoint_label Events = ''events''"
| "endpoint_label Binary = ''binary''"

fun endpoint_suffix :: "endpoint \<Rightarrow> string" where
  "endpoint_suffix NetworkRoot = []"
| "endpoint_suffix Rpc = ''rpc''"
| "endpoint_suffix Events = ''events''"
| "endpoint_suffix Binary = ''binary''"

fun endpoint_method :: "endpoint \<Rightarrow> string" where
  "endpoint_method Rpc = ''POST''"
| "endpoint_method _ = ''GET''"

lemma routes_eq:
  "routes = map (\<lambda>h. (endpoint_method h, ''/{network_name}/'' @ endpoint_suffix h, h)) [NetworkRoot, Rpc, Events, Binary]"
  by (simp add: routes_def)

lemma endpoint_suffix_inj: "endpoint_suffix h = endpoint_suffix k \<longleftrightarrow> h = k"
  by (cases h; cases k) simp_all

lemma no_slash_suffix: "CHR ''/'' \<notin> set (endpoint_suffix h)"
  by (cases h) simp_all

lemma first_slash:
  assumes "CHR ''/'' \<notin> set a" and "CHR ''/'' \<notin> set b" and "a @ CHR ''/'' # s = b @ CHR ''/'' # t"
  shows "a = b \<and> s = t"
proof -
  have "takeWhile (\<lambda>c. c \<noteq> CHR ''/'') (x @ CHR ''/'' # y) = x" if "CHR ''/'' \<notin> set x" for x y
    using that by (induction x) auto
  then have "a = b" using assms by metis
  then show ?thesis using assms(3) by simp
qed

lemma route_mem: "(m, pat, h) \<in> set routes \<longleftrightarrow> m = endpoint_method h \<and> pat = ''/{network_name}/'' @ endpoint_suffix h"
  by (cases h) (auto simp: routes_def)

lemma dispatch_Some:
  assumes "router_matches path_param" and "CHR ''%'' \<notin> set path"
  shows "dispatch path_param meth path = Some (h, name) \<longleftrightarrow>
    takes_method (endpoint_method h) meth \<and> path = ''/'' @ name @ ''/'' @ endpoint_suffix h \<and> name \<noteq> []
    \<and> CHR ''/'' \<notin> set name" (is "?lhs \<longleftrightarrow> ?rhs")
proof -
  have m: "path_param (''/{network_name}/'' @ suffix) path = Some n \<longleftrightarrow>
      path = ''/'' @ n @ ''/'' @ suffix \<and> n \<noteq> [] \<and> CHR ''/'' \<notin> set n" for suffix n
    using assms unfolding router_matches_def by blast
  let ?P = "\<lambda>(mm, pat, h :: endpoint). takes_method mm meth \<and> path_param pat path \<noteq> None"
  have fwd: "takes_method (endpoint_method h) meth \<and> path = ''/'' @ name @ ''/'' @ endpoint_suffix h \<and> name \<noteq> [] \<and> CHR ''/'' \<notin> set name"
    if lhs: "dispatch path_param meth path = Some (h, name)" for h name
  proof -
    obtain mm pat where f: "find ?P routes = Some (mm, pat, h)" and p: "path_param pat path = Some name"
      using lhs by (auto simp: dispatch_def split: option.splits)
    then have "(mm, pat, h) \<in> set routes" "takes_method mm meth" by (auto simp: find_Some_iff set_conv_nth)
    then have "takes_method (endpoint_method h) meth" "pat = ''/{network_name}/'' @ endpoint_suffix h" by (simp_all add: route_mem)
    then show ?thesis using p m by blast
  qed
  show ?thesis
  proof
    assume rhs: ?rhs
    then have p: "path_param (''/{network_name}/'' @ endpoint_suffix h) path = Some name" using m by blast
    have "find ?P routes \<noteq> None"
      using rhs p route_mem [of "endpoint_method h" "''/{network_name}/'' @ endpoint_suffix h" h] by (auto simp: find_None_iff)
    then obtain mm pat k where f: "find ?P routes = Some (mm, pat, k)" by auto
    then have "?P (mm, pat, k)" by (auto simp: find_Some_iff)
    then obtain n where "path_param pat path = Some n" by auto
    with f have d: "dispatch path_param meth path = Some (k, n)" by (simp add: dispatch_def)
    from fwd [OF this] rhs have "name @ CHR ''/'' # endpoint_suffix h = n @ CHR ''/'' # endpoint_suffix k"
      "CHR ''/'' \<notin> set n" by auto
    with first_slash rhs have "name = n \<and> endpoint_suffix h = endpoint_suffix k" by blast
    then show ?lhs using d by (simp add: endpoint_suffix_inj)
  qed (rule fwd)
qed

lemma labels_of_path:
  assumes "name \<noteq> []" and "CHR ''/'' \<notin> set name"
  shows "network_from_path (''/'' @ name @ ''/'' @ endpoint_suffix h) = name"
    and "endpoint_from_path (''/'' @ name @ ''/'' @ endpoint_suffix h) = endpoint_label h"
proof -
  have "trim_start_matches CHR ''/'' (''/'' @ name @ ''/'' @ endpoint_suffix h) = name @ CHR ''/'' # endpoint_suffix h"
    using assms by (cases name) (auto simp: trim_start_matches_def)
  then have seg: "split_chr CHR ''/'' (trim_start_matches CHR ''/'' (''/'' @ name @ ''/'' @ endpoint_suffix h))
      = [name, endpoint_suffix h]"
    using assms(2) no_slash_suffix [of h] by (simp add: split_chr_append_sep split_chr_no_sep)
  show "network_from_path (''/'' @ name @ ''/'' @ endpoint_suffix h) = name"
    unfolding network_from_path_def Let_def seg using assms(1) by simp
  show "endpoint_from_path (''/'' @ name @ ''/'' @ endpoint_suffix h) = endpoint_label h"
    unfolding endpoint_from_path_def Let_def seg by (cases h) simp_all
qed

text \<open>The error of the lookup ends every handler at once: no stream, no upstream request, no metric call.\<close>

lemma unknown_network:
  assumes "app_networks state name = None"
  shows "network_root state name = Err (not_found (''unknown network: '' @ name))"
    and "events_handler extracted later state name start_from es log w = (Err (not_found (''unknown network: '' @ name)), log, w)"
    and "binary_ws C T G limiter check S state name ms log w = (Err (Inl (not_found (''unknown network: '' @ name))), log, w)"
    and "rpc_proxy E state name body log w = (Err (not_found (''unknown network: '' @ name)), log, w)"
  using rpc_proxy_unknown [OF assms, of E body log w]
  by (simp_all add: network_root_def events_handler_def binary_ws_def get_network_def ok_or_def assms)

section \<open>Properties\<close>

text \<open>The metrics of the HTTP layer name what was served: when the router hands a path to a handler with
  a network name, the middleware's labels for that path are that network and the label of that
  endpoint.\<close>

theorem labels_match_routes:
  assumes "router_matches path_param" and "CHR ''%'' \<notin> set path"
    and "dispatch path_param meth path = Some (h, name)"
  shows "network_from_path path = name \<and> endpoint_from_path path = endpoint_label h"
  using assms labels_of_path by (simp add: dispatch_Some)

definition sample_router :: "string \<Rightarrow> string \<Rightarrow> string option" where
  "sample_router pat path =
     (let suffix = drop (length ''/{network_name}/'') pat;
          name = takeWhile (\<lambda>c. c \<noteq> CHR ''/'') (drop 1 path)
      in if take (length ''/{network_name}/'') pat = ''/{network_name}/'' \<and> name \<noteq> []
            \<and> path = ''/'' @ name @ ''/'' @ suffix then Some name else None)"

lemma sample_router_matches: "router_matches sample_router"
proof -
  have tw: "takeWhile (\<lambda>c. c \<noteq> CHR ''/'') (x @ CHR ''/'' # y) = x" if "CHR ''/'' \<notin> set x" for x y
    using that by (induction x) auto
  have ns: "CHR ''/'' \<notin> set (takeWhile (\<lambda>c. c \<noteq> CHR ''/'') xs)" for xs by (auto dest: set_takeWhileD)
  show ?thesis
    unfolding router_matches_def sample_router_def Let_def using ns tw by auto
qed

theorem labels_match_routes_witness:
  "network_from_path ''/main/events'' = ''main'' \<and> endpoint_from_path ''/main/events'' = ''events''"
  using labels_match_routes [OF sample_router_matches, of "''/main/events''" "''GET''" Events "''main''"]
  by (simp add: dispatch_Some [OF sample_router_matches] takes_method_def)

text \<open>The links of the network root lead back to the network. For a configured network whose name is one
  path segment, the root answers with the three links, and each of them is routed, with the method of
  its endpoint, to that endpoint of the same network.\<close>

theorem root_links_route_back:
  assumes "router_matches path_param" and "app_networks state name = Some net"
    and "name \<noteq> []" and "CHR ''/'' \<notin> set name" and "CHR ''%'' \<notin> set name"
  shows "\<exists>resp members. network_root state name = Ok resp \<and> resp_status resp = 200
    \<and> resp_body resp = JsonBody (JObject members)
    \<and> (\<forall>h \<in> {Rpc, Events, Binary}. \<exists>link. obj_get (endpoint_label h) members = Some (JString link)
         \<and> dispatch path_param (endpoint_method h) link = Some (h, name))"
proof -
  have "dispatch path_param (endpoint_method h) (''/'' @ name @ ''/'' @ endpoint_suffix h) = Some (h, name)" for h
    using assms(3-5) by (cases h) (simp_all add: dispatch_Some [OF assms(1)] takes_method_def)
  from this [of Rpc] this [of Events] this [of Binary] show ?thesis
    by (simp add: network_root_def network_links_def obj_get_def get_network_def ok_or_def assms(2))
qed

theorem root_links_route_back_witness:
  "\<exists>resp members. network_root sample_state ''main'' = Ok resp \<and> resp_body resp = JsonBody (JObject members)
    \<and> (\<exists>link. obj_get ''rpc'' members = Some (JString link) \<and> dispatch sample_router ''POST'' link = Some (Rpc, ''main''))"
  using root_links_route_back [OF sample_router_matches sample_network] by force

end
