(* ===== verification/Exposition.thy ===== *)
theory Exposition
  imports Utf8 Handlers
begin

text \<open>
  The exposition endpoint of \<open>src/metrics.rs\<close>: \<open>AppMetrics::render\<close>, the router with the one path \<open>/metrics\<close>
  and its handler. Gathering the registry and the text encoder belong to the metrics library and are
  parameters; so are the path matching of the web framework and its response builder. The service on the
  public address (\<open>Handlers\<close>) and this one are separate routers, bound to separate addresses.
\<close>

section \<open>The library\<close>

text \<open>\<open>encode_families\<close> returns its result and the bytes it has written into the buffer by then.\<close>

record 'f exporter =
  gather :: "mlog \<Rightarrow> 'f"
  encode_families :: "'f \<Rightarrow> (unit, string) result \<times> bytes"

type_synonym builder = "(string \<times> string) list \<Rightarrow> body \<Rightarrow> (http_response, string) result"

section \<open>Rendering\<close>

definition render :: "'f exporter \<Rightarrow> mlog \<Rightarrow> text_string" where
  "render X log =
     (let (result, buffer) = encode_families X (gather X log)
      in case from_utf8 buffer of Some s \<Rightarrow> s | None \<Rightarrow> [])"

definition exposition_type :: "string \<times> string" where
  "exposition_type = (''content-type'', ''text/plain; version=0.0.4'')"

definition metrics_handler :: "builder \<Rightarrow> 'f exporter \<Rightarrow> mlog \<Rightarrow> http_response" where
  "metrics_handler build X log =
     (case build [exposition_type] (RawBody (as_bytes (render X log))) of
        Ok response \<Rightarrow> response
      | Err _ \<Rightarrow> \<lparr>resp_status = 200, resp_headers = [], resp_body = EmptyBody\<rparr>)"

text \<open>\<open>static_match pattern path\<close> is the match of a pattern without parameters; \<open>None\<close> is a request that has
  no handler.\<close>

definition metrics_routes :: "(string \<times> string) list" where
  "metrics_routes = [(''GET'', ''/metrics'')]"

text \<open>A GET route also takes HEAD requests and sends the response of its handler without the body.\<close>

definition metrics_router ::
  "(string \<Rightarrow> string \<Rightarrow> bool) \<Rightarrow> builder \<Rightarrow> 'f exporter \<Rightarrow> string \<Rightarrow> string \<Rightarrow> mlog \<Rightarrow> http_response option" where
  "metrics_router static_match build X meth path log =
     (if list_ex (\<lambda>(m, pat). takes_method m meth \<and> static_match pat path) metrics_routes
      then Some (without_body meth (metrics_handler build X log)) else None)"

section \<open>What the framework documents\<close>

definition header_ok :: "string \<times> string \<Rightarrow> bool" where
  "header_ok h \<longleftrightarrow> fst h \<noteq> []
     \<and> list_all (\<lambda>c. c = CHR ''-'' \<or> (97 \<le> (of_char c :: nat) \<and> (of_char c :: nat) \<le> 122)) (fst h)
     \<and> list_all (\<lambda>c. 32 \<le> (of_char c :: nat) \<and> (of_char c :: nat) < 127) (snd h)"

definition builder_documented :: "builder \<Rightarrow> bool" where
  "builder_documented build \<longleftrightarrow>
     (\<forall>hs b. list_all header_ok hs \<longrightarrow> build hs b = Ok \<lparr>resp_status = 200, resp_headers = hs, resp_body = b\<rparr>)"

definition static_documented :: "(string \<Rightarrow> string \<Rightarrow> bool) \<Rightarrow> bool" where
  "static_documented static_match \<longleftrightarrow>
     (\<forall>pat path. CHR ''{'' \<notin> set pat \<longrightarrow> (static_match pat path \<longleftrightarrow> path = pat))"

definition sample_builder :: builder where
  "sample_builder hs b =
     (if list_all header_ok hs then Ok \<lparr>resp_status = 200, resp_headers = hs, resp_body = b\<rparr> else Err ''invalid'')"

lemma sample_builder_documented: "builder_documented sample_builder"
  by (simp add: builder_documented_def sample_builder_def)

lemma static_equality: "static_documented (\<lambda>pat path. path = pat)"
  by (simp add: static_documented_def)

lemma header_ok_exposition: "header_ok exposition_type"
  by code_simp

lemma render_bytes:
  "as_bytes (render X log) = (let buffer = snd (encode_families X (gather X log))
     in if from_utf8 buffer = None then [] else buffer)"
proof (cases "from_utf8 (snd (encode_families X (gather X log)))")
  case (Some s)
  then have "as_bytes s = snd (encode_families X (gather X log))" by (simp add: from_utf8_iff)
  then show ?thesis by (simp add: render_def case_prod_unfold Some)
qed (simp add: render_def case_prod_unfold as_bytes_def)

section \<open>Properties\<close>

text \<open>C39: \<open>GET /metrics\<close> and \<open>HEAD /metrics\<close>, and no other request, are answered, with status 200 and the
  content type of the text format. The body for GET is the encoder's output byte for byte when that is the
  encoding of a text, also when the encoder reports an error after writing it, and is empty otherwise; it
  always decodes as UTF-8. So the detour over a \<open>String\<close> loses nothing. HEAD has the same status and content
  type and no body.\<close>

theorem metrics_exposition:
  assumes "static_documented static_match" and "builder_documented build"
  shows "metrics_router static_match build X meth path log =
    (if meth \<in> {''GET'', ''HEAD''} \<and> path = ''/metrics''
     then Some \<lparr>resp_status = 200, resp_headers = [(''content-type'', ''text/plain; version=0.0.4'')],
                resp_body =
                  if meth = ''HEAD'' then EmptyBody
                  else RawBody (let buffer = snd (encode_families X (gather X log))
                                in if \<exists>s. list_all scalar s \<and> as_bytes s = buffer then buffer else [])\<rparr>
     else None)
   \<and> from_utf8 (as_bytes (render X log)) = Some (render X log)"
proof -
  have routed: "list_ex (\<lambda>(m, pat). takes_method m meth \<and> static_match pat path) metrics_routes \<longleftrightarrow>
      meth \<in> {''GET'', ''HEAD''} \<and> path = ''/metrics''"
    using assms(1) by (auto simp: static_documented_def metrics_routes_def takes_method_def)
  have "metrics_handler build X log =
      \<lparr>resp_status = 200, resp_headers = [exposition_type], resp_body = RawBody (as_bytes (render X log))\<rparr>"
    using assms(2) header_ok_exposition by (simp add: metrics_handler_def builder_documented_def)
  moreover have "from_utf8 buffer = None \<longleftrightarrow> \<not> (\<exists>s. list_all scalar s \<and> as_bytes s = buffer)" for buffer
    by (metis from_utf8_iff not_None_eq)
  moreover have "list_all scalar (render X log)"
    by (auto simp: render_def Let_def case_prod_unfold from_utf8_iff split: option.split)
  ultimately show ?thesis
    by (simp add: metrics_router_def routed render_bytes Let_def exposition_type_def from_utf8_iff without_body_def)
       (auto simp: render_def from_utf8_iff)
qed

text \<open>An encoder that writes a two-byte character and fails after it.\<close>

definition sample_exporter :: "nat exporter" where
  "sample_exporter = \<lparr>gather = length, encode_families = (\<lambda>n. (Err ''late'', [0xC3, 0xA9, 0x20, 0x31]))\<rparr>"

theorem metrics_exposition_witness:
  "metrics_router (\<lambda>pat path. path = pat) sample_builder sample_exporter ''GET'' ''/metrics'' []
     = Some \<lparr>resp_status = 200, resp_headers = [(''content-type'', ''text/plain; version=0.0.4'')],
             resp_body = RawBody [0xC3, 0xA9, 0x20, 0x31]\<rparr>
   \<and> map_option resp_body (metrics_router (\<lambda>pat path. path = pat) sample_builder sample_exporter ''HEAD'' ''/metrics'' [])
     = Some EmptyBody
   \<and> metrics_router (\<lambda>pat path. path = pat) sample_builder sample_exporter ''POST'' ''/metrics'' [] = None"
proof -
  have "from_utf8 [0xC3, 0xA9, 0x20, 0x31] = Some [233, 32, 49]" by code_simp
  then have "\<exists>s. list_all scalar s \<and> as_bytes s = [0xC3, 0xA9, 0x20, 0x31]" unfolding from_utf8_iff by blast
  then show ?thesis
    using metrics_exposition [OF static_equality sample_builder_documented, of sample_exporter "''GET''" "''/metrics''" "[]"]
      metrics_exposition [OF static_equality sample_builder_documented, of sample_exporter "''POST''" "''/metrics''" "[]"]
      metrics_exposition [OF static_equality sample_builder_documented, of sample_exporter "''HEAD''" "''/metrics''" "[]"]
    by (simp add: sample_exporter_def)
qed

text \<open>The metrics are not reachable through the public service, nor the networks through the metrics
  service: no method on \<open>/metrics\<close> has a handler on the public router, and no request the public router
  hands to a handler has one on the metrics router.\<close>

theorem routers_disjoint:
  assumes "router_matches path_param" and "static_documented static_match" and "CHR ''%'' \<notin> set path"
  shows "dispatch path_param meth ''/metrics'' = None
    \<and> (dispatch path_param meth path = None \<or> metrics_router static_match build X meth path log = None)"
proof -
  have none: "dispatch path_param meth ''/metrics'' = None"
  proof (rule ccontr)
    assume "dispatch path_param meth ''/metrics'' \<noteq> None"
    then obtain h name where "dispatch path_param meth ''/metrics'' = Some (h, name)" by auto
    then have "''/metrics'' = ''/'' @ name @ ''/'' @ endpoint_suffix h" "CHR ''/'' \<notin> set name"
      using dispatch_Some [OF assms(1)] by auto
    then have "CHR ''/'' \<in> set ''metrics''" by (metis append_Cons append_Nil in_set_conv_decomp list.inject)
    then show False by simp
  qed
  moreover have "metrics_router static_match build X meth path log = None \<or> path = ''/metrics''"
    using assms(2) by (auto simp: metrics_router_def metrics_routes_def static_documented_def)
  ultimately show ?thesis by auto
qed

theorem routers_disjoint_witness:
  "dispatch sample_router ''GET'' ''/metrics'' = None
   \<and> metrics_router (\<lambda>pat path. path = pat) sample_builder sample_exporter ''GET'' ''/metrics/'' [] = None"
proof -
  have "dispatch sample_router ''GET'' ''/metrics/'' = Some (NetworkRoot, ''metrics'')"
    by (simp add: dispatch_Some [OF sample_router_matches] takes_method_def)
  then show ?thesis
    using routers_disjoint [OF sample_router_matches static_equality, of "''/metrics/''" "''GET''" sample_builder
        sample_exporter "[]"] by simp
qed

end
