(* ===== verification/Config.thy ===== *)
theory Config
  imports Prelude
begin

text \<open>
  \<open>src/config.rs\<close>: the configuration read from environment variables. The environment is the
  function \<open>env\<close> (\<open>None\<close> for a variable that is unset or not unicode, where \<open>env::var\<close> is an
  error).
\<close>

type_synonym env = "string \<Rightarrow> string option"

record AppConfig =
  database_url :: string
  listen_addr :: string
  metrics_listen_addr :: string
  rate_limit_per_min :: u32
  rate_limit_burst :: u32
  binary_rate_limit_per_min :: u32
  binary_rate_limit_burst :: u32
  sse_broadcast_capacity :: usize
  sse_backlog_limit :: usize
  binary_pool_size :: usize

definition env_string :: "env \<Rightarrow> string \<Rightarrow> string \<Rightarrow> string" where
  "env_string env key def = (case env key of Some v \<Rightarrow> v | None \<Rightarrow> def)"

definition parse_u32 :: "string \<Rightarrow> u32 option" where
  "parse_u32 s = map_option word_of_nat (parse_unsigned (2 ^ 32) s)"

definition parse_usize :: "string \<Rightarrow> usize option" where
  "parse_usize s = map_option word_of_nat (parse_unsigned (2 ^ 64) s)"

definition env_u32 :: "env \<Rightarrow> string \<Rightarrow> u32 \<Rightarrow> u32" where
  "env_u32 env key def =
     (case Option.bind (env key) parse_u32 of Some v \<Rightarrow> v | None \<Rightarrow> def)"

definition env_usize :: "env \<Rightarrow> string \<Rightarrow> usize \<Rightarrow> usize" where
  "env_usize env key def =
     (case Option.bind (env key) parse_usize of Some v \<Rightarrow> v | None \<Rightarrow> def)"

definition from_env :: "env \<Rightarrow> AppConfig" where
  "from_env env =
     (let per_min = env_u32 env ''RATE_LIMIT_PER_MIN'' 60;
          burst = env_u32 env ''RATE_LIMIT_BURST'' 20
      in \<lparr>database_url = env_string env ''DATABASE_URL'' ''sqlite://./db.sqlite'',
          listen_addr = env_string env ''BIND_ADDR'' ''0.0.0.0:8080'',
          metrics_listen_addr = env_string env ''METRICS_BIND_ADDR'' ''127.0.0.1:9090'',
          rate_limit_per_min = per_min,
          rate_limit_burst = burst,
          binary_rate_limit_per_min = env_u32 env ''BINARY_RATE_LIMIT_PER_MIN'' per_min,
          binary_rate_limit_burst = env_u32 env ''BINARY_RATE_LIMIT_BURST'' burst,
          sse_broadcast_capacity = env_usize env ''SSE_BROADCAST_CAPACITY'' 256,
          sse_backlog_limit = env_usize env ''SSE_BACKLOG_LIMIT'' 16384,
          binary_pool_size = env_usize env ''BINARY_POOL_SIZE'' 4\<rparr>)"

section \<open>Properties\<close>

lemma parse_u32_dec_string: "parse_u32 (dec_string (unat x)) = Some x"
proof -
  have "unat x < 2 ^ 32" using unsigned_less [of x] by simp
  then show ?thesis by (simp add: parse_u32_def parse_unsigned_dec_string)
qed

lemma parse_usize_dec_string: "parse_usize (dec_string (unat x)) = Some x"
proof -
  have "unat x < 2 ^ 64" using unsigned_less [of x] by simp
  then show ?thesis by (simp add: parse_usize_def parse_unsigned_dec_string)
qed

text \<open>Every numeric variable goes through the same reader: a contract with two instances.\<close>

locale env_reader =
  fixes read :: "env \<Rightarrow> string \<Rightarrow> 'n \<Rightarrow> 'n"
    and parse :: "string \<Rightarrow> 'n option"
    and print :: "'n \<Rightarrow> string"
  assumes read_parse: "read env key def = (case Option.bind (env key) parse of Some v \<Rightarrow> v | None \<Rightarrow> def)"
    and parse_print: "parse (print n) = Some n"
begin

lemma read_printed: "env key = Some (print n) \<Longrightarrow> read env key def = n"
  by (simp add: read_parse parse_print)

lemma read_unset: "env key = None \<Longrightarrow> read env key def = def"
  by (simp add: read_parse)

lemma read_malformed: "env key = Some s \<Longrightarrow> parse s = None \<Longrightarrow> read env key def = def"
  by (simp add: read_parse)

end

interpretation u32_env: env_reader env_u32 parse_u32 "\<lambda>n. dec_string (unat n)"
  by unfold_locales (simp_all add: env_u32_def parse_u32_dec_string)

interpretation usize_env: env_reader env_usize parse_usize "\<lambda>n. dec_string (unat n)"
  by unfold_locales (simp_all add: env_usize_def parse_usize_dec_string)

text \<open>A variable that is unset, or set to the decimal text of a number.\<close>

definition written :: "'a::len word option \<Rightarrow> string option" where
  "written n = map_option (\<lambda>n. dec_string (unat n)) n"

lemma read_written [simp]:
  "env key = written n \<Longrightarrow> env_u32 env key def = (case n of Some n \<Rightarrow> n | None \<Rightarrow> def)"
  "env key = written m \<Longrightarrow> env_usize env key def' = (case m of Some m \<Rightarrow> m | None \<Rightarrow> def')"
  by (cases n; simp add: written_def u32_env.read_printed u32_env.read_unset)
     (cases m; simp add: written_def usize_env.read_printed usize_env.read_unset)

text \<open>C36: every numeric setting is read from its own variable. Each of the seven, written in decimal at any
  value of its type, is read back exactly; left unset it is its default, which for the two binary-port
  limits is the HTTP limit of the same configuration, set or not.\<close>

theorem from_env_reads_back:
  assumes "env ''RATE_LIMIT_PER_MIN'' = written p" and "env ''RATE_LIMIT_BURST'' = written b"
    and "env ''BINARY_RATE_LIMIT_PER_MIN'' = written bp" and "env ''BINARY_RATE_LIMIT_BURST'' = written bb"
    and "env ''SSE_BROADCAST_CAPACITY'' = written c" and "env ''SSE_BACKLOG_LIMIT'' = written l"
    and "env ''BINARY_POOL_SIZE'' = written s"
  shows "rate_limit_per_min (from_env env) = (case p of Some n \<Rightarrow> n | None \<Rightarrow> 60)
    \<and> rate_limit_burst (from_env env) = (case b of Some n \<Rightarrow> n | None \<Rightarrow> 20)
    \<and> binary_rate_limit_per_min (from_env env) = (case bp of Some n \<Rightarrow> n | None \<Rightarrow> (case p of Some n \<Rightarrow> n | None \<Rightarrow> 60))
    \<and> binary_rate_limit_burst (from_env env) = (case bb of Some n \<Rightarrow> n | None \<Rightarrow> (case b of Some n \<Rightarrow> n | None \<Rightarrow> 20))
    \<and> sse_broadcast_capacity (from_env env) = (case c of Some n \<Rightarrow> n | None \<Rightarrow> 256)
    \<and> sse_backlog_limit (from_env env) = (case l of Some n \<Rightarrow> n | None \<Rightarrow> 16384)
    \<and> binary_pool_size (from_env env) = (case s of Some n \<Rightarrow> n | None \<Rightarrow> 4)"
  using assms by (simp add: from_env_def Let_def)

definition sample_settings :: env where
  "sample_settings = map_of [(''RATE_LIMIT_PER_MIN'', ''4294967295''), (''RATE_LIMIT_BURST'', ''0''),
     (''BINARY_RATE_LIMIT_BURST'', ''8''), (''SSE_BACKLOG_LIMIT'', ''18446744073709551615''), (''BINARY_POOL_SIZE'', ''8'')]"

theorem from_env_reads_back_witness:
  "rate_limit_per_min (from_env sample_settings) = 4294967295 \<and> rate_limit_burst (from_env sample_settings) = 0
   \<and> binary_rate_limit_per_min (from_env sample_settings) = 4294967295
   \<and> binary_rate_limit_burst (from_env sample_settings) = 8 \<and> sse_broadcast_capacity (from_env sample_settings) = 256
   \<and> sse_backlog_limit (from_env sample_settings) = 18446744073709551615 \<and> binary_pool_size (from_env sample_settings) = 8"
proof -
  have d: "dec_string 4294967295 = ''4294967295''" "dec_string 0 = ''0''"
    "dec_string 18446744073709551615 = ''18446744073709551615''" "dec_string 8 = ''8''"
    by (simp_all add: dec_string.simps digit_char_def char_of_def bit_0)
  have "sample_settings ''RATE_LIMIT_PER_MIN'' = written (Some (4294967295 :: u32))"
    "sample_settings ''RATE_LIMIT_BURST'' = written (Some (0 :: u32))"
    "sample_settings ''BINARY_RATE_LIMIT_PER_MIN'' = written (None :: u32 option)"
    "sample_settings ''BINARY_RATE_LIMIT_BURST'' = written (Some (8 :: u32))"
    "sample_settings ''SSE_BROADCAST_CAPACITY'' = written (None :: usize option)"
    "sample_settings ''SSE_BACKLOG_LIMIT'' = written (Some (18446744073709551615 :: usize))"
    "sample_settings ''BINARY_POOL_SIZE'' = written (Some (8 :: usize))"
    by (simp_all add: sample_settings_def written_def d)
  from from_env_reads_back [OF this] show ?thesis by simp
qed

text \<open>A variable that is missing or does not parse as the type leaves the documented default: an
  empty environment gives the defaults, and a value past the width of the type, with a sign or with
  any other character is ignored rather than truncated.\<close>

theorem from_env_defaults:
  assumes "\<And>key s. env key = Some s \<Longrightarrow> parse_unsigned (2 ^ 32) s = None \<and> parse_unsigned (2 ^ 64) s = None"
  shows "rate_limit_per_min (from_env env) = 60 \<and> rate_limit_burst (from_env env) = 20
    \<and> binary_rate_limit_per_min (from_env env) = 60 \<and> binary_rate_limit_burst (from_env env) = 20
    \<and> sse_broadcast_capacity (from_env env) = 256 \<and> sse_backlog_limit (from_env env) = 16384
    \<and> binary_pool_size (from_env env) = 4"
proof -
  have "env_u32 env key def = def" "env_usize env key n = n" for key def n
    using assms by (cases "env key"; auto simp: env_u32_def env_usize_def parse_u32_def parse_usize_def)+
  then show ?thesis by (simp add: from_env_def Let_def)
qed

theorem from_env_defaults_witness:
  "let env = (\<lambda>k. map_of [(''RATE_LIMIT_PER_MIN'', ''18446744073709551616''), (''RATE_LIMIT_BURST'', ''-1''),
        (''BINARY_POOL_SIZE'', ''four''), (''SSE_BACKLOG_LIMIT'', ''+'')] k)
   in rate_limit_per_min (from_env env) = 60 \<and> rate_limit_burst (from_env env) = 20
    \<and> binary_rate_limit_per_min (from_env env) = 60 \<and> binary_rate_limit_burst (from_env env) = 20
    \<and> sse_broadcast_capacity (from_env env) = 256 \<and> sse_backlog_limit (from_env env) = 16384
    \<and> binary_pool_size (from_env env) = 4"
  unfolding Let_def
  by (rule from_env_defaults)
     (auto simp: parse_unsigned_def digit_val_def split: if_splits)

end
