(* ===== verification/App.thy ===== *)
theory App
  imports Config Rate_Limit App_State Binary_Send
begin

text \<open>
  \<open>src/lib.rs\<close> and \<open>src/main.rs\<close>: what the two subcommands do, in order and with every early return. The
  listeners that are spawned are recorded, with the network and the endpoint they are given; what a
  listener does is \<open>Sse_Listener\<close>. Building the HTTP client, binding sockets and serving are parameters.
  Initialising the log output and the warnings are not modelled.
\<close>

section \<open>The entry points\<close>

record 'w host =
  build_rpc_client :: "(unit, string) result"
  tcp_bind :: "string \<Rightarrow> ('w, unit, string) action"
  listener_addr :: "string \<Rightarrow> ('w, string, string) action"
  serve :: "('w, unit, string) action"

datatype app_error = Panicked string | DatabaseError db_error | RpcClientError string | IoFailed string

datatype Command = Start | Migrate

record 's service =
  svc_state :: "'s AppState"
  svc_http_quota :: Quota

record 's run_report =
  run_result :: "(unit, app_error) result"
  run_service :: "'s service option"
  run_listeners :: "(string \<times> string) list"
  run_log :: mlog

definition migrate ::
  "prometheus \<Rightarrow> ('w, 'p, 'c) diesel \<Rightarrow> env \<Rightarrow> 'w \<Rightarrow> (unit, app_error) result \<times> mlog \<times> 'w" where
  "migrate Pm D env w =
     (let config = from_env env
      in case AppMetrics_new Pm of
           Err panic \<Rightarrow> (Err (Panicked panic), [], w)
         | Ok _ \<Rightarrow>
             (case init_pool D (database_url config) of
                Err e \<Rightarrow> (Err (DatabaseError e), [], w)
              | Ok pool \<Rightarrow>
                  (case run_migrations D pool [] w of
                     (Err e, log, w) \<Rightarrow> (Err (DatabaseError e), log, w)
                   | (Ok _, log, w) \<Rightarrow> (Ok (), log, w))))"

text \<open>The loop over the configured networks (lines 60 to 89). A constructor that panics ends it.\<close>

fun build_networks ::
  "AppConfig \<Rightarrow> NetworkConfig list \<Rightarrow> (string \<Rightarrow> 's NetworkState option) \<times> (string \<times> string) list \<times> mlog
     \<Rightarrow> ((string \<Rightarrow> 's NetworkState option), string) result \<times> (string \<times> string) list \<times> mlog" where
  "build_networks config [] (networks, listeners, log) = (Ok networks, listeners, log)"
| "build_networks config (cfg # cfgs) (networks, listeners, log) =
     (case EventBus_new (nc_network_name cfg) (sse_backlog_limit config) (sse_broadcast_capacity config) True log of
        (Err panic, log) \<Rightarrow> (Err panic, listeners, log)
      | (Ok events, log) \<Rightarrow>
          (case BinaryPool_new (nc_network_name cfg) (nc_binary cfg) (binary_pool_size config) of
             Err panic \<Rightarrow> (Err panic, listeners, log)
           | Ok binary_pool \<Rightarrow>
               (let state = \<lparr>net_config = cfg, net_events = events, net_binary_pool = binary_pool\<rparr>
                in build_networks config cfgs
                     (networks(nc_network_name cfg \<mapsto> state), listeners @ [(nc_network_name cfg, nc_sse cfg)], log))))"

text \<open>From the loaded networks to the end of the server (lines 60 to 134).\<close>

definition start_service ::
  "governor \<Rightarrow> 'w host \<Rightarrow> AppConfig \<Rightarrow> NetworkConfig list \<Rightarrow> mlog \<Rightarrow> 'w \<Rightarrow> 's run_report \<times> 'w" where
  "start_service G H config cfgs log w =
     (case build_networks config cfgs (Map.empty, [], log) of
        (built, listeners, log) \<Rightarrow>
          (let stop = (\<lambda>r w. (\<lparr>run_result = Err r, run_service = None, run_listeners = listeners, run_log = log\<rparr>, w))
           in case built of
                Err panic \<Rightarrow> stop (Panicked panic) w
              | Ok network_map \<Rightarrow>
           (case build_rpc_client H of
                Err err \<Rightarrow> stop (RpcClientError (''failed to build RPC client: '' @ err)) w
              | Ok _ \<Rightarrow>
                  (let app_state = \<lparr>app_networks = network_map,
                         app_binary_rate_limit_per_min = binary_rate_limit_per_min config,
                         app_binary_rate_limit_burst = binary_rate_limit_burst config\<rparr>
                   in case rate_limit_layer G (rate_limit_per_min config) (rate_limit_burst config) of
                        Err panic \<Rightarrow> stop (Panicked panic) w
                      | Ok quota \<Rightarrow>
                          (case tcp_bind H (metrics_listen_addr config) w of
                             (Err e, w) \<Rightarrow> stop (IoFailed e) w
                           | (Ok _, w) \<Rightarrow>
                               (case listener_addr H (metrics_listen_addr config) w of
                                  (Err e, w) \<Rightarrow> stop (IoFailed e) w
                                | (Ok _, w) \<Rightarrow>
                                    (case tcp_bind H (listen_addr config) w of
                                       (Err e, w) \<Rightarrow> stop (IoFailed e) w
                                     | (Ok _, w) \<Rightarrow>
                                         (case serve H w of
                                            (r, w) \<Rightarrow>
                                              (\<lparr>run_result = map_err IoFailed r,
                                                run_service = Some \<lparr>svc_state = app_state, svc_http_quota = quota\<rparr>,
                                                run_listeners = listeners, run_log = log\<rparr>, w)))))))))"

definition run ::
  "prometheus \<Rightarrow> ('w, 'p, 'c) diesel \<Rightarrow> governor \<Rightarrow> 'w host \<Rightarrow> env \<Rightarrow> 'w \<Rightarrow> 's run_report \<times> 'w" where
  "run Pm D G H env w =
     (let config = from_env env;
          stop = (\<lambda>r log w. (\<lparr>run_result = Err r, run_service = None, run_listeners = [], run_log = log\<rparr>, w))
      in case AppMetrics_new Pm of
           Err panic \<Rightarrow> stop (Panicked panic) [] w
         | Ok _ \<Rightarrow>
             (case init_pool D (database_url config) of
                Err e \<Rightarrow> stop (DatabaseError e) [] w
              | Ok pool \<Rightarrow>
                  (case run_migrations D pool [] w of
                     (Err e, log, w) \<Rightarrow> stop (DatabaseError e) log w
                   | (Ok _, log, w) \<Rightarrow>
                       (let log = spawn_pool_metrics D pool w [] log
                        in case load_networks D pool log w of
                             (Err e, log, w) \<Rightarrow> stop (DatabaseError e) log w
                           | (Ok networks, log, w) \<Rightarrow> start_service G H config networks log w))))"

definition main ::
  "prometheus \<Rightarrow> ('w, 'p, 'c) diesel \<Rightarrow> governor \<Rightarrow> 'w host \<Rightarrow> env \<Rightarrow> Command option \<Rightarrow> 'w
     \<Rightarrow> (unit, app_error) result \<times> 'w" where
  "main Pm D G H env command w =
     (case (case command of Some c \<Rightarrow> c | None \<Rightarrow> Start) of
        Start \<Rightarrow> (case run Pm D G H env w of (report, w) \<Rightarrow> (run_result (report :: unit run_report), w))
      | Migrate \<Rightarrow> (case migrate Pm D env w of (r, log, w) \<Rightarrow> (r, w)))"

section \<open>The networks that are built\<close>

text \<open>The state of a network that has just been configured.\<close>

definition fresh_network :: "AppConfig \<Rightarrow> NetworkConfig \<Rightarrow> 's NetworkState" where
  "fresh_network config cfg =
     \<lparr>net_config = cfg,
      net_events = fresh_bus (nc_network_name cfg) (sse_backlog_limit config) (sse_broadcast_capacity config) True,
      net_binary_pool = fresh_pool (nc_network_name cfg) (nc_binary cfg) (binary_pool_size config)\<rparr>"

text \<open>The sizes for which no constructor panics; one round of the loop.\<close>

definition sizes_fit :: "AppConfig \<Rightarrow> bool" where
  "sizes_fit config \<longleftrightarrow> \<not> channel_panics (max (sse_broadcast_capacity config) 1)
     \<and> \<not> semaphore_panics (max (binary_pool_size config) 1)"

lemma build_networks_Cons:
  obtains (built) log1 where "sizes_fit config"
      "build_networks config (cfg # cfgs) (networks, listeners, log) = build_networks config cfgs
         (networks(nc_network_name cfg \<mapsto> (fresh_network config cfg :: 's NetworkState)),
          listeners @ [(nc_network_name cfg, nc_sse cfg)], log1)"
      "log1 = snd (EventBus_new (nc_network_name cfg) (sse_backlog_limit config) (sse_broadcast_capacity config) True log)"
  | (panicked) panic log1 where "\<not> sizes_fit config"
      "build_networks config (cfg # cfgs) (networks :: string \<Rightarrow> 's NetworkState option, listeners, log) = (Err panic, listeners, log1)"
      "log1 = snd (EventBus_new (nc_network_name cfg) (sse_backlog_limit config) (sse_broadcast_capacity config) True log)"
  by (cases "channel_panics (max (sse_broadcast_capacity config) 1)"; cases "semaphore_panics (max (binary_pool_size config) 1)")
     (auto simp: sizes_fit_def EventBus_new_def BinaryPool_new_def fresh_network_def Let_def)

lemma build_networks_spec:
  assumes "build_networks config cfgs (networks, listeners, log) = (built, listeners', log')"
  shows "(\<forall>networks'. built = Ok networks' \<longrightarrow>
        listeners' = listeners @ map (\<lambda>c. (nc_network_name c, nc_sse c)) cfgs
        \<and> (distinct (map nc_network_name cfgs) \<longrightarrow>
             networks' = networks ++ map_of (map (\<lambda>c. (nc_network_name c, fresh_network config c)) cfgs)))
    \<and> (log_ok log' \<longleftrightarrow> log_ok log)"
  using assms
proof (induction cfgs arbitrary: networks listeners log)
  case (Cons cfg cfgs)
  show ?case
  proof (cases rule: build_networks_Cons [of config cfg cfgs networks listeners log])
    case (built log1)
    from Cons.prems have "build_networks config cfgs (networks(nc_network_name cfg \<mapsto> fresh_network config cfg),
        listeners @ [(nc_network_name cfg, nc_sse cfg)], log1) = (built, listeners', log')"
      by (simp only: built)
    note IH = Cons.IH [OF this]
    have maps: "networks' = networks ++ map_of (map (\<lambda>c. (nc_network_name c, fresh_network config c)) (cfg # cfgs))"
      if d: "distinct (map nc_network_name (cfg # cfgs))" and n: "built = Ok networks'" for networks'
    proof -
      have "nc_network_name cfg \<notin> dom (map_of (map (\<lambda>c. (nc_network_name c, fresh_network config c :: 'a NetworkState)) cfgs))"
        using d by (simp add: dom_map_of_conv_image_fst image_image)
      note upd = map_add_upd_left [OF this, of networks "fresh_network config cfg"]
      have "networks' = networks(nc_network_name cfg \<mapsto> fresh_network config cfg)
          ++ map_of (map (\<lambda>c. (nc_network_name c, fresh_network config c)) cfgs)"
        using spec [OF conjunct1 [OF IH], THEN mp, OF n] d
        by (elim conjE) (drule mp, simp_all only: list.map distinct.simps)
      then show ?thesis unfolding upd by simp
    qed
    have "log_ok log' \<longleftrightarrow> log_ok log" using conjunct2 [OF IH] by (simp add: built(3))
    moreover have "listeners' = listeners @ map (\<lambda>c. (nc_network_name c, nc_sse c)) (cfg # cfgs)"
      if "built = Ok networks'" for networks' using conjunct1 [OF IH] that by simp
    ultimately show ?thesis using maps by blast
  next
    case (panicked panic log1)
    then show ?thesis using Cons.prems by auto
  qed
qed auto

lemma spawn_pool_metrics_ok: "log_ok (spawn_pool_metrics D pool w [] log) \<longleftrightarrow> log_ok log"
  by (cases pool) (simp_all add: spawn_pool_metrics_inner_def update_pool_metrics_def case_prod_unfold Let_def)

lemma run_migrations_ok: "run_migrations D pool log w = (r, log', w') \<Longrightarrow> log_ok log' \<longleftrightarrow> log_ok log"
  by (auto simp: run_migrations_def Let_def split: prod.splits result.splits)

lemma load_networks_ok: "load_networks D pool log w = (r, log', w') \<Longrightarrow> log_ok log' \<longleftrightarrow> log_ok log"
  by (auto simp: load_networks_def Let_def split: prod.splits result.splits)

lemma run_reaches_service:
  assumes "run Pm D G H env w = (report, w')" and "run_service report = Some svc"
  obtains cfgs pool log0 w0 log1 w1 where "load_networks D pool log0 w0 = (Ok cfgs, log1, w1)"
    "start_service G H (from_env env) cfgs log1 w1 = (report, w')" "log_ok log1"
proof -
  from assms obtain pool log2 w2 where m: "run_migrations D pool [] w = (Ok (), log2, w2)"
    and rest: "(case load_networks D pool (spawn_pool_metrics D pool w2 [] log2) w2 of
        (Err e, log, w) \<Rightarrow> (\<lparr>run_result = Err (DatabaseError e), run_service = None, run_listeners = [], run_log = log\<rparr>, w)
      | (Ok networks, log, w) \<Rightarrow> start_service G H (from_env env) networks log w) = (report, w')"
    by (auto simp: run_def Let_def split: result.splits prod.splits)
  obtain r log1 w1 where l: "load_networks D pool (spawn_pool_metrics D pool w2 [] log2) w2 = (r, log1, w1)"
    by (metis prod_cases3)
  have ok: "log_ok log1"
    using load_networks_ok [OF l] run_migrations_ok [OF m] by (simp add: spawn_pool_metrics_ok)
  show thesis
  proof (cases r)
    case (Ok cfgs)
    then have l': "load_networks D pool (spawn_pool_metrics D pool w2 [] log2) w2 = (Ok cfgs, log1, w1)" using l by simp
    show thesis by (rule that [OF l' _ ok]) (use rest l' in simp)
  next
    case (Err e)
    then show thesis using rest l assms(2) by auto
  qed
qed

lemma listener_endpoints:
  assumes "distinct (map nc_network_name cfgs) \<and> nc_network_name ` set cfgs = cr_network_name ` set rows
    \<and> (\<forall>c \<in> set cfgs. \<exists>n r. n \<in> set nets \<and> r \<in> set rows \<and> c = from_rows n r
         \<and> nr_network_name n = cr_network_name r)"
    and "distinct (map cr_network_name rows)"
  shows "(\<lambda>c. (nc_network_name c, nc_sse c)) ` set cfgs = (\<lambda>r. (cr_network_name r, cr_sse r)) ` set rows"
proof (rule set_eqI, rule iffI)
  fix x
  assume "x \<in> (\<lambda>c. (nc_network_name c, nc_sse c)) ` set cfgs"
  then show "x \<in> (\<lambda>r. (cr_network_name r, cr_sse r)) ` set rows"
    using assms(1) by (force simp: from_rows_def)
next
  fix x
  assume "x \<in> (\<lambda>r. (cr_network_name r, cr_sse r)) ` set rows"
  then obtain r where r: "r \<in> set rows" "x = (cr_network_name r, cr_sse r)" by blast
  then obtain c where c: "c \<in> set cfgs" "nc_network_name c = cr_network_name r"
    using assms(1) by (metis (no_types, lifting) image_iff)
  then obtain n r' where r': "r' \<in> set rows" "c = from_rows n r'" "nr_network_name n = cr_network_name r'"
    using assms(1) by blast
  then have "r' = r" using distinct_map_eq [OF assms(2)] r c by (simp add: from_rows_def)
  then show "x \<in> (\<lambda>c. (nc_network_name c, nc_sse c)) ` set cfgs"
    using c r r' by (force simp: from_rows_def)
qed

lemma fresh_network_ok:
  "bus_inv (net_events (fresh_network config cfg))"
  "bus_sent (net_events (fresh_network config cfg)) = []"
  "api_version (net_events (fresh_network config cfg)) = None"
  "capacity (net_binary_pool (fresh_network config cfg)) = unat (max (binary_pool_size config) 1)"
proof -
  show "bus_inv (net_events (fresh_network config cfg))" by (simp add: fresh_network_def fresh_bus_inv)
qed (simp_all add: fresh_network_def fresh_bus_def api_version_def capacity_def fresh_pool_def)

lemma start_service_built:
  assumes "start_service G H config cfgs log w = (report, w')"
  shows "\<exists>built. build_networks config cfgs (Map.empty, [], log) = (built, run_listeners report, run_log report)
    \<and> (\<forall>svc. run_service report = Some svc \<longrightarrow>
        built = Ok (app_networks (svc_state svc))
        \<and> app_binary_rate_limit_per_min (svc_state svc) = binary_rate_limit_per_min config
        \<and> app_binary_rate_limit_burst (svc_state svc) = binary_rate_limit_burst config)"
  using assms
  by (auto simp: start_service_def Let_def split: prod.splits result.splits)

text \<open>The networks of a service that got to serving, and the state of each.\<close>

lemma run_built:
  assumes "schema_ok nets rows" and "\<And>conn w. fst (load_inner_join D conn w) = Ok joined"
    and "inner_join_of nets rows joined"
    and "run Pm D G H env w = (report, w')" and "run_service report = Some svc"
  obtains cfgs where
    "distinct (map nc_network_name cfgs) \<and> nc_network_name ` set cfgs = cr_network_name ` set rows
     \<and> (\<forall>c \<in> set cfgs. \<exists>n r. n \<in> set nets \<and> r \<in> set rows \<and> c = from_rows n r
          \<and> nr_network_name n = cr_network_name r)"
    "app_networks (svc_state svc) = map_of (map (\<lambda>c. (nc_network_name c, fresh_network (from_env env) c)) cfgs)"
    "run_listeners report = map (\<lambda>c. (nc_network_name c, nc_sse c)) cfgs" "log_ok (run_log report)"
proof -
  obtain cfgs pool log0 w0 log1 w1 where l: "load_networks D pool log0 w0 = (Ok cfgs, log1, w1)"
    and s: "start_service G H (from_env env) cfgs log1 w1 = (report, w')" and ok: "log_ok log1"
    using assms(4,5) by (rule run_reaches_service)
  note rows = load_networks_rows [OF assms(1-3) l]
  from start_service_built [OF s] assms(5) have
    b: "build_networks (from_env env) cfgs (Map.empty, [], log1) = (Ok (app_networks (svc_state svc)), run_listeners report, run_log report)"
    by blast
  show thesis by (rule that [OF rows]) (use build_networks_spec [OF b] rows ok in simp_all)
qed

lemma run_network_map:
  assumes "schema_ok nets rows" and "\<And>conn w. fst (load_inner_join D conn w) = Ok joined"
    and "inner_join_of nets rows joined"
    and "run Pm D G H env w = (report, w')" and "run_service report = Some svc"
  shows "dom (app_networks (svc_state svc)) = cr_network_name ` set rows"
    and "app_networks (svc_state svc) name = Some net \<Longrightarrow>
      (\<exists>n r. n \<in> set nets \<and> r \<in> set rows \<and> net_config net = from_rows n r
        \<and> nr_network_name n = name \<and> cr_network_name r = name)
      \<and> bus_inv (net_events net) \<and> bus_sent (net_events net) = []
      \<and> capacity (net_binary_pool net) = unat (max (binary_pool_size (from_env env)) 1)"
proof -
  obtain cfgs where rows: "distinct (map nc_network_name cfgs) \<and> nc_network_name ` set cfgs = cr_network_name ` set rows
     \<and> (\<forall>c \<in> set cfgs. \<exists>n r. n \<in> set nets \<and> r \<in> set rows \<and> c = from_rows n r
          \<and> nr_network_name n = cr_network_name r)"
    and m: "app_networks (svc_state svc) = map_of (map (\<lambda>c. (nc_network_name c, fresh_network (from_env env) c)) cfgs)"
    using run_built [OF assms] .
  show "dom (app_networks (svc_state svc)) = cr_network_name ` set rows"
    using rows by (simp add: m dom_map_of_conv_image_fst image_image)
  assume "app_networks (svc_state svc) name = Some net"
  then obtain c where c: "c \<in> set cfgs" "name = nc_network_name c" "net = fresh_network (from_env env) c"
    by (auto simp: m dest!: map_of_SomeD)
  have "net_config net = c" unfolding c(3) by (simp add: fresh_network_def)
  moreover obtain n r where "n \<in> set nets" "r \<in> set rows" "c = from_rows n r" "nr_network_name n = cr_network_name r"
    using rows c(1) by blast
  moreover have "nc_network_name (from_rows n r) = nr_network_name n" for n r by (simp add: from_rows_def)
  ultimately show "(\<exists>n r. n \<in> set nets \<and> r \<in> set rows \<and> net_config net = from_rows n r
        \<and> nr_network_name n = name \<and> cr_network_name r = name)
      \<and> bus_inv (net_events net) \<and> bus_sent (net_events net) = []
      \<and> capacity (net_binary_pool net) = unat (max (binary_pool_size (from_env env)) 1)"
    using c fresh_network_ok by metis
qed

section \<open>Properties\<close>

text \<open>C9: the service serves exactly the configured networks. When the database returns the inner join of its
  two tables and \<open>run\<close> gets to serving, the served networks are the names of the config table, each with
  the configuration merged from its two rows, a fresh bus (empty, its invariant in place) and a fresh
  pool of the configured size; and exactly one listener was spawned per network, for its SSE endpoint.\<close>

theorem run_serves_configured:
  assumes "schema_ok nets rows" and "\<And>conn w. fst (load_inner_join D conn w) = Ok joined"
    and "inner_join_of nets rows joined"
    and "run Pm D G H env w = (report, w')" and "run_service report = Some svc"
  shows "dom (app_networks (svc_state svc)) = cr_network_name ` set rows
    \<and> (\<forall>name net. app_networks (svc_state svc) name = Some net \<longrightarrow>
         (\<exists>n r. n \<in> set nets \<and> r \<in> set rows \<and> net_config net = from_rows n r
            \<and> nr_network_name n = name \<and> cr_network_name r = name)
         \<and> bus_inv (net_events net) \<and> bus_sent (net_events net) = []
         \<and> capacity (net_binary_pool net) = unat (max (binary_pool_size (from_env env)) 1))
    \<and> distinct (map fst (run_listeners report))
    \<and> set (run_listeners report) = (\<lambda>r. (cr_network_name r, cr_sse r)) ` set rows
    \<and> log_ok (run_log report)"
proof -
  obtain cfgs where rows: "distinct (map nc_network_name cfgs) \<and> nc_network_name ` set cfgs = cr_network_name ` set rows
     \<and> (\<forall>c \<in> set cfgs. \<exists>n r. n \<in> set nets \<and> r \<in> set rows \<and> c = from_rows n r
          \<and> nr_network_name n = cr_network_name r)"
    and l: "run_listeners report = map (\<lambda>c. (nc_network_name c, nc_sse c)) cfgs" and ok: "log_ok (run_log report)"
    using run_built [OF assms] .
  have "distinct (map fst (run_listeners report))" using rows by (simp add: l comp_def)
  moreover have "set (run_listeners report) = (\<lambda>r. (cr_network_name r, cr_sse r)) ` set rows"
    unfolding l using listener_endpoints [OF rows] assms(1) by (simp add: schema_ok_def)
  ultimately show ?thesis using ok run_network_map [OF assms] by blast
qed

text \<open>C33: starting the service first does exactly what \<open>migrate\<close> does. When \<open>migrate\<close> fails, \<open>run\<close> fails with
  the same error after the same metric calls and database accesses, serves nothing and spawns no
  listener; when it succeeds, \<open>run\<close> goes on from the same point with loading the networks.\<close>

theorem run_migrates_first:
  "case migrate Pm D env w of
     (Err e, log, w1) \<Rightarrow>
       run Pm D G H env w = (\<lparr>run_result = Err e, run_service = None, run_listeners = [], run_log = log\<rparr>, w1)
   | (Ok _, log, w1) \<Rightarrow>
       (\<exists>pool. init_pool D (database_url (from_env env)) = Ok pool
          \<and> run Pm D G H env w =
             (case load_networks D pool (spawn_pool_metrics D pool w1 [] log) w1 of
                (Err e, log2, w2) \<Rightarrow>
                  (\<lparr>run_result = Err (DatabaseError e), run_service = None, run_listeners = [], run_log = log2\<rparr>, w2)
              | (Ok cfgs, log2, w2) \<Rightarrow> start_service G H (from_env env) cfgs log2 w2))"
  by (auto simp: migrate_def run_def Let_def split: result.splits prod.splits)

definition sample_network_row :: NetworkRow where
  "sample_network_row = \<lparr>nr_network_name = ''devnet'', nr_chain_name = ''casper-devnet''\<rparr>"

definition sample_config_row :: ConfigRow where
  "sample_config_row = \<lparr>cr_network_name = ''devnet'', cr_rest = ''r'', cr_sse = ''s'', cr_rpc = ''p'',
     cr_binary = ''b'', cr_gossip = ''g''\<rparr>"

definition sample_diesel :: "(nat, unit, unit) diesel" where
  "sample_diesel =
     \<lparr>pool_build = (\<lambda>_ _. Ok ()), pool_get = (\<lambda>_ w. (Ok (), w)), run_pending_migrations = (\<lambda>_ w. (Ok (), w)),
      load_inner_join = (\<lambda>_ w. (Ok [(sample_network_row, sample_config_row)], w)),
      pool_state = (\<lambda>_ _. (0, 0)), db_clock = (\<lambda>w. w)\<rparr>"

definition sample_host :: "nat host" where
  "sample_host = \<lparr>build_rpc_client = Ok (), tcp_bind = (\<lambda>_ w. (Ok (), w)), listener_addr = (\<lambda>a w. (Ok a, w)),
     serve = (\<lambda>w. (Ok (), w))\<rparr>"

lemma default_sizes: "sizes_fit (from_env (\<lambda>_. None))"
  unfolding sizes_fit_def channel_panics_iff semaphore_panics_iff by (simp add: from_env_def env_usize_def Let_def)

lemma built_when_fit:
  "sizes_fit config \<Longrightarrow> \<exists>networks listeners' log'. build_networks config cfgs (m, listeners, log) = (Ok networks, listeners', log')"
  by (induction cfgs arbitrary: m listeners log)
     (auto simp: sizes_fit_def EventBus_new_def BinaryPool_new_def Let_def)

lemma sample_start:
  "\<exists>svc report. start_service sample_governor sample_host (from_env (\<lambda>_. None)) cfgs log w = (report :: 's run_report, w)
    \<and> run_service report = Some svc"
proof -
  let ?c = "from_env (\<lambda>_. None)"
  have "unat (rate_limit_burst ?c) \<le> 307445734" by (simp add: from_env_def env_u32_def Let_def)
  then obtain q where "rate_limit_layer sample_governor (rate_limit_per_min ?c) (rate_limit_burst ?c) = Ok q"
    using rate_limit_layer_documented [OF sample_governor_documented] limiter_fits_burst by metis
  moreover obtain m :: "string \<Rightarrow> 's NetworkState option" and ls log' where "build_networks ?c cfgs (Map.empty, [], log) = (Ok m, ls, log')"
    using built_when_fit [OF default_sizes] by blast
  ultimately show ?thesis by (simp add: start_service_def sample_host_def Let_def)
qed

lemma sample_run:
  obtains report svc where
    "run doc_prometheus sample_diesel sample_governor sample_host (\<lambda>_. None) 0 = (report :: unit run_report, 0)"
    "run_service report = Some svc"
proof -
  have "prometheus_accepts doc_prometheus" by (simp add: prometheus_accepts_def doc_prometheus_def)
  then obtain m where m: "AppMetrics_new doc_prometheus = Ok m"
    using register_specs_accepted [OF _ metric_specs_valid] metric_specs_distinct by (simp add: AppMetrics_new_def)
  obtain p where p: "init_pool sample_diesel (database_url (from_env (\<lambda>_. None))) = Ok p"
    by (simp add: init_pool_def backend_from_url_def from_env_def env_string_def sample_diesel_def Let_def)
  obtain log1 where log1: "run_migrations sample_diesel p [] 0 = (Ok (), log1, 0)"
    by (simp add: run_migrations_def sample_diesel_def Let_def)
  obtain log2 where
    log2: "load_networks sample_diesel p (spawn_pool_metrics sample_diesel p 0 [] log1) 0
      = (Ok [from_rows sample_network_row sample_config_row], log2, 0)"
    by (simp add: load_networks_def sample_diesel_def Let_def)
  have "run doc_prometheus sample_diesel sample_governor sample_host (\<lambda>_. None) 0 =
      (start_service sample_governor sample_host (from_env (\<lambda>_. None)) [from_rows sample_network_row sample_config_row] log2 0
        :: unit run_report \<times> nat)"
    by (simp add: run_def m p log1 log2 Let_def)
  then show thesis using that sample_start by metis
qed

lemma sample_tables:
  "schema_ok [sample_network_row] [sample_config_row]"
  "fst (load_inner_join sample_diesel conn w) = Ok [(sample_network_row, sample_config_row)]"
  "inner_join_of [sample_network_row] [sample_config_row] [(sample_network_row, sample_config_row)]"
  by (auto simp: schema_ok_def inner_join_of_def sample_network_row_def sample_config_row_def sample_diesel_def)

theorem run_serves_configured_witness:
  "\<exists>report svc w'. run doc_prometheus sample_diesel sample_governor sample_host (\<lambda>_. None) 0 = (report :: unit run_report, w')
     \<and> run_service report = Some svc \<and> dom (app_networks (svc_state svc)) = {''devnet''}
     \<and> set (run_listeners report) = {(''devnet'', ''s'')}"
proof -
  obtain report svc where
    r: "run doc_prometheus sample_diesel sample_governor sample_host (\<lambda>_. None) 0 = (report :: unit run_report, 0)"
      "run_service report = Some svc"
    by (rule sample_run)
  note served = run_serves_configured [OF sample_tables r]
  have "dom (app_networks (svc_state svc)) = {''devnet''}"
    using conjunct1 [OF served] by (simp add: sample_config_row_def)
  moreover have "set (run_listeners report) = {(''devnet'', ''s'')}"
    using conjunct1 [OF conjunct2 [OF conjunct2 [OF conjunct2 [OF served]]]] by (simp add: sample_config_row_def)
  ultimately show ?thesis using r by blast
qed

end
