(* ===== verification/Metric_Footprint.thy ===== *)
theory Metric_Footprint
  imports Sse_Listener Handlers App
begin

text \<open>
  Which metrics each part of the program touches, and that it only makes calls the Prometheus vectors
  accept. \<open>with_label_values\<close> of \<open>src/metrics.rs\<close> panics when the number of label values is not that of the
  registration, and a counter has no \<open>set\<close>; a call of the log is well formed when it avoids both. The
  footprint of an operation is the set of metrics it may touch; the locale \<open>metered\<close> is what follows from
  one, and it is interpreted for every operation that reports to the metrics.
\<close>

named_theorems footprint \<open>operations that extend the log within a footprint\<close>

section \<open>Extending a log\<close>

fun op_metric :: "metric_op \<Rightarrow> metric_id" where
  "op_metric (Inc i _) = i"
| "op_metric (Dec i _) = i"
| "op_metric (Set i _ _) = i"
| "op_metric (Observe i _ _) = i"

definition extends :: "metric_id set \<Rightarrow> mlog \<Rightarrow> mlog \<Rightarrow> bool" where
  "extends M log log' \<longleftrightarrow> (\<exists>ops. log' = log @ ops \<and> (\<forall>op \<in> set ops. op_ok op \<and> op_metric op \<in> M))"

lemma extends_refl [simp, footprint]: "extends M log log"
  by (simp add: extends_def)

lemma extends_trans: "extends M a b \<Longrightarrow> extends M b c \<Longrightarrow> extends M a c"
  by (auto simp: extends_def)

lemma extends_mono: "extends M a b \<Longrightarrow> M \<subseteq> N \<Longrightarrow> extends N a b"
  by (auto simp: extends_def)

lemma extends_append:
  "extends M a b \<Longrightarrow> (\<And>op. op \<in> set ops \<Longrightarrow> op_ok op \<and> op_metric op \<in> M) \<Longrightarrow> extends M a (b @ ops)"
  by (auto simp: extends_def)

lemma extends_emit: "extends M a b \<Longrightarrow> op_ok op \<Longrightarrow> op_metric op \<in> M \<Longrightarrow> extends M a (emit op b)"
  by (auto simp: emit_def intro: extends_append)

lemma extends_log_ok: "extends M a b \<Longrightarrow> log_ok b \<longleftrightarrow> log_ok a"
  by (auto simp: extends_def log_ok_def list_all_iff)

lemma extends_outside:
  assumes "extends M a b" and "i \<notin> M"
  shows "counter i ls b = counter i ls a" and "level i ls b = level i ls a"
proof -
  obtain ops where b: "b = a @ ops" and ops: "\<forall>op \<in> set ops. op_metric op \<in> M"
    using assms(1) by (auto simp: extends_def)
  have "Inc i ls \<notin> set ops" "Dec i ls \<notin> set ops" using ops assms(2) by force+
  then show "counter i ls b = counter i ls a" "level i ls b = level i ls a"
    by (simp_all add: b counter_def level_def count_list_0_iff)
qed

text \<open>The methods of \<open>AppMetrics\<close>.\<close>

lemma extends_methods [footprint]:
  "extends M a b \<Longrightarrow> jsonrpc_method_total \<in> M \<Longrightarrow> extends M a (increment_jsonrpc_method network meth b)"
  "extends M a b \<Longrightarrow> rpc_upstream_duration_seconds \<in> M \<Longrightarrow> extends M a (observe_rpc_upstream_duration network d b)"
  "extends M a b \<Longrightarrow> rpc_upstream_errors_total \<in> M \<Longrightarrow> extends M a (increment_rpc_upstream_error network b)"
  "extends M a b \<Longrightarrow> rpc_upstream_non_success_total \<in> M \<Longrightarrow>
     extends M a (increment_rpc_upstream_non_success network status b)"
  "extends M a b \<Longrightarrow> sse_ingest_total \<in> M \<Longrightarrow> extends M a (increment_sse_ingest network b)"
  "extends M a b \<Longrightarrow> sse_backlog_size \<in> M \<Longrightarrow> extends M a (set_sse_backlog_size network n b)"
  "extends M a b \<Longrightarrow> sse_backlog_dropped_total \<in> M \<Longrightarrow> extends M a (increment_sse_backlog_dropped network b)"
  "extends M a b \<Longrightarrow> sse_reconnect_total \<in> M \<Longrightarrow> extends M a (increment_sse_reconnect network b)"
  "extends M a b \<Longrightarrow> sse_time_to_first_api_version_seconds \<in> M \<Longrightarrow>
     extends M a (observe_sse_time_to_first_api_version network d b)"
  "extends M a b \<Longrightarrow> binary_requests_total \<in> M \<Longrightarrow> extends M a (increment_binary_requests network b)"
  "extends M a b \<Longrightarrow> binary_responses_total \<in> M \<Longrightarrow> extends M a (increment_binary_response network outcome b)"
  "extends M a b \<Longrightarrow> binary_queue_wait_seconds \<in> M \<Longrightarrow> extends M a (observe_binary_queue_wait network d b)"
  "extends M a b \<Longrightarrow> db_migrations_total \<in> M \<Longrightarrow> extends M a (increment_db_migration outcome b)"
  "extends M a b \<Longrightarrow> db_pool_wait_seconds \<in> M \<Longrightarrow> extends M a (observe_db_pool_wait operation d b)"
  "extends M a b \<Longrightarrow> sse_connections \<in> M \<Longrightarrow> extends M a (snd (events_connection_guard network b))"
  "extends M a b \<Longrightarrow> binary_connections \<in> M \<Longrightarrow> extends M a (snd (binary_connection_guard network b))"
  "extends M a b \<Longrightarrow> binary_inflight_requests \<in> M \<Longrightarrow> extends M a (snd (binary_inflight_guard network b))"
  "extends M a b \<Longrightarrow> sse_connections \<in> M \<Longrightarrow> extends M a (drop_guard (fst (events_connection_guard network c)) b)"
  "extends M a b \<Longrightarrow> binary_connections \<in> M \<Longrightarrow>
     extends M a (drop_guard (fst (binary_connection_guard network c)) b)"
  "extends M a b \<Longrightarrow> binary_inflight_requests \<in> M \<Longrightarrow>
     extends M a (drop_guard (fst (binary_inflight_guard network c)) b)"
  by (simp_all add: metric_defs extends_emit)

lemma extends_http_observe [footprint]:
  assumes "extends M a b"
    and "{http_requests_total, http_requests_by_ip_total, http_request_duration_seconds, http_429_total} \<subseteq> M"
  shows "extends M a (http_observe network meth endpoint status d ip b)"
  using assms by (auto simp: http_observe_def Let_def extends_emit split: option.splits)

lemma extends_db_pool_stats [footprint]:
  "extends M a b \<Longrightarrow> db_pool_connections \<in> M \<Longrightarrow> extends M a (set_db_pool_stats tot idle b)"
  by (simp add: set_db_pool_stats_def Let_def extends_emit)

section \<open>Metered operations\<close>

locale metered =
  fixes run_op :: "mlog \<Rightarrow> mlog"
    and M :: "metric_id set"
  assumes run_extends: "extends M log (run_op log)"
begin

lemma keeps_log_ok: "log_ok (run_op log) \<longleftrightarrow> log_ok log"
  by (rule extends_log_ok [OF run_extends])

lemma isolated: "i \<notin> M \<Longrightarrow> counter i ls (run_op log) = counter i ls log \<and> level i ls (run_op log) = level i ls log"
  using extends_outside [OF run_extends] by blast

end

definition http_metrics :: "metric_id set" where
  "http_metrics = {http_requests_total, http_requests_by_ip_total, http_request_duration_seconds, http_429_total}"

definition rpc_metrics :: "metric_id set" where
  "rpc_metrics = {jsonrpc_method_total, rpc_upstream_duration_seconds, rpc_upstream_errors_total,
     rpc_upstream_non_success_total}"

definition backlog_metrics :: "metric_id set" where
  "backlog_metrics = {sse_backlog_size, sse_backlog_dropped_total}"

definition listener_metrics :: "metric_id set" where
  "listener_metrics = {sse_ingest_total, sse_reconnect_total, sse_time_to_first_api_version_seconds} \<union> backlog_metrics"

definition stream_metrics :: "metric_id set" where
  "stream_metrics = {sse_connections}"

definition pool_metrics :: "metric_id set" where
  "pool_metrics = {binary_responses_total, binary_inflight_requests, binary_queue_wait_seconds}"

definition socket_metrics :: "metric_id set" where
  "socket_metrics = {binary_requests_total, binary_connections} \<union> pool_metrics"

definition db_metrics :: "metric_id set" where
  "db_metrics = {db_pool_connections, db_migrations_total, db_pool_wait_seconds}"

lemmas footprints = http_metrics_def rpc_metrics_def backlog_metrics_def listener_metrics_def stream_metrics_def
  pool_metrics_def socket_metrics_def db_metrics_def

section \<open>The parts of the program\<close>

lemma extends_push [footprint]:
  assumes "extends M a b" and "backlog_metrics \<subseteq> M"
  shows "extends M a (snd (snd (push v bus b)))"
  using assms by (auto simp: push_def Let_def footprints intro!: footprint)

lemma extends_EventBus_new [footprint]:
  assumes "extends M a b" and "sse_backlog_size \<in> M"
  shows "extends M a (snd (EventBus_new network limit cap metrics b))"
  using assms by (auto simp: EventBus_new_def Let_def intro!: footprint)

interpretation ws_stream_meter: metered "\<lambda>log. fst (snd (snd (handle_events_socket S network polls bus start_from es log w)))"
  stream_metrics for S network polls bus start_from es w
  by unfold_locales
     (auto simp: handle_events_socket_def Let_def case_prod_unfold stream_metrics_def
       split: option.splits bool.splits intro!: footprint)

interpretation sse_stream_meter: metered "\<lambda>log. snd (snd (sse_stream network polls bus start_from rs log))"
  stream_metrics for network polls bus start_from rs
  by unfold_locales
     (auto simp: sse_stream_def Let_def case_prod_unfold stream_metrics_def split: option.splits intro!: footprint)

lemma extends_send:
  assumes "send C T P q log w = (r, P', log', w')"
  shows "extends pool_metrics log log'"
  using assms
  by (cases rule: send_cases) (auto simp: pool_metrics_def intro!: extends_append split: if_splits)

interpretation send_meter: metered "\<lambda>log. fst (snd (snd (send C T P q log w)))" pool_metrics for C T P q w
proof unfold_locales
  fix log
  obtain r P' log' w' where s: "send C T P q log w = (r, P', log', w')" by (metis prod_cases4)
  from extends_send [OF s] show "extends pool_metrics log (fst (snd (snd (send C T P q log w))))" by (simp add: s)
qed

lemma extends_message:
  assumes "handle_binary_message C T S check name q (st, w) = (oc, st', w')"
  shows "extends socket_metrics (sock_log st) (sock_log st')"
proof -
  let ?log = "increment_binary_requests name (sock_log st)"
  have req: "extends socket_metrics (sock_log st) ?log" by (simp add: socket_metrics_def footprint)
  have sent: "extends socket_metrics (sock_log st) log'" if "send C T P q ?log w = (r, P', log', w'')" for P r P' log' w''
    using req extends_mono [OF extends_send [OF that], of socket_metrics]
    by (auto simp: socket_metrics_def intro: extends_trans)
  show ?thesis
    using assms req sent
    by (auto simp: handle_binary_message_def Let_def socket_metrics_def pool_metrics_def
        intro!: extends_methods dest!: reply_frame split: prod.splits result.splits option.splits)
qed

lemma extends_binary_loop:
  assumes "binary_loop C T S check name ms (st, w) = (ended, st', w')"
  shows "extends socket_metrics (sock_log st) (sock_log st')"
  using assms
proof (induction ms arbitrary: st w)
  case (Cons m ms)
  show ?case
  proof (cases m)
    case (BinaryMessage q)
    obtain oc st1 w1 where one: "handle_binary_message C T S check name q (st, w) = (oc, st1, w1)"
      by (metis prod_cases3)
    note first = extends_message [OF one]
    show ?thesis
    proof (cases oc)
      case Continue
      then have "binary_loop C T S check name ms (st1, w1) = (ended, st', w')"
        using Cons.prems by (simp add: BinaryMessage one)
      from extends_trans [OF first Cons.IH [OF this]] show ?thesis .
    qed (use Cons.prems first in \<open>auto simp: BinaryMessage one\<close>)
  qed (use Cons in auto)
qed simp

interpretation socket_meter: metered
  "\<lambda>log. sock_log (fst (snd (handle_binary_socket C T S check name ms P l log w)))" socket_metrics
  for C T S check name ms P l w
proof unfold_locales
  fix log
  let ?g = "binary_connection_guard name log"
  let ?st = "\<lparr>sock_pool = P, sock_limiter = l, sock_log = snd ?g, sock_out = []\<rparr>"
  obtain ended st w' where run: "binary_loop C T S check name ms (?st, w) = (ended, st, w')" by (metis prod_cases3)
  have "extends socket_metrics log (snd ?g)" by (simp add: socket_metrics_def footprint)
  then have "extends socket_metrics log (sock_log st)"
    using extends_trans extends_binary_loop [OF run] by fastforce
  moreover from this have "extends socket_metrics log (drop_guard (fst ?g) (sock_log st))"
    by (simp add: socket_metrics_def footprint)
  ultimately show "extends socket_metrics log (sock_log (fst (snd (handle_binary_socket C T S check name ms P l log w))))"
    using run by (cases ?g) (simp add: handle_binary_socket_def)
qed

lemma extends_forward_rpc:
  assumes "forward_rpc E url name body sanitize log w = (r, log', w')"
  shows "extends rpc_metrics log log'"
  using assms
  by (auto simp: forward_rpc_def Let_def rpc_metrics_def intro!: footprint
      split: prod.splits result.splits if_splits)

interpretation rpc_meter: metered "\<lambda>log. fst (snd (rpc_proxy E state name body log w))" rpc_metrics
  for E state name body w
proof unfold_locales
  fix log
  show "extends rpc_metrics log (fst (snd (rpc_proxy E state name body log w)))"
  proof (cases "app_networks state name")
    case (Some net)
    have "extends rpc_metrics log (fst (snd (forward_rpc E url name body san (increment_jsonrpc_method name m log) w)))"
      for url san m
    proof -
      obtain r log' w' where f: "forward_rpc E url name body san (increment_jsonrpc_method name m log) w = (r, log', w')"
        by (metis prod_cases3)
      have "extends rpc_metrics log (increment_jsonrpc_method name m log)" by (simp add: rpc_metrics_def footprint)
      from extends_trans [OF this extends_forward_rpc [OF f]] show ?thesis by (simp add: f)
    qed
    then show ?thesis using Some by (simp add: rpc_proxy_eq split: option.splits)
  qed (simp add: rpc_proxy_unknown)
qed

lemma extends_ingest:
  "extends listener_metrics (ls_log (fst (snd sw))) (ls_log (fst (snd (ingest E client network t0 e sw))))"
proof -
  obtain saw st w where sw: "sw = (saw, st, w)" by (metis prod_cases3)
  obtain st1 w1 where s1: "(case up_id e of Some i \<Rightarrow> store_id E client network i
        (st\<lparr>ls_log := increment_sse_ingest network (ls_log st)\<rparr>) w
      | None \<Rightarrow> (st\<lparr>ls_log := increment_sse_ingest network (ls_log st)\<rparr>, w)) = (st1, w1)"
    by (metis surj_pair)
  have "ls_log st1 = increment_sse_ingest network (ls_log st)"
  proof (cases "up_id e")
    case (Some i)
    then show ?thesis
      using s1 store_id_frame(3) [of E client network i "st\<lparr>ls_log := increment_sse_ingest network (ls_log st)\<rparr>" w]
      by simp
  qed (use s1 in auto)
  then have "extends listener_metrics (ls_log st) (ls_log st1)" by (simp add: listener_metrics_def footprint)
  then show ?thesis
    unfolding sw ingest_def using s1
    by (auto simp: Let_def case_prod_unfold listener_metrics_def intro!: footprint
        split: SseEvent.splits option.splits)
qed

lemma extends_ingest_stream:
  "extends listener_metrics (ls_log (fst (snd sw))) (ls_log (fst (snd (ingest_stream E client network t0 items sw))))"
  by (induction E client network t0 items sw rule: ingest_stream.induct)
     (auto intro: extends_trans [OF extends_ingest])

lemma extends_listener_round:
  assumes "listener_round E client network endpoint (st, w) = Some (st', w')"
  shows "extends listener_metrics (ls_log st) (ls_log st')"
proof -
  have start: "extends listener_metrics (ls_log st) (ls_log (round_start network st))"
    by (simp add: round_start_def listener_metrics_def footprint)
  from assms show ?thesis
  proof (cases rule: listener_round_cases)
    case unopened
    then show ?thesis using start by simp
  next
    case (opened items w1)
    from extends_ingest_stream [of "(False, round_start network st, w1)" E client network "sse_clock E w1" items]
    show ?thesis using extends_trans [OF start] by (simp add: opened(2))
  qed
qed

lemma extends_listener_rounds:
  "listener_rounds E client network endpoint n (st, w) = Some (st', w') \<Longrightarrow>
     extends listener_metrics (ls_log st) (ls_log st')"
proof (induction n arbitrary: st w)
  case (Suc n)
  from Suc.prems obtain st1 w1 where one: "listener_round E client network endpoint (st, w) = Some (st1, w1)"
    and rest: "listener_rounds E client network endpoint n (st1, w1) = Some (st', w')"
    by (auto simp: Option.bind_eq_Some_conv)
  from extends_trans [OF extends_listener_round [OF one] Suc.IH [OF rest]] show ?case .
qed simp

lemma extends_spawn_listener:
  assumes "spawn_listener E redis_url network endpoint bus log w n = Some (st', w')"
  shows "extends listener_metrics log (ls_log st')"
proof -
  obtain client st w1 where i: "listener_init E redis_url network bus log w = (client, st, w1)" by (metis prod_cases3)
  then have "ls_log st = log" by (auto simp: listener_init_def Let_def case_prod_unfold)
  moreover have "listener_rounds E client network endpoint n (st, w1) = Some (st', w')"
    using assms i by (simp add: spawn_listener_def)
  ultimately show ?thesis using extends_listener_rounds by metis
qed

lemma extends_run_migrations:
  "run_migrations D pool log w = (r, log', w') \<Longrightarrow> extends db_metrics log log'"
  by (auto simp: run_migrations_def Let_def db_metrics_def intro!: footprint split: prod.splits result.splits)

lemma extends_load_networks:
  "load_networks D pool log w = (r, log', w') \<Longrightarrow> extends db_metrics log log'"
  by (auto simp: load_networks_def Let_def db_metrics_def intro!: footprint split: prod.splits result.splits)

lemma extends_pool_metrics: "extends db_metrics log (spawn_pool_metrics D pool w ws log)"
proof -
  have one: "extends db_metrics a b \<Longrightarrow> extends db_metrics a (update_pool_metrics D p w b)" for a b p w
    by (simp add: update_pool_metrics_def case_prod_unfold Let_def db_metrics_def footprint)
  have "extends db_metrics a b \<Longrightarrow> extends db_metrics a (foldl (\<lambda>log w. update_pool_metrics D p w log) b ws)" for a b p
    by (induction ws arbitrary: b) (simp_all add: one)
  then show ?thesis using one by (cases pool) (simp_all add: spawn_pool_metrics_inner_def)
qed

lemma extends_build_networks:
  assumes "build_networks config cfgs (networks, listeners, log) = (built, listeners', log')"
  shows "extends backlog_metrics log log'"
  using assms
proof (induction cfgs arbitrary: networks listeners log)
  case (Cons cfg cfgs)
  let ?new = "EventBus_new (nc_network_name cfg) (sse_backlog_limit config) (sse_broadcast_capacity config) True log"
  have first: "extends backlog_metrics log (snd ?new)" by (simp add: backlog_metrics_def footprint)
  have "extends backlog_metrics (snd ?new) log'"
    using Cons.prems Cons.IH
    by (cases rule: build_networks_Cons [of config cfg cfgs networks listeners log]) (auto simp del: build_networks.simps)
  with first show ?case by (rule extends_trans)
qed simp

text \<open>The two commands start from an empty log.\<close>

lemma extends_migrate: "migrate Pm D env w = (r, log, w') \<Longrightarrow> extends db_metrics [] log"
  by (auto simp: migrate_def Let_def dest: extends_run_migrations split: result.splits prod.splits)

lemma extends_start_service:
  fixes report :: "'s run_report"
  assumes "start_service G H config cfgs log w = (report, w')"
  shows "extends backlog_metrics log (run_log report)"
proof -
  from start_service_built [OF assms] obtain built :: "((string \<Rightarrow> 's NetworkState option), string) result"
    where "build_networks config cfgs (Map.empty, [], log) = (built, run_listeners report, run_log report)" by blast
  from extends_build_networks [OF this] show ?thesis .
qed

lemma extends_run:
  assumes "run Pm D G H env w = (report, w')"
  shows "extends (db_metrics \<union> backlog_metrics) [] (run_log report)"
proof -
  have db: "extends (db_metrics \<union> backlog_metrics) a b" if "extends db_metrics a b" for a b
    using that by (rule extends_mono) simp
  have bus: "extends (db_metrics \<union> backlog_metrics) a b" if "extends backlog_metrics a b" for a b
    using that by (rule extends_mono) simp
  show ?thesis
  proof (cases "AppMetrics_new Pm")
    case built: (Ok u)
    show ?thesis
    proof (cases "init_pool D (database_url (from_env env))")
      case pool: (Ok pool)
      obtain r log1 w1 where m: "run_migrations D pool [] w = (r, log1, w1)" by (metis prod_cases3)
      note first = extends_run_migrations [OF m]
      show ?thesis
      proof (cases r)
        case migrated: (Ok u)
        let ?log = "spawn_pool_metrics D pool w1 [] log1"
        obtain r' log2 w2 where l: "load_networks D pool ?log w1 = (r', log2, w2)" by (metis prod_cases3)
        have before: "extends db_metrics [] log2"
          using extends_trans [OF extends_trans [OF first extends_pool_metrics] extends_load_networks [OF l]] .
        show ?thesis
        proof (cases r')
          case (Ok cfgs)
          then have "start_service G H (from_env env) cfgs log2 w2 = (report, w')"
            using assms built pool m migrated l by (simp add: run_def)
          from extends_trans [OF db [OF before] bus [OF extends_start_service [OF this]]] show ?thesis .
        qed (use assms built pool m migrated l db [OF before] in \<open>auto simp: run_def\<close>)
      qed (use assms built pool m db [OF first] in \<open>auto simp: run_def\<close>)
    qed (use assms built in \<open>auto simp: run_def\<close>)
  qed (use assms in \<open>auto simp: run_def\<close>)
qed

section \<open>Properties\<close>

text \<open>C13: every call on a metric vector is well typed. Each part of the program extends the log of metric
  calls by calls that carry as many label values as the vector was registered with, of a method the vector's
  type has (so \<open>with_label_values\<close> never panics), and only on its own vectors: the HTTP layer on the
  \<open>http_*\<close> ones (after whatever the inner service recorded), the JSON-RPC proxy on \<open>jsonrpc_method_total\<close> and
  \<open>rpc_upstream_*\<close>, a WebSocket or SSE event stream on \<open>sse_connections\<close>, a request of the pool on the
  responses, in-flight and queue-wait vectors, a binary socket on these, the requests and the connections, the
  listener on the ingest, reconnect, first-version and backlog vectors however many rounds it has run, and the
  two commands of the binary on the \<open>db_*\<close> vectors and the backlog gauge.\<close>

theorem metric_calls_typed:
  "extends http_metrics (fst (snd (run_next req log w)))
     (fst (snd (track_http extract_ip clock run_next req log w)))
   \<and> extends rpc_metrics log (fst (snd (rpc_proxy E state name body log w')))
   \<and> extends stream_metrics log (fst (snd (snd (handle_events_socket S name polls bus start_from es log v))))
   \<and> extends stream_metrics log (snd (snd (sse_stream name polls bus start_from rs log)))
   \<and> extends pool_metrics log (fst (snd (snd (send C T P q log u))))
   \<and> extends socket_metrics log (sock_log (fst (snd (handle_binary_socket C T SB check name ms P l log u))))
   \<and> (case spawn_listener L redis_url name endpoint bus log x n of
        None \<Rightarrow> True | Some (st, _) \<Rightarrow> extends listener_metrics log (ls_log st))
   \<and> extends db_metrics [] (fst (snd (migrate Pm D env y)))
   \<and> extends (db_metrics \<union> backlog_metrics) [] (run_log (fst (run Pm D G H env y) :: 's run_report))"
proof -
  have track: "extends http_metrics (fst (snd (run_next req log w)))
     (fst (snd (track_http extract_ip clock run_next req log w)))"
    by (auto simp: track_http_def Let_def case_prod_unfold http_metrics_def
        split: prod.split option.split intro!: extends_http_observe)
  have listener: "case spawn_listener L redis_url name endpoint bus log x n of
      None \<Rightarrow> True | Some (st, _) \<Rightarrow> extends listener_metrics log (ls_log st)"
    by (auto dest: extends_spawn_listener split: option.split)
  have migrate: "extends db_metrics [] (fst (snd (migrate Pm D env y)))"
    by (rule extends_migrate [where r = "fst (migrate Pm D env y)" and w' = "snd (snd (migrate Pm D env y))"]) simp
  have run: "extends (db_metrics \<union> backlog_metrics) [] (run_log (fst (run Pm D G H env y) :: 's run_report))"
    by (rule extends_run [where w' = "snd (run Pm D G H env y :: 's run_report \<times> _)"]) simp
  show ?thesis
    by (intro conjI track listener migrate run rpc_meter.run_extends ws_stream_meter.run_extends
        sse_stream_meter.run_extends send_meter.run_extends socket_meter.run_extends)
qed

end
