(* ===== verification/Service.thy ===== *)
theory Service
  imports Metric_Footprint
begin

text \<open>
  The service that \<open>run\<close> of \<open>src/lib.rs\<close> puts together: the routes of \<open>Handlers\<close> inside the rate-limit layer
  inside the middleware \<open>track_http\<close>, from the arrival of a request to its response. The extractors of the web
  framework run before a handler and may reject; the response to an upgraded request is sent at once and the
  stream goes on as a task of the runtime. A handler that panics gives no response.
\<close>

section \<open>Extractors, layers and tasks\<close>

text \<open>
  The parameters: the path matching and the answer to a request without a handler; the extractors of the body,
  of the query \<open>EventsQuery\<close> and of a WebSocket upgrade, which return the response of their rejection, the
  upgrade returning the response that accepts it; the response that carries an event stream; and the check of
  the rate-limit layer for a quota, which returns the headers it adds or the response it refuses with.
\<close>

record 'w service_env =
  sv_path_param :: "string \<Rightarrow> string \<Rightarrow> string option"
  sv_fallback :: "http_request \<Rightarrow> http_response"
  sv_body :: "http_request \<Rightarrow> 'w \<Rightarrow> (bytes, http_response) result \<times> 'w"
  sv_query :: "http_request \<Rightarrow> (u64 option, http_response) result"
  sv_upgrade :: "http_request \<Rightarrow> (http_response, http_response) result"
  sv_sse_response :: http_response
  sv_admit :: "Quota \<Rightarrow> http_request \<Rightarrow> 'w \<Rightarrow> ((string \<times> string) list, http_response) result \<times> 'w"
  sv_rpc :: "'w rpc_env"
  sv_governor :: governor
  sv_client_ip :: "http_request \<Rightarrow> string option"
  sv_clock :: "'w \<Rightarrow> nat"

text \<open>The eager part of \<open>sse_stream\<close> and the rest of it, which runs when the response body is polled.\<close>

record sse_job =
  job_guard :: GaugeGuard
  job_backlog :: "EventEnvelope list"
  job_last_id :: u64

definition sse_open :: "string \<Rightarrow> EventBus \<Rightarrow> u64 option \<Rightarrow> mlog \<Rightarrow> sse_job \<times> mlog" where
  "sse_open network bus start_from log =
     (let (guard, log) = events_connection_guard network log;
          backlog = (case start_from of Some s \<Rightarrow> snapshot_from bus s | None \<Rightarrow> []);
          last_id = (if backlog = [] then 0 else ev_id (last backlog))
      in (\<lparr>job_guard = guard, job_backlog = backlog, job_last_id = last_id\<rparr>, log))"

definition sse_follow :: "EventBus list \<Rightarrow> recv list \<Rightarrow> sse_job \<Rightarrow> mlog \<Rightarrow> bool \<times> sse_frame list \<times> mlog" where
  "sse_follow polls rs job log =
     (case wait_for_api_version polls of
        None \<Rightarrow> (False, [], log)
      | Some v \<Rightarrow>
          (let (live, ended) = sse_live rs (job_last_id job)
           in (ended, sse_api_version_event v # map sse_event (job_backlog job) @ live,
               (if ended then drop_guard (job_guard job) log else log))))"

text \<open>The tasks that outlive their request: a socket of events, the body of an event stream, and a binary
  socket with the quota of its limiter.\<close>

datatype task =
    EventsSocket string "u64 option"
  | EventsBody string sse_job
  | BinarySocket string Quota

type_synonym 'w runtime = "'w \<times> task list"

section \<open>From the request to the response\<close>

text \<open>The three handlers that have extractors of their own, up to their response. The query is extracted, and
  may be rejected, before the network is looked up; so is the upgrade of a binary socket.\<close>

definition rpc_response ::
  "'w service_env \<Rightarrow> 's AppState \<Rightarrow> string \<Rightarrow> http_request \<Rightarrow> mlog \<Rightarrow> 'w runtime
     \<Rightarrow> http_response option \<times> mlog \<times> 'w runtime" where
  "rpc_response V state name req log rt =
     (case rt of (w, tasks) \<Rightarrow>
        (case sv_body V req w of
           (Err rejection, w) \<Rightarrow> (Some rejection, log, w, tasks)
         | (Ok body, w) \<Rightarrow>
             (case rpc_proxy (sv_rpc V) state name body log w of
                (r, log, w) \<Rightarrow> (Some (respond r), log, w, tasks))))"

definition events_response ::
  "'w service_env \<Rightarrow> 's AppState \<Rightarrow> string \<Rightarrow> http_request \<Rightarrow> mlog \<Rightarrow> 'w runtime
     \<Rightarrow> http_response option \<times> mlog \<times> 'w runtime" where
  "events_response V state name req log rt =
     (case rt of (w, tasks) \<Rightarrow>
        (case sv_query V req of
           Err rejection \<Rightarrow> (Some rejection, log, w, tasks)
         | Ok start_from \<Rightarrow>
             (case get_network state name of
                Err e \<Rightarrow> (Some (into_response e), log, w, tasks)
              | Ok network \<Rightarrow>
                  (case maybe_upgrade (sv_upgrade V req) of
                     Some accepted \<Rightarrow> (Some accepted, log, w, tasks @ [EventsSocket name start_from])
                   | None \<Rightarrow>
                       (case sse_open name (net_events network) start_from log of
                          (job, log) \<Rightarrow> (Some (sv_sse_response V), log, w, tasks @ [EventsBody name job]))))))"

definition binary_response ::
  "'w service_env \<Rightarrow> 's AppState \<Rightarrow> string \<Rightarrow> http_request \<Rightarrow> mlog \<Rightarrow> 'w runtime
     \<Rightarrow> http_response option \<times> mlog \<times> 'w runtime" where
  "binary_response V state name req log rt =
     (case rt of (w, tasks) \<Rightarrow>
        (case sv_upgrade V req of
           Err rejection \<Rightarrow> (Some rejection, log, w, tasks)
         | Ok accepted \<Rightarrow>
             (case get_network state name of
                Err e \<Rightarrow> (Some (into_response e), log, w, tasks)
              | Ok network \<Rightarrow>
                  (case binary_connection_rate_limiter (sv_governor V)
                          (app_binary_rate_limit_per_min state) (app_binary_rate_limit_burst state) of
                     Err panic \<Rightarrow> (None, log, w, tasks)
                   | Ok quota \<Rightarrow> (Some accepted, log, w, tasks @ [BinarySocket name quota])))))"

definition route_request ::
  "'w service_env \<Rightarrow> 's AppState \<Rightarrow> http_request \<Rightarrow> mlog \<Rightarrow> 'w runtime
     \<Rightarrow> http_response option \<times> mlog \<times> 'w runtime" where
  "route_request V state req log rt =
     (case dispatch (sv_path_param V) (req_method req) (req_path req) of
        None \<Rightarrow> (Some (sv_fallback V req), log, rt)
      | Some (NetworkRoot, name) \<Rightarrow> (Some (respond (network_root state name)), log, rt)
      | Some (Rpc, name) \<Rightarrow> rpc_response V state name req log rt
      | Some (Events, name) \<Rightarrow> events_response V state name req log rt
      | Some (Binary, name) \<Rightarrow> binary_response V state name req log rt)"

definition rate_limited ::
  "'w service_env \<Rightarrow> Quota \<Rightarrow> (http_request \<Rightarrow> mlog \<Rightarrow> 'w runtime \<Rightarrow> http_response option \<times> mlog \<times> 'w runtime)
     \<Rightarrow> http_request \<Rightarrow> mlog \<Rightarrow> 'w runtime \<Rightarrow> http_response option \<times> mlog \<times> 'w runtime" where
  "rate_limited V quota run_next req log rt =
     (case sv_admit V quota req (fst rt) of
        (Err refused, w) \<Rightarrow> (Some refused, log, w, snd rt)
      | (Ok added, w) \<Rightarrow>
          (case run_next req log (w, snd rt) of
             (response, log, rt) \<Rightarrow>
               (map_option (\<lambda>r. r\<lparr>resp_headers := resp_headers r @ added\<rparr>) response, log, rt)))"

text \<open>The framework answers a HEAD request with the response of the GET route less its body. An event stream is
  that body: it is dropped, and its guard with it. \<open>before\<close> are the tasks from before the request.\<close>

fun is_body :: "task \<Rightarrow> bool" where
  "is_body (EventsBody _ _) = True"
| "is_body _ = False"

fun drop_body :: "task \<Rightarrow> mlog \<Rightarrow> mlog" where
  "drop_body (EventsBody _ job) log = drop_guard (job_guard job) log"
| "drop_body _ log = log"

definition response_sent ::
  "string \<Rightarrow> task list \<Rightarrow> http_response option \<times> mlog \<times> 'w runtime \<Rightarrow> http_response option \<times> mlog \<times> 'w runtime" where
  "response_sent meth before out =
     (case out of (response, log, w, tasks) \<Rightarrow>
        if meth = ''HEAD''
        then (let new = drop (length before) tasks
              in (map_option (without_body meth) response, fold drop_body new log,
                  w, take (length before) tasks @ filter (\<lambda>t. \<not> is_body t) new))
        else out)"

text \<open>The last layer that is added is the first to see a request.\<close>

definition serve_request ::
  "'w service_env \<Rightarrow> 's service \<Rightarrow> http_request \<Rightarrow> mlog \<Rightarrow> 'w runtime \<Rightarrow> http_response option \<times> mlog \<times> 'w runtime" where
  "serve_request V svc req log rt =
     response_sent (req_method req) (snd rt)
       (track_http (sv_client_ip V) (\<lambda>rt. sv_clock V (fst rt))
         (rate_limited V (svc_http_quota svc) (route_request V (svc_state svc))) req log rt)"

section \<open>The parts of a request\<close>

lemma sse_stream_split:
  "sse_stream network polls bus start_from rs log = (case sse_open network bus start_from log of (job, log) \<Rightarrow> sse_follow polls rs job log)"
  by (cases "events_connection_guard network log"; cases "wait_for_api_version polls")
     (simp_all add: sse_stream_def sse_open_def sse_follow_def Let_def split: prod.split)

definition handler_metrics :: "metric_id set" where
  "handler_metrics = rpc_metrics \<union> stream_metrics"

lemma extends_sse_open: "sse_open network bus start_from log = (job, log') \<Longrightarrow> extends stream_metrics log log'"
  by (auto simp: sse_open_def Let_def case_prod_unfold stream_metrics_def footprint)

lemma extends_rpc_response: "extends rpc_metrics log (fst (snd (rpc_response V state name req log rt)))"
  using rpc_meter.run_extends
  by (auto simp: rpc_response_def case_prod_unfold split: result.split)

lemma extends_events_response: "extends stream_metrics log (fst (snd (events_response V state name req log rt)))"
  by (auto simp: events_response_def split: prod.split result.split option.split dest: extends_sse_open)

lemma binary_response_log: "fst (snd (binary_response V state name req log rt)) = log"
  by (auto simp: binary_response_def split: prod.split result.split)

interpretation route_meter: metered "\<lambda>log. fst (snd (route_request V state req log rt))" handler_metrics
  for V state req rt
proof unfold_locales
  fix log
  show "extends handler_metrics log (fst (snd (route_request V state req log rt)))"
    by (auto simp: route_request_def handler_metrics_def binary_response_log split: option.split endpoint.split
        intro: extends_mono [OF extends_rpc_response] extends_mono [OF extends_events_response])
qed

interpretation inner_meter: metered "\<lambda>log. fst (snd (rate_limited V quota (route_request V state) req log rt))"
  handler_metrics for V quota state req rt
  using route_meter.run_extends by unfold_locales (auto simp: rate_limited_def case_prod_unfold split: result.split)

lemma http_not_handler: "i \<in> http_metrics \<Longrightarrow> i \<notin> handler_metrics"
  by (auto simp: handler_metrics_def footprints)

lemma limiter_admits:
  assumes "sv_admit V quota req w = (Ok added, w1)"
    and "run_next req log (w1, tasks) = (Some resp, log', rt')"
  shows "rate_limited V quota run_next req log (w, tasks) = (Some (resp\<lparr>resp_headers := resp_headers resp @ added\<rparr>), log', rt')"
  using assms by (simp add: rate_limited_def)

definition gauge_metrics :: "metric_id set" where
  "gauge_metrics = {sse_connections, binary_connections, binary_inflight_requests}"

lemma extends_drop_body: "extends gauge_metrics a b \<Longrightarrow> extends gauge_metrics a (drop_body t b)"
  by (cases t) (auto simp: drop_guard_def dec_events_connections_def dec_binary_connections_def dec_binary_inflight_def
      gauge_metrics_def intro!: extends_emit split: GaugeKind.split)

lemma extends_drop_bodies: "extends gauge_metrics a b \<Longrightarrow> extends gauge_metrics a (fold drop_body ts b)"
  by (induction ts arbitrary: b) (simp_all add: extends_drop_body)

lemma http_not_gauge: "i \<in> http_metrics \<Longrightarrow> i \<notin> gauge_metrics"
  by (auto simp: http_metrics_def gauge_metrics_def)

lemma response_sent_kept:
  "response_sent meth before (r, log, w, before) = (map_option (without_body meth) r, log, w, before)"
  by (cases r) (simp_all add: response_sent_def)

lemma response_sent_parts:
  assumes "response_sent meth before (r, log, w, tasks) = (r', log', w', tasks')"
  shows "r' = map_option (without_body meth) r" and "extends gauge_metrics log log'" and "w' = w"
    and "meth \<noteq> ''HEAD'' \<Longrightarrow> log' = log \<and> tasks' = tasks"
  using assms extends_drop_bodies [OF extends_refl]
  by (cases r; auto simp: response_sent_def Let_def extends_refl split: if_splits)+

lemma serve_request_inner:
  assumes "rate_limited V (svc_http_quota svc) (route_request V (svc_state svc)) req log rt = (r, log1, rt1)"
  obtains log2 where "extends http_metrics log1 log2" "r = None \<Longrightarrow> log2 = log1"
    "track_http (sv_client_ip V) (\<lambda>rt. sv_clock V (fst rt))
       (rate_limited V (svc_http_quota svc) (route_request V (svc_state svc))) req log rt = (r, log2, rt1)"
    "serve_request V svc req log rt = response_sent (req_method req) (snd rt) (r, log2, rt1)"
proof -
  let ?inner = "rate_limited V (svc_http_quota svc) (route_request V (svc_state svc))"
  obtain r2 log2 rt2 where t: "track_http (sv_client_ip V) (\<lambda>rt. sv_clock V (fst rt)) ?inner req log rt = (r2, log2, rt2)"
    by (metis prod_cases3)
  then have "r2 = r \<and> rt2 = rt1 \<and> extends http_metrics log1 log2 \<and> (r = None \<longrightarrow> log2 = log1)"
    using assms by (cases r) (auto simp: track_http_def Let_def http_metrics_def intro!: extends_http_observe)
  then show thesis by (intro that [of log2]) (simp_all add: serve_request_def t)
qed

text \<open>A request that leaves no task.\<close>

lemma serve_request_quiet:
  assumes "rate_limited V (svc_http_quota svc) (route_request V (svc_state svc)) req log (w, tasks) = (Some resp, log1, w1, tasks)"
  obtains log' where "serve_request V svc req log (w, tasks) = (Some (without_body (req_method req) resp), log', w1, tasks)"
    "extends http_metrics log1 log'"
proof -
  from serve_request_inner [OF assms] obtain log2 where e: "extends http_metrics log1 log2"
    and s: "serve_request V svc req log (w, tasks) = response_sent (req_method req) tasks (Some resp, log2, w1, tasks)"
    by (metis snd_conv)
  show thesis by (rule that [OF _ e]) (simp add: s response_sent_kept)
qed

text \<open>The tasks of a response, its world and its panics.\<close>

fun task_network :: "task \<Rightarrow> string" where
  "task_network (EventsSocket name _) = name"
| "task_network (EventsBody name _) = name"
| "task_network (BinarySocket name _) = name"

definition spawned :: "'s AppState \<Rightarrow> endpoint \<Rightarrow> string \<Rightarrow> task list \<Rightarrow> task list \<Rightarrow> bool" where
  "spawned state h name tasks tasks' \<longleftrightarrow>
     tasks' = tasks \<or> (h \<in> {Events, Binary} \<and> name \<in> dom (app_networks state)
       \<and> (\<exists>t. tasks' = tasks @ [t] \<and> task_network t = name))"

lemma response_sent_spawned:
  assumes "spawned state h name tasks tasks1" and "response_sent meth tasks (r, log, w, tasks1) = (r', log', w', tasks')"
  shows "spawned state h name tasks tasks'" and "meth = ''HEAD'' \<Longrightarrow> list_all (\<lambda>t. \<not> is_body t) (drop (length tasks) tasks')"
  using assms by (auto simp: spawned_def response_sent_def Let_def list_all_iff split: if_splits)

lemma rpc_response_tasks:
  "rpc_response V state name req log (w, tasks) = (r, log', w', tasks') \<Longrightarrow> tasks' = tasks \<and> r \<noteq> None"
  by (auto simp: rpc_response_def split: prod.splits result.splits)

lemma events_response_tasks:
  "events_response V state name req log (w, tasks) = (r, log', w', tasks')
    \<Longrightarrow> spawned state Events name tasks tasks' \<and> r \<noteq> None \<and> w' = w"
  by (auto simp: events_response_def spawned_def maybe_upgrade_def split: prod.splits result.splits)

lemma binary_response_tasks:
  "binary_response V state name req log (w, tasks) = (r, log', w', tasks')
    \<Longrightarrow> spawned state Binary name tasks tasks' \<and> w' = w
      \<and> (r = None \<longrightarrow> tasks' = tasks \<and> (\<exists>panic. binary_connection_rate_limiter (sv_governor V)
            (app_binary_rate_limit_per_min state) (app_binary_rate_limit_burst state) = Err panic))"
  by (auto simp: binary_response_def spawned_def split: result.splits)

lemma route_request_tasks:
  assumes "route_request V state req log (w, tasks) = (r, log', w', tasks')"
  shows "(case dispatch (sv_path_param V) (req_method req) (req_path req) of
            None \<Rightarrow> tasks' = tasks \<and> w' = w
          | Some (h, name) \<Rightarrow> spawned state h name tasks tasks' \<and> (h \<noteq> Rpc \<longrightarrow> w' = w))
    \<and> (r = None \<longrightarrow> (\<exists>panic. binary_connection_rate_limiter (sv_governor V)
         (app_binary_rate_limit_per_min state) (app_binary_rate_limit_burst state) = Err panic))"
  using assms
  by (auto simp: route_request_def spawned_def split: option.splits endpoint.splits
      dest!: rpc_response_tasks events_response_tasks binary_response_tasks)

text \<open>A service with one network behind a limiter that admits as many requests as the burst has cells.\<close>

definition sample_env :: "nat service_env" where
  "sample_env =
     \<lparr>sv_path_param = sample_router,
      sv_fallback = (\<lambda>_. \<lparr>resp_status = 404, resp_headers = [], resp_body = EmptyBody\<rparr>),
      sv_body = (\<lambda>req w. (Ok (req_body req), w)),
      sv_query = (\<lambda>_. Ok None),
      sv_upgrade = (\<lambda>_. Err \<lparr>resp_status = 400, resp_headers = [], resp_body = EmptyBody\<rparr>),
      sv_sse_response = \<lparr>resp_status = 200, resp_headers = [(''content-type'', ''text/event-stream'')], resp_body = EmptyBody\<rparr>,
      sv_admit = (\<lambda>q req w. if w < unat (quota_burst q) then (Ok [], Suc w)
                   else (Err \<lparr>resp_status = 429, resp_headers = [], resp_body = EmptyBody\<rparr>, w)),
      sv_rpc = sample_rpc, sv_governor = sample_governor, sv_client_ip = (\<lambda>_. Some ''10.0.0.7''), sv_clock = id\<rparr>"

definition sample_service :: "unit service" where
  "sample_service = \<lparr>svc_state = sample_state, svc_http_quota = \<lparr>quota_period = 1000, quota_burst = 1\<rparr>\<rparr>"

definition sample_request :: "string \<Rightarrow> http_request" where
  "sample_request path = \<lparr>req_method = ''GET'', req_path = path, req_body = []\<rparr>"

lemma sample_labels:
  "network_from_path ''/main/events'' = ''main''" "endpoint_from_path ''/main/events'' = ''events''"
  using labels_of_path [of "''main''" Events] by simp_all

lemma sample_dispatch: "dispatch sample_router ''GET'' ''/main/events'' = Some (Events, ''main'')"
  by (simp add: dispatch_Some [OF sample_router_matches] takes_method_def)

lemma sample_served:
  "\<exists>log' job. serve_request sample_env sample_service (sample_request ''/main/events'') [] (0, [])
    = (Some (sv_sse_response sample_env), log', 1, [EventsBody ''main'' job])"
proof -
  have "sv_admit sample_env (svc_http_quota sample_service) (sample_request ''/main/events'') 0 = (Ok [], 1)"
    by (simp add: sample_env_def sample_service_def)
  moreover obtain job log1 where "sse_open ''main'' (net_events sample_net) None [] = (job, log1)" by (metis surj_pair)
  then have "route_request sample_env sample_state (sample_request ''/main/events'') [] (1, [])
      = (Some (sv_sse_response sample_env), log1, 1, [EventsBody ''main'' job])"
    using sample_dispatch sample_network
    by (simp add: route_request_def events_response_def sample_env_def sample_request_def maybe_upgrade_def
        get_network_def ok_or_def)
  ultimately have "rate_limited sample_env (svc_http_quota sample_service) (route_request sample_env (svc_state sample_service))
      (sample_request ''/main/events'') [] (0, []) = (Some (sv_sse_response sample_env), log1, 1, [EventsBody ''main'' job])"
    by (simp add: rate_limited_def sample_service_def)
  from serve_request_inner [OF this] obtain log2 where
    "serve_request sample_env sample_service (sample_request ''/main/events'') [] (0, [])
      = response_sent ''GET'' [] (Some (sv_sse_response sample_env), log2, 1, [EventsBody ''main'' job])"
    by (auto simp: sample_request_def)
  then show ?thesis by (simp add: response_sent_def)
qed

section \<open>Properties\<close>

text \<open>C11: every response is counted exactly once, whichever handler, extractor or layer it comes from. From
  before the request to after its response, the requests counted under its network, method, endpoint and
  status grow by one and no others do; the 429 counter grows by one exactly when the status is 429; and the
  requests of the client address grow by one when it has one.\<close>

theorem service_accounts_once:
  assumes "serve_request V svc req log rt = (Some resp, log', rt')"
  shows "(\<forall>ls. counter http_requests_total ls log' = counter http_requests_total ls log
         + (if ls = [network_from_path (req_path req), req_method req,
              endpoint_from_path (req_path req), dec_string (unat (resp_status resp))] then 1 else 0))
    \<and> (\<forall>ls. counter http_429_total ls log' = counter http_429_total ls log
         + (if resp_status resp = 429
              \<and> ls = [network_from_path (req_path req), endpoint_from_path (req_path req)] then 1 else 0))
    \<and> (\<forall>ls. counter http_requests_by_ip_total ls log' = counter http_requests_by_ip_total ls log
         + (case sv_client_ip V req of None \<Rightarrow> 0
            | Some ip \<Rightarrow> if ls = [network_from_path (req_path req), ip] then 1 else 0))
    \<and> (log_ok log' \<longleftrightarrow> log_ok log)"
proof -
  let ?inner = "rate_limited V (svc_http_quota svc) (route_request V (svc_state svc))"
  obtain r log1 w1 tasks1 where i: "?inner req log rt = (r, log1, w1, tasks1)" by (metis prod_cases4)
  from serve_request_inner [OF i] obtain log2 where ext: "extends http_metrics log1 log2"
    and t: "track_http (sv_client_ip V) (\<lambda>rt. sv_clock V (fst rt)) ?inner req log rt = (r, log2, w1, tasks1)"
    and s: "serve_request V svc req log rt = response_sent (req_method req) (snd rt) (r, log2, w1, tasks1)" .
  obtain w2 tasks2 where rt': "rt' = (w2, tasks2)" by (cases rt')
  note parts = response_sent_parts [OF trans [OF s [symmetric] assms [unfolded rt']]]
  from parts(1) obtain resp1 where same: "r = Some resp1" and st: "resp_status resp1 = resp_status resp"
    by (cases r) auto
  have "extends handler_metrics log log1"
    using inner_meter.run_extends [of log V "svc_http_quota svc" "svc_state svc" req rt] i by simp
  note before = extends_outside(1) [OF this http_not_handler] and ok = extends_log_ok [OF this]
  note after = extends_outside(1) [OF parts(2) http_not_gauge]
  have keep: "counter i ls log1 = counter i ls log"
    if "i \<in> {http_requests_total, http_429_total, http_requests_by_ip_total}" for i ls
    using before that by (auto simp: http_metrics_def)
  from track_http_accounts [where run_next = ?inner and extract_ip = "sv_client_ip V"
      and clock = "\<lambda>rt. sv_clock V (fst rt)", OF i [unfolded same]] t same
  show ?thesis
    using extends_log_ok [OF ext] extends_log_ok [OF parts(2)] ok after
    by (auto simp: keep st http_metrics_def split: option.splits)
qed

theorem service_accounts_once_witness:
  "\<exists>log' rt'. serve_request sample_env sample_service (sample_request ''/main/events'') [] (0, [])
      = (Some (sv_sse_response sample_env), log', rt')
    \<and> counter http_requests_total [''main'', ''GET'', ''events'', ''200''] log' = 1
    \<and> counter http_requests_by_ip_total [''main'', ''10.0.0.7''] log' = 1"
proof -
  obtain log' job where s: "serve_request sample_env sample_service (sample_request ''/main/events'') [] (0, [])
    = (Some (sv_sse_response sample_env), log', 1, [EventsBody ''main'' job])" using sample_served by blast
  have d: "dec_string 200 = ''200''" by code_simp
  have e: "req_path (sample_request ''/main/events'') = ''/main/events''" "req_method (sample_request ''/main/events'') = ''GET''"
    "resp_status (sv_sse_response sample_env) = 200" "sv_client_ip sample_env r = Some ''10.0.0.7''" for r
    by (simp_all add: sample_request_def sample_env_def)
  from service_accounts_once [OF s] show ?thesis by (auto simp: s e d sample_labels)
qed

text \<open>C14: a request the rate limit refuses runs nothing. The response is the limiter's (without its body when the
  request is a HEAD request), the only effect on the
  world is the limiter's own, no task is spawned, no handler writes a metric, and a refusal with status 429
  is counted as one for the network and endpoint of its path.\<close>

theorem refused_request_runs_nothing:
  assumes "sv_admit V (svc_http_quota svc) req w = (Err refused, w1)"
  shows "\<exists>log'. serve_request V svc req log (w, tasks) = (Some (without_body (req_method req) refused), log', w1, tasks)
    \<and> extends http_metrics log log'
    \<and> (resp_status refused = 429 \<longrightarrow>
         counter http_429_total [network_from_path (req_path req), endpoint_from_path (req_path req)] log'
         = Suc (counter http_429_total [network_from_path (req_path req), endpoint_from_path (req_path req)] log))"
proof -
  let ?inner = "rate_limited V (svc_http_quota svc) (route_request V (svc_state svc))"
  have i: "?inner req log (w, tasks) = (Some refused, log, w1, tasks)"
    using assms by (simp add: rate_limited_def)
  from serve_request_inner [OF i] obtain log2 where e: "extends http_metrics log log2"
    and t: "track_http (sv_client_ip V) (\<lambda>rt. sv_clock V (fst rt)) ?inner req log (w, tasks) = (Some refused, log2, w1, tasks)"
    and s: "serve_request V svc req log (w, tasks) = response_sent (req_method req) (snd (w, tasks)) (Some refused, log2, w1, tasks)" .
  from track_http_accounts [where run_next = ?inner and extract_ip = "sv_client_ip V"
      and clock = "\<lambda>rt. sv_clock V (fst rt)", OF i] s e t show ?thesis by (auto simp: response_sent_kept)
qed

theorem refused_request_runs_nothing_witness:
  "\<exists>log'. serve_request sample_env sample_service (sample_request ''/main/events'') [] (1, [])
      = (Some \<lparr>resp_status = 429, resp_headers = [], resp_body = EmptyBody\<rparr>, log', 1, [])
    \<and> counter http_429_total [''main'', ''events''] log' = 1"
proof -
  have "sv_admit sample_env (svc_http_quota sample_service) (sample_request ''/main/events'') 1
      = (Err \<lparr>resp_status = 429, resp_headers = [], resp_body = EmptyBody\<rparr>, 1)"
    by (simp add: sample_env_def sample_service_def)
  from refused_request_runs_nothing [OF this, of "[]" "[]"] show ?thesis
    by (auto simp: sample_request_def sample_labels)
qed

text \<open>C16: what a request can leave behind. A request the limiter refuses or the router does not know leaves
  no task; any other leaves at most one, only on the events and binary endpoints, and only for a configured
  network, the one of its path, and a HEAD request never the body of an event stream; and only an RPC request
  goes on to touch the world after the limiter has seen it.\<close>

theorem service_spawns_known:
  assumes "serve_request V svc req log (w, tasks) = (r, log', w', tasks')"
  shows "case sv_admit V (svc_http_quota svc) req w of
      (Err _, w1) \<Rightarrow> tasks' = tasks \<and> w' = w1
    | (Ok _, w1) \<Rightarrow>
        (case dispatch (sv_path_param V) (req_method req) (req_path req) of
           None \<Rightarrow> tasks' = tasks \<and> w' = w1
         | Some (h, name) \<Rightarrow>
             (tasks' = tasks \<or> (h \<in> {Events, Binary} \<and> name \<in> dom (app_networks (svc_state svc))
                \<and> (\<exists>t. tasks' = tasks @ [t] \<and> task_network t = name \<and> \<not> (req_method req = ''HEAD'' \<and> is_body t))))
             \<and> (h \<noteq> Rpc \<longrightarrow> w' = w1))"
proof -
  let ?inner = "rate_limited V (svc_http_quota svc) (route_request V (svc_state svc))"
  obtain r1 log1 w2 tasks1 where i: "?inner req log (w, tasks) = (r1, log1, w2, tasks1)" by (metis prod_cases4)
  from serve_request_inner [OF i] obtain log2 where
    "serve_request V svc req log (w, tasks) = response_sent (req_method req) (snd (w, tasks)) (r1, log2, w2, tasks1)" .
  with assms have sent: "response_sent (req_method req) tasks (r1, log2, w2, tasks1) = (r, log', w', tasks')" by simp
  have w: "w2 = w'" using response_sent_parts(3) [OF sent] by simp
  obtain a w1 where admit: "sv_admit V (svc_http_quota svc) req w = (a, w1)" by (metis surj_pair)
  show ?thesis
  proof (cases a)
    case (Err refused)
    with i admit have "tasks1 = tasks" "w2 = w1" by (auto simp: rate_limited_def)
    then show ?thesis using sent by (simp add: admit Err response_sent_kept)
  next
    case (Ok added)
    then obtain r2 where "route_request V (svc_state svc) req log (w1, tasks) = (r2, log1, w', tasks1)"
      using i admit w by (auto simp: rate_limited_def split: prod.splits)
    note routed = conjunct1 [OF route_request_tasks [OF this]]
    show ?thesis
    proof (cases "dispatch (sv_path_param V) (req_method req) (req_path req)")
      case None
      with routed sent show ?thesis by (simp add: admit Ok response_sent_kept)
    next
      case (Some hn)
      obtain h name where hn: "hn = (h, name)" by (cases hn)
      have sp: "spawned (svc_state svc) h name tasks tasks1" "h \<noteq> Rpc \<longrightarrow> w' = w1" using routed by (simp_all add: Some hn)
      note after = response_sent_spawned [OF sp(1) sent]
      show ?thesis using after sp(2) by (auto simp: admit Ok Some hn spawned_def)
    qed
  qed
qed

theorem service_spawns_known_witness:
  "\<exists>log' job. serve_request sample_env sample_service (sample_request ''/main/events'') [] (0, [])
      = (Some (sv_sse_response sample_env), log', 1, [EventsBody ''main'' job])
    \<and> ''main'' \<in> dom (app_networks (svc_state sample_service))"
proof -
  obtain log' job where s: "serve_request sample_env sample_service (sample_request ''/main/events'') [] (0, [])
    = (Some (sv_sse_response sample_env), log', 1, [EventsBody ''main'' job])" using sample_served by blast
  have a: "sv_admit sample_env (svc_http_quota sample_service) (sample_request ''/main/events'') 0 = (Ok [], 1)"
    and p: "sv_path_param sample_env = sample_router"
    and m: "req_method (sample_request ''/main/events'') = ''GET''" "req_path (sample_request ''/main/events'') = ''/main/events''"
    by (simp_all add: sample_env_def sample_service_def sample_request_def)
  from service_spawns_known [OF s] have "''main'' \<in> dom (app_networks (svc_state sample_service))"
    by (simp add: a p m sample_dispatch)
  with s show ?thesis by blast
qed

text \<open>The response of an extractor that rejects a request to an endpoint.\<close>

fun rejection :: "'w service_env \<Rightarrow> endpoint \<Rightarrow> http_request \<Rightarrow> 'w \<Rightarrow> http_response option" where
  "rejection V NetworkRoot req w = None"
| "rejection V Rpc req w = (case fst (sv_body V req w) of Err r \<Rightarrow> Some r | Ok _ \<Rightarrow> None)"
| "rejection V Events req w = (case sv_query V req of Err r \<Rightarrow> Some r | Ok _ \<Rightarrow> None)"
| "rejection V Binary req w = (case sv_upgrade V req of Err r \<Rightarrow> Some r | Ok _ \<Rightarrow> None)"

lemma route_unknown:
  assumes "app_networks state name = None" and "dispatch (sv_path_param V) (req_method req) (req_path req) = Some (h, name)"
  shows "route_request V state req log (w, tasks) =
    (Some (case rejection V h req w of Some r \<Rightarrow> r | None \<Rightarrow> into_response (not_found (''unknown network: '' @ name))),
     log, (if h = Rpc then snd (sv_body V req w) else w), tasks)"
  using assms(1)
  by (cases h) (auto simp: route_request_def assms(2) rpc_response_def events_response_def binary_response_def
      get_network_def ok_or_def unknown_network [OF assms(1)] split: prod.split result.split)

text \<open>C32: a network that is not configured is the same error on every endpoint. An admitted request to one of
  them is answered with 404 and a JSON body that names the network, unless an extractor of the endpoint rejects
  the request before the lookup (the body of a call, the query of the events, the upgrade of a binary socket):
  then with that rejection. In both cases no task is spawned, nothing but the reading of a call's body touches
  the world, so no upstream request is sent, and only the HTTP layer writes metrics.\<close>

theorem unknown_network_rejected:
  assumes "app_networks (svc_state svc) name = None"
    and "dispatch (sv_path_param V) (req_method req) (req_path req) = Some (h, name)"
    and "sv_admit V (svc_http_quota svc) req w = (Ok added, w1)"
  shows "\<exists>resp log'. serve_request V svc req log (w, tasks)
      = (Some resp, log', (if h = Rpc then snd (sv_body V req w1) else w1), tasks)
    \<and> extends http_metrics log log'
    \<and> (case rejection V h req w1 of
         Some r \<Rightarrow> resp = without_body (req_method req) (r\<lparr>resp_headers := resp_headers r @ added\<rparr>)
       | None \<Rightarrow> resp_status resp = 404
           \<and> resp_body resp = (if req_method req = ''HEAD'' then EmptyBody
               else JsonBody (JObject [(''error'', JString (''unknown network: '' @ name))])))"
proof -
  let ?base = "case rejection V h req w1 of Some r \<Rightarrow> r | None \<Rightarrow> into_response (not_found (''unknown network: '' @ name))"
  from limiter_admits [where run_next = "route_request V (svc_state svc)", OF assms(3) route_unknown [OF assms(1,2)]]
  obtain log' where "serve_request V svc req log (w, tasks)
      = (Some (without_body (req_method req) (?base\<lparr>resp_headers := resp_headers ?base @ added\<rparr>)), log',
         (if h = Rpc then snd (sv_body V req w1) else w1), tasks)" "extends http_metrics log log'"
    by (rule serve_request_quiet)
  then show ?thesis
    by (auto simp: without_body_def into_response_def not_found_def AppError_new_def split: option.split)
qed

theorem unknown_network_rejected_witness:
  "\<exists>resp log'. serve_request sample_env sample_service (sample_request ''/test/events'') [] (0, []) = (Some resp, log', 1, [])
    \<and> resp_status resp = 404 \<and> resp_body resp = JsonBody (JObject [(''error'', JString ''unknown network: test'')])"
proof -
  have n: "app_networks (svc_state sample_service) ''test'' = None" by (simp add: sample_service_def sample_state_def)
  have d: "dispatch (sv_path_param sample_env) (req_method (sample_request ''/test/events''))
      (req_path (sample_request ''/test/events'')) = Some (Events, ''test'')"
    by (simp add: sample_env_def sample_request_def dispatch_Some [OF sample_router_matches] takes_method_def)
  have a: "sv_admit sample_env (svc_http_quota sample_service) (sample_request ''/test/events'') 0 = (Ok [], 1)"
    by (simp add: sample_env_def sample_service_def)
  have "rejection sample_env Events (sample_request ''/test/events'') 1 = None" by (simp add: sample_env_def)
  with unknown_network_rejected [OF n d a, of "[]" "[]"] show ?thesis by (auto simp: sample_request_def)
qed

text \<open>The one panic of a handler.\<close>

lemma binary_panics:
  assumes "governor_documented (sv_governor V)"
  shows "fst (binary_response V state name req log rt) = None \<longleftrightarrow>
    is_ok (sv_upgrade V req) \<and> name \<in> dom (app_networks state)
    \<and> \<not> limiter_fits (configured_quota (app_binary_rate_limit_per_min state) (app_binary_rate_limit_burst state))"
  using binary_limiter_documented [OF assms, of "app_binary_rate_limit_per_min state" "app_binary_rate_limit_burst state"]
  by (cases "sv_upgrade V req"; cases "app_networks state name"; cases rt)
     (auto simp: binary_response_def get_network_def ok_or_def split: if_splits)

lemma route_panics:
  assumes "governor_documented (sv_governor V)"
  shows "fst (route_request V state req log rt) = None \<longleftrightarrow>
    (\<exists>name. dispatch (sv_path_param V) (req_method req) (req_path req) = Some (Binary, name)
      \<and> is_ok (sv_upgrade V req) \<and> name \<in> dom (app_networks state)
      \<and> \<not> limiter_fits (configured_quota (app_binary_rate_limit_per_min state) (app_binary_rate_limit_burst state)))"
proof -
  obtain w tasks where rt: "rt = (w, tasks)" by (cases rt)
  have "fst (rpc_response V state name req log rt) \<noteq> None" for name
    using rpc_response_tasks unfolding rt by (metis prod_cases4 fst_conv)
  moreover have "fst (events_response V state name req log rt) \<noteq> None" for name
    using events_response_tasks unfolding rt by (metis prod_cases4 fst_conv)
  ultimately show ?thesis
    using binary_panics [OF assms, of state _ req log rt]
    by (auto simp: route_request_def split: option.split endpoint.split)
qed

text \<open>C40: which requests get no response. A handler panics for an admitted request exactly when it is an upgrade
  of the binary endpoint of a configured network and the configured limit of the binary requests does not
  fit the limiter: the time to replenish its burst overflows 64 bits of nanoseconds. With a burst of at most
  307445734, or from fourteen requests per minute on, every request gets a response.\<close>

theorem service_always_responds:
  assumes "governor_documented (sv_governor V)"
  shows "\<exists>r log' rt'. serve_request V svc req log (w, tasks) = (r, log', rt')
    \<and> (r = None \<longleftrightarrow> (\<exists>added w1 name. sv_admit V (svc_http_quota svc) req w = (Ok added, w1)
          \<and> dispatch (sv_path_param V) (req_method req) (req_path req) = Some (Binary, name)
          \<and> is_ok (sv_upgrade V req) \<and> name \<in> dom (app_networks (svc_state svc))
          \<and> 2 ^ 64 \<le> unat (per_minute_to_period (app_binary_rate_limit_per_min (svc_state svc))) * 1000000
                * unat (max (app_binary_rate_limit_burst (svc_state svc)) 1)))
    \<and> (unat (app_binary_rate_limit_burst (svc_state svc)) \<le> 307445734
         \<or> 14 \<le> unat (app_binary_rate_limit_per_min (svc_state svc)) \<longrightarrow> r \<noteq> None)"
proof -
  let ?inner = "rate_limited V (svc_http_quota svc) (route_request V (svc_state svc))"
  let ?q = "configured_quota (app_binary_rate_limit_per_min (svc_state svc)) (app_binary_rate_limit_burst (svc_state svc))"
  obtain r log1 w2 tasks2 where i: "?inner req log (w, tasks) = (r, log1, w2, tasks2)" by (metis prod_cases4)
  from serve_request_inner [OF i] obtain log2 where
    s: "serve_request V svc req log (w, tasks) = response_sent (req_method req) (snd (w, tasks)) (r, log2, w2, tasks2)" .
  obtain r' log' w' tasks' where s': "response_sent (req_method req) tasks (r, log2, w2, tasks2) = (r', log', w', tasks')"
    by (metis prod_cases4)
  have r: "r' = None \<longleftrightarrow> r = None" using response_sent_parts(1) [OF s'] by simp
  obtain a w1 where admit: "sv_admit V (svc_http_quota svc) req w = (a, w1)" by (metis surj_pair)
  have none: "r = None \<longleftrightarrow> (\<exists>added name. a = Ok added
      \<and> dispatch (sv_path_param V) (req_method req) (req_path req) = Some (Binary, name)
      \<and> is_ok (sv_upgrade V req) \<and> name \<in> dom (app_networks (svc_state svc)) \<and> \<not> limiter_fits ?q)"
    using i route_panics [OF assms, of "svc_state svc" req log "(w1, tasks)"]
    by (cases a) (auto simp: rate_limited_def admit split: prod.splits)
  have fits: "\<not> limiter_fits ?q \<longleftrightarrow> 2 ^ 64 \<le> unat (per_minute_to_period (app_binary_rate_limit_per_min (svc_state svc))) * 1000000
      * unat (max (app_binary_rate_limit_burst (svc_state svc)) 1)"
    by (simp only: limiter_fits_def replenish_nanos_def configured_quota_def Quota.simps not_less)
  have "unat (app_binary_rate_limit_burst (svc_state svc)) \<le> 307445734
      \<or> 14 \<le> unat (app_binary_rate_limit_per_min (svc_state svc)) \<longrightarrow> limiter_fits ?q"
    using limiter_fits_burst limiter_fits_rate by blast
  with none have "unat (app_binary_rate_limit_burst (svc_state svc)) \<le> 307445734
      \<or> 14 \<le> unat (app_binary_rate_limit_per_min (svc_state svc)) \<longrightarrow> r' \<noteq> None" unfolding r by blast
  moreover have "serve_request V svc req log (w, tasks) = (r', log', w', tasks')" using s s' by simp
  moreover note none [unfolded fits, folded r]
  ultimately show ?thesis
    by (intro exI [of _ r'] exI [of _ log'] exI [of _ "(w', tasks')"] conjI) (simp_all only: admit, blast+)
qed

text \<open>A limit of one request per minute with the largest burst.\<close>

definition slow_state :: "unit AppState" where
  "slow_state = sample_state\<lparr>app_binary_rate_limit_per_min := 1, app_binary_rate_limit_burst := - 1\<rparr>"

theorem service_always_responds_witness:
  "(\<exists>resp log' rt'. serve_request sample_env sample_service (sample_request ''/main/binary'') [] (0, []) = (Some resp, log', rt'))
   \<and> (\<exists>log' rt'. serve_request (sample_env\<lparr>sv_upgrade := \<lambda>_. Ok (sv_sse_response sample_env)\<rparr>)
         (sample_service\<lparr>svc_state := slow_state\<rparr>) (sample_request ''/main/binary'') [] (0, []) = (None, log', rt'))"
proof -
  have d: "dispatch sample_router ''GET'' ''/main/binary'' = Some (Binary, ''main'')"
    by (simp add: dispatch_Some [OF sample_router_matches] takes_method_def)
  have g: "governor_documented (sv_governor sample_env)"
    "governor_documented (sv_governor (sample_env\<lparr>sv_upgrade := \<lambda>_. Ok (sv_sse_response sample_env)\<rparr>))"
    by (simp_all add: sample_env_def sample_governor_documented)
  have m: "unat (max (- 1 :: u32) 1) = 2 ^ 32 - 1" by (simp add: max_def word_le_nat_alt unsigned_minus_1_eq_mask mask_eq_exp_minus_1)
  from service_always_responds [OF g(1), of sample_service "sample_request ''/main/binary''" "[]" 0 "[]"]
    service_always_responds [OF g(2), of "sample_service\<lparr>svc_state := slow_state\<rparr>" "sample_request ''/main/binary''" "[]" 0 "[]"]
  show ?thesis
    using sample_network d m
    by (auto simp: sample_env_def sample_service_def sample_request_def slow_state_def unat_period)
qed

text \<open>C15: from the tables to the answers. When the database returns the inner join of its two tables, \<open>run\<close>
  gets to serving and the limiter admits the request, \<open>GET /name/\<close> is answered with 200 and the chain name of
  the network row exactly when the config table has a row of that name, and with 404 otherwise; it spawns
  nothing and touches nothing.\<close>

theorem started_service_answers:
  assumes "schema_ok nets rows" and "\<And>conn w. fst (load_inner_join D conn w) = Ok joined"
    and "inner_join_of nets rows joined"
    and "run Pm D G H env w = (report, w')" and "run_service report = Some svc"
    and "router_matches (sv_path_param V)" and "name \<noteq> []" and "CHR ''/'' \<notin> set name" and "CHR ''%'' \<notin> set name"
    and "req_method req = ''GET''" and "req_path req = ''/'' @ name @ ''/''"
    and "sv_admit V (svc_http_quota svc) req v = (Ok added, v1)"
  shows "\<exists>resp log'. serve_request V svc req log (v, tasks) = (Some resp, log', v1, tasks)
    \<and> (if name \<in> cr_network_name ` set rows
        then resp_status resp = 200
          \<and> (\<exists>n \<in> set nets. \<exists>members. nr_network_name n = name \<and> resp_body resp = JsonBody (JObject members)
               \<and> obj_get ''chain_name'' members = Some (JString (nr_chain_name n)))
        else resp_status resp = 404)"
proof -
  note served = run_network_map [OF assms(1-5)]
  let ?root = "respond (network_root (svc_state svc) name)"
  have "dispatch (sv_path_param V) ''GET'' (''/'' @ name @ ''/'') = Some (NetworkRoot, name)"
    using assms(7-9) by (simp add: dispatch_Some [OF assms(6)] takes_method_def)
  then have "route_request V (svc_state svc) req log (v1, tasks) = (Some ?root, log, v1, tasks)"
    by (simp add: route_request_def assms(10,11))
  from limiter_admits [where run_next = "route_request V (svc_state svc)", OF assms(12) this] obtain log' where
    "serve_request V svc req log (v, tasks)
      = (Some (without_body (req_method req) (?root\<lparr>resp_headers := resp_headers ?root @ added\<rparr>)), log', v1, tasks)"
    by (rule serve_request_quiet)
  then have s: "serve_request V svc req log (v, tasks) = (Some (?root\<lparr>resp_headers := resp_headers ?root @ added\<rparr>), log', v1, tasks)"
    by (simp add: assms(10))
  show ?thesis
  proof (cases "app_networks (svc_state svc) name")
    case (Some net)
    with served obtain n r where n: "n \<in> set nets" "net_config net = from_rows n r" "nr_network_name n = name" by blast
    have "network_root (svc_state svc) name = Ok \<lparr>resp_status = 200, resp_headers = [(''content-type'', ''application/json'')],
        resp_body = JsonBody (network_links net name)\<rparr>"
      using Some by (simp add: network_root_def get_network_def ok_or_def)
    moreover from Some have "name \<in> cr_network_name ` set rows" using served(1) by blast
    ultimately show ?thesis using s n by (auto simp: network_links_def obj_get_def from_rows_def)
  next
    case None
    then have "name \<notin> cr_network_name ` set rows" using served(1) by blast
    moreover from None have "network_root (svc_state svc) name = Err (not_found (''unknown network: '' @ name))"
      by (simp add: network_root_def get_network_def ok_or_def)
    ultimately show ?thesis using s by simp
  qed
qed

theorem started_service_answers_witness:
  "\<exists>report svc w' V resp log'.
     run doc_prometheus sample_diesel sample_governor sample_host (\<lambda>_. None) 0 = (report :: unit run_report, w')
     \<and> run_service report = Some svc
     \<and> serve_request V svc (sample_request ''/devnet/'') [] (0 :: nat, []) = (Some resp, log', 0, [])
     \<and> resp_status resp = 200"
proof -
  obtain report svc where
    r: "run doc_prometheus sample_diesel sample_governor sample_host (\<lambda>_. None) 0 = (report :: unit run_report, 0)"
      "run_service report = Some svc"
    by (rule sample_run)
  let ?V = "sample_env\<lparr>sv_admit := \<lambda>_ _ w. (Ok [], w)\<rparr>"
  have m: "router_matches (sv_path_param ?V)" using sample_router_matches by (simp add: sample_env_def)
  have q: "req_method (sample_request ''/devnet/'') = ''GET''" "req_path (sample_request ''/devnet/'') = ''/'' @ ''devnet'' @ ''/''"
    by (simp_all add: sample_request_def)
  have a: "sv_admit ?V (svc_http_quota svc) (sample_request ''/devnet/'') 0 = (Ok [], 0)" by simp
  from started_service_answers [OF sample_tables r m _ _ _ q a, of "[]" "[]"]
  obtain resp log' where "serve_request ?V svc (sample_request ''/devnet/'') [] (0, []) = (Some resp, log', 0, [])"
    "resp_status resp = 200" by (auto simp: sample_config_row_def)
  with r show ?thesis by blast
qed

text \<open>Answering first and streaming later is the same as the handler in one piece. For a configured network
  and an accepted query, the response of the events endpoint leaves exactly one task, and running that task
  after the response, on the log the response left, produces the frames, the log and the end of the stream
  that the events handler produces in one go, over a socket as over a response body.\<close>

theorem events_response_then_stream:
  assumes "app_networks state name = Some net" and "sv_query V req = Ok start_from"
    and "events_response V state name req log (w, tasks) = (r, log1, w1, tasks1)"
  shows "w1 = w \<and> (case sv_upgrade V req of
      Ok accepted \<Rightarrow> r = Some accepted \<and> tasks1 = tasks @ [EventsSocket name start_from]
        \<and> events_handler (Ok S) (\<lambda>bus. (polls, later bus)) state name start_from es log w
          = (case handle_events_socket S name polls (later (net_events net)) start_from es log1 w of
               (ended, out, log2, w2) \<Rightarrow> (Ok (SocketFrames ended out), log2, w2))
    | Err e \<Rightarrow> r = Some (sv_sse_response V) \<and> (\<exists>job. tasks1 = tasks @ [EventsBody name job]
        \<and> events_handler (Err e) (\<lambda>bus. (polls, bus)) state name start_from es log w
          = (case sse_follow polls (live_recvs es) job log1 of
               (ended, out, log2) \<Rightarrow> (Ok (SseFrames ended out), log2, w))))"
proof -
  obtain job log2 where j: "sse_open name (net_events net) start_from log = (job, log2)" by (metis surj_pair)
  show ?thesis
    using assms(3)
    by (cases "sv_upgrade V req")
       (auto simp: events_response_def events_handler_def get_network_def ok_or_def maybe_upgrade_def
         sse_stream_split assms(1,2) j)
qed

theorem events_response_then_stream_witness:
  "\<exists>job log1. events_response sample_env sample_state ''main'' (sample_request ''/main/events'') [] (0, [])
      = (Some (sv_sse_response sample_env), log1, 0, [EventsBody ''main'' job])
    \<and> sse_follow [] [] job log1 = (False, [], log1)"
proof -
  obtain r log1 w1 tasks1 where
    e: "events_response sample_env sample_state ''main'' (sample_request ''/main/events'') [] (0, []) = (r, log1, w1, tasks1)"
    by (metis prod_cases4)
  have q: "sv_query sample_env (sample_request ''/main/events'') = Ok None" by (simp add: sample_env_def)
  have u: "\<exists>x. sv_upgrade sample_env (sample_request ''/main/events'') = Err x" by (simp add: sample_env_def)
  from events_response_then_stream [OF sample_network q e, where polls = "[]" and es = "[]"] u obtain job where
    "w1 = 0" "r = Some (sv_sse_response sample_env)" "tasks1 = [EventsBody ''main'' job]" by auto
  moreover have "sse_follow [] [] job log1 = (False, [], log1)" by (simp add: sse_follow_def)
  ultimately show ?thesis using e by blast
qed

end
