(* ===== verification/Spec2Isabelle.thy ===== *)
theory Spec2Isabelle
  imports Api_Version_Wait Sse_Listener Event_Interleaving Event_Bus_Tests Binary_Log Pool_Progress Schema Exposition Service
begin

text \<open>
  \<^bold>\<open>Verification of the Casper node proxy.\<close>

  The program (Rust, \<open>src/src\<close>) is an HTTP service in front of Casper nodes. At start it reads its settings
  from the environment, migrates and reads a database of networks, and builds for every network an
  event bus, a pool of binary-port connections and a task that follows the event stream of the node.
  Clients ask for a network by the first segment of the path: its root lists its endpoints, \<open>/rpc\<close> proxies
  JSON-RPC through an allowlist, \<open>/events\<close> streams events over a websocket or SSE with replay from a
  backlog, and \<open>/binary\<close> forwards binary-port requests over a websocket. Peers of the node are hidden on
  every path. Every part counts what it does in Prometheus metrics.

  \<^bold>\<open>How the code is modelled.\<close> A struct is a record, an enum a datatype, a method a function with the name of
  the source; machine integers are words. \<open>Result\<close> is \<open>result\<close>, a panic of an \<open>expect\<close> or of a
  library constructor (a channel, a semaphore or a limiter of a size it cannot have) is an error value. The metrics are one log of calls that every operation threads; a counter is read
  off the log. Third-party code is a parameter: a record of its functions over an abstract world \<open>'w\<close>,
  and what a property relies on is a named hypothesis (\<open>casper_laws\<close>, \<open>byte_stream\<close>, \<open>json_faithful\<close>,
  \<open>prometheus_accepts\<close>, \<open>governor_documented\<close>, \<open>router_matches\<close>, \<open>schema_ok\<close> with \<open>inner_join_of\<close>,
  \<open>redis_healthy\<close>, \<open>sink_ok\<close>, \<open>db_ok\<close>, \<open>builder_documented\<close>, \<open>static_documented\<close>), each instantiated by a concrete sample in the witnesses. A task that
  runs for ever is given by its rounds or by the finite list of what it has received so far; a flag
  tells whether it has ended, so no fuel is needed. Where tasks interleave there is a step relation.

  \<^bold>\<open>The theories.\<close>

  \<^item> \<open>Prelude\<close>: words, results, actions over a world, the string and number routines of the standard
    library (decimal and little-endian round trips), reachability and the locale \<open>invariant_system\<close>.
    \<open>Utf8\<close>: the text type of the standard library, its UTF-8 bytes and the checked way back.
  \<^item> \<open>Http_Types\<close>: JSON values, requests, responses, \<open>AppError\<close> (\<open>handlers.rs\<close>). \<open>Json_Values\<close>: which values a
    parser returns (recursion limit, 64-bit integers) and what writing and reading keeps of them: everything
    but the order of members and the digits of fractions.
  \<^item> \<open>Metrics\<close> (\<open>metrics.rs\<close>): registration, all methods, the guards (locale \<open>gauge_scope\<close>, interpreted for
    the three guards), the HTTP middleware. Building the metrics cannot panic; the middleware counts
    each response once. \<open>Exposition\<close>: the \<open>/metrics\<close> endpoint returns the encoder's text and is not
    reachable through the public service. \<open>Metric_Footprint\<close>: every part of the program only makes
    well-typed calls, on its own vectors (locale \<open>metered\<close>, interpreted for each of them).
  \<^item> \<open>Config\<close> (\<open>config.rs\<close>, locale \<open>env_reader\<close>), \<open>Rate_Limit\<close> (\<open>rate_limit.rs\<close>), \<open>Database\<close> (\<open>db.rs\<close>,
    \<open>models.rs\<close>): settings at full width and their defaults; periods between a millisecond and a
    minute, and the limits for which a limiter can be built; backend choice, migrations, one configuration per row. \<open>Schema\<close> (\<open>schema.rs\<close>, the migration): the declared tables
    are the migrated ones, NOT NULL included, and the rows decoded by position carry the columns of their names.
  \<^item> \<open>Event_Bus\<close> (\<open>state.rs\<close>): the bus refines a numbered history with a window (locale \<open>event_store\<close>).
    \<open>Event_Bus_Tests\<close>: the unit tests of the file, evaluated. \<open>Api_Version_Wait\<close>: the wait for the ApiVersion
    against its setter, without lost wake-ups.
  \<^item> \<open>Websocket\<close>, \<open>Event_Streams\<close> (\<open>handlers.rs\<close>): replay and live stream without gap or duplicate, the same
    events on both transports, the gauge of open streams. \<open>Event_Interleaving\<close>: the listener and a client
    as two processes whose atomic steps interleave; no schedule makes a gap, a duplicate or a reordering.
  \<^item> \<open>Sse_Listener\<close> (\<open>sse.rs\<close>): a round feeds the bus with exactly the events of the stream; the resume
    point in Redis is the one in memory; reconnects are counted.
  \<^item> \<open>Binary_Codec\<close>, \<open>Binary_Rewrite\<close> (\<open>binary_proxy.rs\<close>): requests and responses of the binary port. The
    locale \<open>lossless_codec\<close>, extended by \<open>bytesrepr_type\<close>, is the contract of a wire type, interpreted for
    \<open>OpaquePayload\<close>. Rewriting hides peers, is transparent otherwise and idempotent.
  \<^item> \<open>Binary_Pool\<close>, \<open>Binary_Send\<close> (\<open>binary_proxy.rs\<close>): the pool and the whole of \<open>send\<close>. Frames are lossless,
    refused requests touch nothing, permits are conserved, stale connections are replaced, outcomes are
    counted. \<open>Pool_Machine\<close>: the interleavings of many calls. The connections stay within the limit; no
    call waits in vain while at most as many are in flight as the pool is large; beyond that a call can
    starve although connections are idle; and \<open>send\<close> refines the machine. (\<open>send\<close> itself is one call that runs
    alone, with the two steps of \<open>get_connection\<close> as definitions of their own; the machine is many calls, whose
    exchanges and reconnects are not broken up since they share nothing.) \<open>Pool_Progress\<close>: the machine stands
    still (locale \<open>draining\<close>) only where all calls have returned or the rest starves in a pool of idle connections.
    \<open>Binary_Log\<close>: what \<open>log_binary_response\<close> writes.
  \<^item> \<open>App_State\<close>, \<open>Jsonrpc_Proxy\<close> (\<open>jsonrpc_proxy.rs\<close>): exactly the allowlisted methods are forwarded,
    unchanged and once; refusals, pass-through, sanitised statuses and metrics.
  \<^item> \<open>Binary_Socket\<close>, \<open>Handlers\<close> (\<open>handlers.rs\<close>): the binary websocket answers the requests in order, all of them
    when its pool has a permit; routes (GET routes take HEAD too), links and metric labels agree.
  \<^item> \<open>App\<close> (\<open>lib.rs\<close>, \<open>main.rs\<close>): starting serves exactly the configured networks, after what \<open>migrate\<close> does.
  \<^item> \<open>Service\<close> (\<open>lib.rs\<close>, \<open>handlers.rs\<close>): the composed service, from a request through the middleware, the rate
    limit, the extractors and the handler to the response and the task it leaves; the response to HEAD is
    sent without its body, and an event stream that was that body is dropped. Each response is counted once, a
    refused request runs nothing, streams start for configured networks only, unknown networks are refused, a
    handler panics only for a binary limit that cannot be built, and the answers follow the database that
    \<open>run\<close> has read.
  \<^item> This theory: the path of an event from the node to a client.

  \<^bold>\<open>Bounds.\<close> The ids of a bus are 64-bit; the properties of the bus hold as long as the counter does not wrap,
  which is stated. A request to the node is at most 4 MiB, so its length fits the 32-bit frame.

  \<^bold>\<open>Not modelled.\<close> Log output other than \<open>log_binary_response\<close>, keep-alive frames of SSE, the delay between
  reconnects, and what third-party code computes: the limiting algorithm, the JSON, wire and metric text
  formats, the extractors of the web framework. The integration tests under \<open>tests/\<close> implement nothing.
\<close>

section \<open>From the node to the client\<close>

lemma fresh_bus:
  assumes "bus = fresh_bus network limit cap metrics"
  shows "bus_inv bus" "next_id bus = 0" "bus_sent bus = []" "api_version bus = None"
    "unat (backlog_limit bus) = unat (max limit 1)"
proof -
  show "bus_inv bus" unfolding assms by (rule fresh_bus_inv)
qed (simp_all add: assms fresh_bus_def Let_def api_version_def)

text \<open>What the bus keeps of a stream that fits into the backlog.\<close>

lemma round_backlog:
  assumes "ls_bus st = fresh_bus network limit cap metrics"
    and "listener_round E client network endpoint (st, w) = Some (st', w')"
    and "fst (listen E endpoint (map_option (\<lambda>i. dec_string (unat i)) (ls_start_from st)) w) = Some items"
    and "length (pushed E (good_items items)) \<le> unat (max limit 1)"
  shows "bus_inv (ls_bus st') \<and> bus_backlog (ls_bus st') = envelopes 0 (pushed E (good_items items))
    \<and> api_version (ls_bus st') = first_api E (good_items items)"
proof -
  note new = fresh_bus [OF assms(1)]
  have "unat (max limit 1) < 2 ^ 64" using unsigned_less [of "max limit 1"] by simp
  then have fits: "unat (next_id (ls_bus st)) + length (pushed E (good_items items)) < 2 ^ 64"
    using assms(4) new(2) by simp
  note fed = listener_round_bus [OF new(1) assms(2,3) fits]
  have "backlog_limit (ls_bus st') = backlog_limit (ls_bus st)" by (rule listener_round_limit [OF assms(2)])
  with fed new assms(4) show ?thesis by (simp add: bus_backlog_window)
qed

section \<open>Properties\<close>

text \<open>C3: what the node sends is what a client gets. When the listener of a new network reads a stream that
  fits into the backlog and has an ApiVersion, a websocket client that then asks for the events from
  \<open>s\<close> gets the first ApiVersion of the node, followed by exactly the other events of the stream that can be
  serialised and come before its first error, numbered from 1 in the order of the node, from \<open>s\<close> on.\<close>

theorem node_to_client:
  assumes "ls_bus st = fresh_bus network limit cap metrics"
    and "listener_round E client network endpoint (st, w) = Some (st', w')"
    and "fst (listen E endpoint (map_option (\<lambda>i. dec_string (unat i)) (ls_start_from st)) w) = Some items"
    and "length (pushed E (good_items items)) \<le> unat (max limit 1)"
    and "first_api E (good_items items) = Some v" and "sink_ok S"
  shows "fst (snd (handle_events_socket S network [ls_bus st'] (ls_bus st') (Some s) [] log' w2)) =
    api_version_frame v #
      map event_frame (filter (\<lambda>e. s \<le> ev_id e) (envelopes 0 (pushed E (good_items items))))"
proof -
  note kept = round_backlog [OF assms(1-4)]
  have "wait_for_api_version [ls_bus st'] = Some v" using kept assms(5) by simp
  from socket_frames [OF assms(6) this] show ?thesis
    using kept by (simp add: stream_events_def replayed_def snapshot_from_def)
qed

theorem node_to_client_witness:
  "\<exists>st' w'. listener_round demo_env True ''n'' ''http://node/events'' (demo_state, 0) = Some (st', w')
     \<and> fst (snd (handle_events_socket \<lparr>ws_send = \<lambda>f w. (True, w)\<rparr> ''n'' [ls_bus st'] (ls_bus st') (Some 1) [] [] (0 :: nat))) =
         [api_version_frame (JString ''2.0.0''), event_frame \<lparr>ev_id = 1, ev_data = JInt 7\<rparr>]"
proof -
  let ?items = "[Some \<lparr>up_id = None, up_data = ApiVersion (JString ''2.0.0'')\<rparr>,
         Some \<lparr>up_id = Some 42, up_data = OtherEvent (JInt 7)\<rparr>, None,
         Some \<lparr>up_id = Some 43, up_data = OtherEvent (JInt 8)\<rparr>]"
  obtain st' w' where r: "listener_round demo_env True ''n'' ''http://node/events'' (demo_state, 0) = Some (st', w')"
    using demo_round [of True] by blast
  have b: "ls_bus demo_state = fresh_bus ''n'' 8 8 False" by (simp add: demo_state_def)
  have l: "fst (listen demo_env ''http://node/events''
      (map_option (\<lambda>i. dec_string (unat i)) (ls_start_from demo_state)) 0) = Some ?items"
    by (simp add: demo_env_def)
  have p: "pushed demo_env (good_items ?items) = [JInt 7]" by (simp add: demo_env_def)
  have f: "length (pushed demo_env (good_items ?items)) \<le> unat (max 8 (1 :: usize))"
    unfolding p by (simp add: max_def word_le_nat_alt)
  have v: "first_api demo_env (good_items ?items) = Some (JString ''2.0.0'')" by (simp add: demo_env_def)
  have ok: "sink_ok \<lparr>ws_send = \<lambda>f w :: nat. (True, w)\<rparr>" by (simp add: sink_ok_def)
  from node_to_client [OF b r l f v ok, of 1 "[]" 0] r show ?thesis unfolding p by auto
qed

end
